(* ===== verification/Agents_Prelude.thy ===== *)
theory Agents_Prelude
  imports
    Main
    "HOL-Library.Multiset"
    "HOL-Library.Char_ord"
    "HOL-Library.List_Lexorder"
    "HOL-Library.Product_Lexorder"
begin

text \<open>
  Shared vocabulary of the development.

  The backend keeps all of its state in SQL tables reached through a SQLAlchemy session. A table is
  modelled as the list of its rows, a row as a record. The session operations the sources use are
  the few functions of this theory: \<open>scalar\<close> and \<open>scalars\<close> for \<open>SELECT\<close>,
  \<open>update_where\<close> and \<open>rowcount\<close> for \<open>UPDATE ... WHERE\<close>, \<open>get_row\<close> for
  a primary-key lookup and \<open>insert_row\<close> for \<open>INSERT\<close>. The theory also holds the Python
  idioms that occur in several components (\<open>str.strip\<close>, \<open>str.casefold\<close>,
  \<open>dict.fromkeys\<close>), the contracts several components share, as locales, and the lemma
  collections the component proofs draw on.

  Instants are integers (microseconds since the epoch, in UTC: the sources read a naive value as
  UTC); a lease or a time to live is an integer added to one. Strings are character lists, read as
  ASCII: \<open>casefold\<close> is lower-casing there.
\<close>

named_theorems table_simps \<open>rewrite rules for tables of rows\<close>
named_theorems frame_simps \<open>which parts of a state an operation leaves alone\<close>

type_synonym time = int
type_synonym ident = string

definition seconds :: "int \<Rightarrow> time" where
  "seconds n = n * 1000000"

definition hours :: "int \<Rightarrow> time" where
  "hours n = seconds (3600 * n)"

definition days :: "int \<Rightarrow> time" where
  "days n = hours (24 * n)"

lemma seconds_pos [simp]: "0 < seconds n \<longleftrightarrow> 0 < n" "0 \<le> seconds n \<longleftrightarrow> 0 \<le> n"
  by (simp_all add: seconds_def zero_less_mult_iff zero_le_mult_iff)

section \<open>Python strings\<close>

definition py_space :: "char \<Rightarrow> bool" where
  "py_space c \<longleftrightarrow> c \<in> set [CHR 0x09, CHR 0x0A, CHR 0x0B, CHR 0x0C, CHR 0x0D, CHR 0x1C, CHR 0x1D,
     CHR 0x1E, CHR 0x1F, CHR '' '']"

definition py_lstrip :: "string \<Rightarrow> string" where
  "py_lstrip s = dropWhile py_space s"

definition py_strip :: "string \<Rightarrow> string" where
  "py_strip s = rev (py_lstrip (rev (py_lstrip s)))"

definition casefold_char :: "char \<Rightarrow> char" where
  "casefold_char c =
     (let n = of_char c :: nat in if 65 \<le> n \<and> n \<le> 90 then char_of (n + 32) else c)"

definition py_casefold :: "string \<Rightarrow> string" where
  "py_casefold s = map casefold_char s"

lemma casefold_char_idem [simp]: "casefold_char (casefold_char c) = casefold_char c"
proof (cases "65 \<le> (of_char c :: nat) \<and> (of_char c :: nat) \<le> 90")
  case True
  then have "(of_char c + 32 :: nat) < 256" by simp
  then have "of_char (char_of (of_char c + 32 :: nat) :: char) = (of_char c + 32 :: nat)"
    by simp
  with True show ?thesis by (simp add: casefold_char_def Let_def)
next
  case False
  then have "casefold_char c = c" by (auto simp: casefold_char_def Let_def)
  then show ?thesis by simp
qed

lemma py_casefold_idem [simp]: "py_casefold (py_casefold s) = py_casefold s"
  by (simp add: py_casefold_def)

lemma py_space_casefold [simp]: "py_space (casefold_char c) = py_space c"
proof (cases "65 \<le> (of_char c :: nat) \<and> (of_char c :: nat) \<le> 90")
  case True
  have "\<not> py_space c" using True by (auto simp: py_space_def)
  moreover have "\<not> py_space (char_of (of_char c + 32 :: nat))"
  proof
    assume "py_space (char_of (of_char c + 32 :: nat))"
    moreover have "py_space d \<Longrightarrow> of_char d \<le> (32 :: nat)" for d
      by (auto simp: py_space_def)
    ultimately have "of_char (char_of (of_char c + 32 :: nat) :: char) \<le> (32 :: nat)" by blast
    moreover have "(of_char c + 32 :: nat) < 256" using True by simp
    ultimately show False using True by simp
  qed
  ultimately show ?thesis using True by (simp add: casefold_char_def Let_def)
next
  case False
  then have "casefold_char c = c" by (auto simp: casefold_char_def Let_def)
  then show ?thesis by simp
qed

lemma dropWhile_idem [simp]: "dropWhile P (dropWhile P xs) = dropWhile P xs"
  by (induction xs) auto

lemma dropWhile_rev_absorb:
  "dropWhile P (rev (dropWhile P (rev (dropWhile P xs)))) = rev (dropWhile P (rev (dropWhile P xs)))"
proof -
  let ?ys = "dropWhile P xs"
  obtain zs where zs: "rev ?ys = takeWhile P (rev ?ys) @ zs" and drop: "dropWhile P (rev ?ys) = zs"
    using takeWhile_dropWhile_id [of P "rev ?ys"] by metis
  show ?thesis
  proof (cases zs rule: rev_cases)
    case Nil
    then show ?thesis by (simp only: drop) simp
  next
    case (snoc us u)
    with zs have "?ys = u # rev us @ rev (takeWhile P (rev ?ys))"
      by (metis append.assoc append_Cons append_Nil rev_append rev_rev_ident rev_singleton_conv rev.simps(2))
    then have "\<not> P u" by (metis hd_dropWhile list.discI list.sel(1))
    with snoc show ?thesis by (simp only: drop) simp
  qed
qed

lemma py_strip_idem [simp]: "py_strip (py_strip s) = py_strip s"
  by (simp add: py_strip_def py_lstrip_def dropWhile_rev_absorb)

lemma dropWhile_map_casefold:
  "dropWhile py_space (map casefold_char s) = map casefold_char (dropWhile py_space s)"
  by (induction s) auto

lemma py_strip_casefold [simp]: "py_strip (py_casefold s) = py_casefold (py_strip s)"
  by (simp add: py_strip_def py_lstrip_def py_casefold_def dropWhile_map_casefold rev_map)

text \<open>Decimal rendering of an integer, as an f-string formats it.\<close>

fun show_nat :: "nat \<Rightarrow> string" where
  "show_nat n = (if n < 10 then [char_of (48 + n)] else show_nat (n div 10) @ [char_of (48 + n mod 10)])"

declare show_nat.simps [simp del]

definition py_str_int :: "int \<Rightarrow> string" where
  "py_str_int i = (if i < 0 then CHR ''-'' # show_nat (nat (- i)) else show_nat (nat i))"

section \<open>dict.fromkeys: first occurrences, in order\<close>

fun fromkeys_from :: "'a list \<Rightarrow> 'a list \<Rightarrow> 'a list" where
  "fromkeys_from seen [] = []"
| "fromkeys_from seen (x # xs) =
     (if x \<in> set seen then fromkeys_from seen xs else x # fromkeys_from (x # seen) xs)"

definition dict_fromkeys :: "'a list \<Rightarrow> 'a list" where
  "dict_fromkeys xs = fromkeys_from [] xs"

lemma set_fromkeys_from: "set (fromkeys_from seen xs) = set xs - set seen"
  by (induction seen xs rule: fromkeys_from.induct) auto

lemma distinct_fromkeys_from: "distinct (fromkeys_from seen xs)"
  by (induction seen xs rule: fromkeys_from.induct) (auto simp: set_fromkeys_from)

lemma set_dict_fromkeys [simp]: "set (dict_fromkeys xs) = set xs"
  by (simp add: dict_fromkeys_def set_fromkeys_from)

lemma distinct_dict_fromkeys [simp]: "distinct (dict_fromkeys xs)"
  by (simp add: dict_fromkeys_def distinct_fromkeys_from)

lemma fromkeys_from_distinct:
  "distinct xs \<Longrightarrow> set xs \<inter> set seen = {} \<Longrightarrow> fromkeys_from seen xs = xs"
  by (induction seen xs rule: fromkeys_from.induct) auto

lemma dict_fromkeys_distinct [simp]: "distinct xs \<Longrightarrow> dict_fromkeys xs = xs"
  by (simp add: dict_fromkeys_def fromkeys_from_distinct)

lemma fromkeys_from_append:
  "fromkeys_from seen (xs @ [x]) = fromkeys_from seen xs @ (if x \<in> set seen \<union> set xs then [] else [x])"
  by (induction seen xs rule: fromkeys_from.induct) auto

lemma dict_fromkeys_append:
  "dict_fromkeys (xs @ [x]) = (if x \<in> set xs then dict_fromkeys xs else dict_fromkeys xs @ [x])"
  by (simp add: dict_fromkeys_def fromkeys_from_append)

lemma dict_fromkeys_Nil [simp]: "dict_fromkeys [] = []"
  by (simp add: dict_fromkeys_def)

section \<open>Tables\<close>

definition scalar :: "('r \<Rightarrow> bool) \<Rightarrow> 'r list \<Rightarrow> 'r option" where
  "scalar p rs = find p rs"

definition scalars :: "('r \<Rightarrow> bool) \<Rightarrow> 'r list \<Rightarrow> 'r list" where
  "scalars p rs = filter p rs"

definition get_row :: "('r \<Rightarrow> 'k) \<Rightarrow> 'k \<Rightarrow> 'r list \<Rightarrow> 'r option" where
  "get_row key k rs = find (\<lambda>r. key r = k) rs"

definition update_where :: "('r \<Rightarrow> bool) \<Rightarrow> ('r \<Rightarrow> 'r) \<Rightarrow> 'r list \<Rightarrow> 'r list" where
  "update_where p f rs = map (\<lambda>r. if p r then f r else r) rs"

definition rowcount :: "('r \<Rightarrow> bool) \<Rightarrow> 'r list \<Rightarrow> nat" where
  "rowcount p rs = length (filter p rs)"

definition delete_where :: "('r \<Rightarrow> bool) \<Rightarrow> 'r list \<Rightarrow> 'r list" where
  "delete_where p rs = filter (\<lambda>r. \<not> p r) rs"

definition insert_row :: "'r \<Rightarrow> 'r list \<Rightarrow> 'r list" where
  "insert_row r rs = rs @ [r]"

definition unique_on :: "('r \<Rightarrow> 'k) \<Rightarrow> 'r list \<Rightarrow> bool" where
  "unique_on key rs \<longleftrightarrow> distinct (map key rs)"

lemma scalar_SomeD: "scalar p rs = Some r \<Longrightarrow> r \<in> set rs \<and> p r"
  by (auto simp: scalar_def find_Some_iff)

lemma scalar_None_iff: "scalar p rs = None \<longleftrightarrow> (\<forall>r \<in> set rs. \<not> p r)"
  by (auto simp: scalar_def find_None_iff)

lemma get_row_SomeD: "get_row key k rs = Some r \<Longrightarrow> r \<in> set rs \<and> key r = k"
  by (auto simp: get_row_def find_Some_iff)

lemma get_row_None_iff: "get_row key k rs = None \<longleftrightarrow> k \<notin> key ` set rs"
  by (auto simp: get_row_def find_None_iff)

lemma get_row_unique:
  assumes "unique_on key rs" and "r \<in> set rs"
  shows "get_row key (key r) rs = Some r"
  using assms by (induction rs) (auto simp: unique_on_def get_row_def)

lemma unique_onD:
  "unique_on key rs \<Longrightarrow> r \<in> set rs \<Longrightarrow> s \<in> set rs \<Longrightarrow> key r = key s \<Longrightarrow> r = s"
  by (auto simp: unique_on_def distinct_map dest: inj_onD)

lemma set_update_where: "set (update_where p f rs) = (\<lambda>r. if p r then f r else r) ` set rs"
  by (simp add: update_where_def)

lemma length_update_where [simp]: "length (update_where p f rs) = length rs"
  by (simp add: update_where_def)

lemma update_where_mem: "r \<in> set rs \<Longrightarrow> (if p r then f r else r) \<in> set (update_where p f rs)"
  unfolding set_update_where by (rule imageI)

lemma set_update_one:
  assumes "r \<in> set rs" and "\<And>s. s \<in> set rs \<Longrightarrow> p s \<longleftrightarrow> s = r"
  shows "set (update_where p f rs) = insert (f r) (set rs - {r})"
  using assms by (auto simp: set_update_where)

lemma update_where_none: "rowcount p rs = 0 \<Longrightarrow> update_where p f rs = rs"
  by (auto simp: rowcount_def update_where_def filter_empty_conv intro: map_idI)

lemma map_update_where:
  "(\<And>r. p r \<Longrightarrow> key (f r) = key r) \<Longrightarrow> map key (update_where p f rs) = map key rs"
  by (simp add: update_where_def)

lemma image_update_where:
  "(\<And>r. p r \<Longrightarrow> key (f r) = key r) \<Longrightarrow> key ` set (update_where p f rs) = key ` set rs"
  using map_update_where [of p key f rs] by (metis list.set_map)

lemma unique_on_update_where:
  "(\<And>r. p r \<Longrightarrow> key (f r) = key r) \<Longrightarrow> unique_on key (update_where p f rs) = unique_on key rs"
  by (simp add: unique_on_def map_update_where)

lemma unique_on_insert [simp]:
  "unique_on key (insert_row r rs) \<longleftrightarrow> key r \<notin> key ` set rs \<and> unique_on key rs"
  by (auto simp: unique_on_def insert_row_def)

lemma set_insert_row [simp]: "set (insert_row r rs) = insert r (set rs)"
  by (simp add: insert_row_def)

lemma set_delete_where [simp]: "set (delete_where p rs) = {r \<in> set rs. \<not> p r}"
  by (auto simp: delete_where_def)

lemma unique_on_delete: "unique_on key rs \<Longrightarrow> unique_on key (delete_where p rs)"
  by (auto simp: unique_on_def delete_where_def distinct_map_filter)

lemma set_scalars [simp]: "set (scalars p rs) = {r \<in> set rs. p r}"
  by (auto simp: scalars_def)

lemma get_row_update_where:
  assumes "\<And>r. p r \<Longrightarrow> key (f r) = key r"
  shows "get_row key k (update_where p f rs)
    = map_option (\<lambda>r. if p r then f r else r) (get_row key k rs)"
  using assms by (induction rs) (auto simp: get_row_def update_where_def)

lemma get_row_update_other:
  assumes "\<And>r. p r \<Longrightarrow> key r \<noteq> k \<and> key (f r) = key r"
  shows "get_row key k (update_where p f rs) = get_row key k rs"
  using assms by (induction rs) (auto simp: get_row_def update_where_def)

lemma get_row_insert:
  "get_row key k (insert_row r rs)
    = (case get_row key k rs of Some s \<Rightarrow> Some s | None \<Rightarrow> if key r = k then Some r else None)"
  by (induction rs) (auto simp: get_row_def insert_row_def)

lemma scalar_update_where:
  assumes "\<And>r. q r \<Longrightarrow> p (f r) = p r"
  shows "scalar p (update_where q f rs) = map_option (\<lambda>r. if q r then f r else r) (scalar p rs)"
  using assms by (induction rs) (auto simp: scalar_def update_where_def)

lemma rowcount_key_le:
  assumes "unique_on key rs" and "\<And>r. p r \<Longrightarrow> key r = k"
  shows "rowcount p rs \<le> 1"
proof -
  have "distinct (map key (filter p rs))"
    using assms(1) by (simp add: unique_on_def distinct_map_filter)
  moreover have "set (map key (filter p rs)) \<subseteq> {k}" using assms(2) by auto
  ultimately have "length (map key (filter p rs)) \<le> card {k}"
    by (metis card_mono distinct_card finite.emptyI finite.insertI)
  then show ?thesis by (simp add: rowcount_def)
qed

lemma rowcount_pos: "0 < rowcount p rs \<longleftrightarrow> (\<exists>r \<in> set rs. p r)"
  by (auto simp: rowcount_def filter_empty_conv)

lemma rowcount_one_iff:
  assumes "unique_on key rs" and "\<And>r. p r \<Longrightarrow> key r = k"
  shows "rowcount p rs = 1 \<longleftrightarrow> (\<exists>r \<in> set rs. p r)"
  using rowcount_key_le [OF assms, where p = p] rowcount_pos [of p rs] by auto

lemma rowcount_update_same:
  "(\<And>r. r \<in> set rs \<Longrightarrow> p r \<Longrightarrow> q (f r) = q r) \<Longrightarrow> rowcount q (update_where p f rs) = rowcount q rs"
  by (induction rs) (auto simp: rowcount_def update_where_def)

lemma rowcount_update_one:
  assumes "unique_on key rs" and "r \<in> set rs" and "p r" and "\<not> q r" and "q (f r)"
    and "\<And>s. p s \<Longrightarrow> key s = key r"
  shows "rowcount q (update_where p f rs) = Suc (rowcount q rs)"
  using assms(1,2)
proof (induction rs)
  case Nil
  then show ?case by simp
next
  case (Cons s rs)
  show ?case
  proof (cases "s = r")
    case True
    then have "\<not> p t" if "t \<in> set rs" for t
      using Cons.prems(1) assms(6) [of t] that by (auto simp: unique_on_def image_iff)
    then have "update_where p f rs = rs" by (auto simp: update_where_def intro: map_idI)
    then show ?thesis using True assms(3-5) by (simp add: rowcount_def update_where_def)
  next
    case False
    then have "\<not> p s" using Cons.prems assms(6) [of s] by (auto simp: unique_on_def image_iff)
    then show ?thesis using False Cons by (simp add: rowcount_def update_where_def unique_on_def)
  qed
qed

text \<open>Summing a column over the rows of a kind.\<close>

definition sum_where :: "('r \<Rightarrow> bool) \<Rightarrow> ('r \<Rightarrow> int) \<Rightarrow> 'r list \<Rightarrow> int" where
  "sum_where q w rs = sum_list (map w (filter q rs))"

lemma sum_where_Cons [simp]: "sum_where q w (r # rs) = (if q r then w r else 0) + sum_where q w rs"
  by (simp add: sum_where_def)

lemma sum_where_insert [simp]: "sum_where q w (insert_row r rs) = sum_where q w rs + (if q r then w r else 0)"
  by (simp add: sum_where_def insert_row_def)

lemma sum_where_same:
  assumes "\<And>r. p r \<Longrightarrow> q (f r) = q r \<and> w (f r) = w r"
  shows "sum_where q w (update_where p f rs) = sum_where q w rs"
  using assms by (induction rs) (auto simp: update_where_def sum_where_def)

lemma sum_where_update_one:
  assumes "unique_on key rs" and "r \<in> set rs" and "p r" and "\<And>s. p s \<Longrightarrow> key s = key r"
  shows "sum_where q w (update_where p f rs)
    = sum_where q w rs - (if q r then w r else 0) + (if q (f r) then w (f r) else 0)"
  using assms(1,2)
proof (induction rs)
  case Nil
  then show ?case by simp
next
  case (Cons s rs)
  show ?case
  proof (cases "s = r")
    case True
    then have "\<not> p t" if "t \<in> set rs" for t
      using Cons.prems(1) assms(4) [of t] that by (auto simp: unique_on_def image_iff)
    then have "update_where p f rs = rs" by (auto simp: update_where_def intro: map_idI)
    then show ?thesis using True assms(3) by (simp add: update_where_def)
  next
    case False
    then have "\<not> p s" using Cons.prems assms(4) [of s] by (auto simp: unique_on_def image_iff)
    then show ?thesis using False Cons by (simp add: update_where_def unique_on_def)
  qed
qed

lemma sum_where_member:
  assumes "r \<in> set rs" and "q r" and "\<And>s. s \<in> set rs \<Longrightarrow> 0 \<le> w s"
  shows "w r \<le> sum_where q w rs"
proof -
  have nn: "0 \<le> sum_where q w ts" if "\<And>s. s \<in> set ts \<Longrightarrow> 0 \<le> w s" for ts
    using that by (induction ts) (auto simp: sum_where_def)
  show ?thesis using assms
  proof (induction rs)
    case Nil
    then show ?case by simp
  next
    case (Cons s ts)
    then show ?case using nn [of ts] by (cases "r = s") (fastforce simp: add_increasing)+
  qed
qed

lemmas table_defs = scalar_def scalars_def get_row_def update_where_def rowcount_def
  delete_where_def insert_row_def

declare set_update_where [table_simps] get_row_update_where [table_simps] get_row_insert [table_simps]

section \<open>Results\<close>

text \<open>
  A call that may raise returns \<open>Inl\<close> of the exception or \<open>Inr\<close> of its value. An operation on
  the database returns the result together with the committed database: a raise before the commit
  leaves the caller's database, since the session is rolled back.
\<close>

type_synonym ('e, 'a) res = "'e + 'a"

definition is_ok :: "('e, 'a) res \<Rightarrow> bool" where
  "is_ok r \<longleftrightarrow> (case r of Inl _ \<Rightarrow> False | Inr _ \<Rightarrow> True)"

lemma is_ok_simps [simp]: "is_ok (Inr x)" "\<not> is_ok (Inl e)"
  by (simp_all add: is_ok_def)

lemma is_okE: "is_ok r \<Longrightarrow> (\<And>x. r = Inr x \<Longrightarrow> P) \<Longrightarrow> P"
  by (cases r) (simp_all add: is_ok_def)

text \<open>Sequencing: the first exception ends the call.\<close>

definition res_bind :: "('e, 'a) res \<Rightarrow> ('a \<Rightarrow> ('e, 'b) res) \<Rightarrow> ('e, 'b) res" where
  "res_bind r f = (case r of Inl e \<Rightarrow> Inl e | Inr x \<Rightarrow> f x)"

lemma res_bind_simps [simp]: "res_bind (Inl e) f = Inl e" "res_bind (Inr x) f = f x"
  by (simp_all add: res_bind_def)

lemma res_bind_ok: "res_bind r f = Inr y \<longleftrightarrow> (\<exists>x. r = Inr x \<and> f x = Inr y)"
  by (cases r) simp_all

lemma res_bind_okE:
  assumes "res_bind r f = Inr y"
  obtains x where "r = Inr x" and "f x = Inr y"
  using assms by (auto simp: res_bind_ok)

section \<open>Contracts shared by several components\<close>

text \<open>
  A leased row: the row is claimed by an \<open>UPDATE\<close> whose \<open>WHERE\<close> clause is
  \<open>claimable\<close> and whose values are \<open>grant\<close>; \<open>held\<close> is the guard under which the
  claimant later writes. Durable run jobs, registration notifications and object-cleanup jobs are
  three such tables.
\<close>

locale leased_rows =
  fixes key :: "'r \<Rightarrow> 'k"
    and claimable :: "time \<Rightarrow> 'r \<Rightarrow> bool"
    and held :: "'t \<Rightarrow> time \<Rightarrow> 'r \<Rightarrow> bool"
    and grant :: "'t \<Rightarrow> time \<Rightarrow> 'r \<Rightarrow> 'r"
  assumes claimable_free: "claimable now r \<Longrightarrow> \<not> held tok now r"
    and grant_key: "key (grant tok til r) = key r"
    and grant_held: "claimable now r \<Longrightarrow> now < til \<Longrightarrow> held tok now (grant tok til r)"
    and held_unique: "held tok now r \<Longrightarrow> held tok' now r \<Longrightarrow> tok = tok'"
begin

lemma claim_keeps_holder:
  assumes "r \<in> set rs" and "held tok now r"
  shows "r \<in> set (update_where (\<lambda>r. key r = k \<and> claimable now r) (grant tok' til) rs)"
proof -
  have "\<not> claimable now r" using assms(2) claimable_free by blast
  then show ?thesis using assms(1) by (force simp: set_update_where)
qed

lemma claim_takes_hold:
  assumes "unique_on key rs"
    and "rowcount (\<lambda>r. key r = k \<and> claimable now r) rs = 1" and "now < til"
  shows "\<exists>r. get_row key k (update_where (\<lambda>r. key r = k \<and> claimable now r) (grant tok til) rs)
      = Some r \<and> held tok now r"
proof -
  obtain r where r: "r \<in> set rs" "key r = k" "claimable now r"
    using assms(1,2) rowcount_one_iff [of key rs "\<lambda>r. key r = k \<and> claimable now r" k] by auto
  then have "get_row key k rs = Some r" using get_row_unique [OF assms(1), of r] by simp
  then show ?thesis
    using r assms(3) by (simp add: get_row_update_where grant_key grant_held)
qed

lemma claim_exclusive:
  assumes "unique_on key rs"
    and "rowcount (\<lambda>r. key r = k \<and> claimable now r) rs = 1" and "now < til"
    and "get_row key k (update_where (\<lambda>r. key r = k \<and> claimable now r) (grant tok til) rs) = Some r"
    and "held tok' now r"
  shows "tok' = tok"
  using claim_takes_hold [OF assms(1-3), of tok] assms(4,5) held_unique by auto

lemma second_claim_fails:
  assumes "unique_on key rs"
    and "rowcount (\<lambda>r. key r = k \<and> claimable now r) rs = 1" and "now < til"
  shows "rowcount (\<lambda>r. key r = k \<and> claimable now r)
      (update_where (\<lambda>r. key r = k \<and> claimable now r) (grant tok til) rs) = 0"
proof -
  let ?p = "\<lambda>r. key r = k \<and> claimable now r"
  have "\<not> ?p s" if "s \<in> set (update_where ?p (grant tok til) rs)" for s
  proof -
    from that obtain r where r: "r \<in> set rs" "s = (if ?p r then grant tok til r else r)"
      unfolding set_update_where by (elim imageE) blast
    show ?thesis
    proof (cases "?p r")
      case True
      then have "held tok now s" using r assms(3) grant_held by auto
      then show ?thesis using claimable_free by blast
    next
      case False
      then show ?thesis using r by auto
    qed
  qed
  then show ?thesis using rowcount_pos [of ?p "update_where ?p (grant tok til) rs"] by blast
qed

end

text \<open>
  Running a list of attempts one after the other, and counting how many of those that fall into
  a class of keys were let through.
\<close>

fun run_attempts :: "('k \<Rightarrow> 's \<Rightarrow> bool \<times> 's) \<Rightarrow> 'k list \<Rightarrow> 's \<Rightarrow> bool list \<times> 's" where
  "run_attempts take_one [] s = ([], s)"
| "run_attempts take_one (k # ks) s =
     (let (b, s1) = take_one k s; (bs, s2) = run_attempts take_one ks s1 in (b # bs, s2))"

definition granted :: "('k \<Rightarrow> 's \<Rightarrow> bool \<times> 's) \<Rightarrow> ('k \<Rightarrow> bool) \<Rightarrow> 'k list \<Rightarrow> 's \<Rightarrow> nat" where
  "granted take_one cls ks s =
     length (filter (\<lambda>(k, b). cls k \<and> b) (zip ks (fst (run_attempts take_one ks s))))"

lemma granted_Nil [simp]: "granted take_one cls [] s = 0"
  by (simp add: granted_def)

lemma granted_Cons:
  "granted take_one cls (k # ks) s =
     (if cls k \<and> fst (take_one k s) then 1 else 0) + granted take_one cls ks (snd (take_one k s))"
  by (simp add: granted_def Let_def split: prod.splits)

lemma snd_run_attempts_Cons:
  "snd (run_attempts take_one (k # ks) s) = snd (run_attempts take_one ks (snd (take_one k s)))"
  by (simp add: Let_def split: prod.splits)

text \<open>
  The contract of an attempt limiter: \<open>used\<close> reads what a bucket has consumed,
  \<open>take_one\<close> charges one attempt to the bucket \<open>cls k\<close> and says whether it was
  within the limit; \<open>ok\<close> is the provider's precondition.
\<close>

locale attempt_budget =
  fixes ok :: "'s \<Rightarrow> bool"
    and cls :: "'k \<Rightarrow> 'c"
    and used :: "'s \<Rightarrow> 'c \<Rightarrow> nat"
    and take_one :: "'k \<Rightarrow> 's \<Rightarrow> bool \<times> 's"
    and limit :: nat
  assumes take_ok: "ok s \<Longrightarrow> ok (snd (take_one k s))"
    and take_allowed: "ok s \<Longrightarrow> fst (take_one k s) \<longleftrightarrow> used s (cls k) < limit"
    and take_used: "ok s \<Longrightarrow> used (snd (take_one k s)) c
      = used s c + (if cls k = c \<and> used s c < limit then 1 else 0)"
begin

lemma used_after:
  "ok s \<Longrightarrow> used (snd (run_attempts take_one ks s)) c
    = used s c + granted take_one (\<lambda>k. cls k = c) ks s"
proof (induction ks arbitrary: s)
  case Nil
  show ?case by simp
next
  case (Cons k ks)
  from Cons.IH [OF take_ok [OF Cons.prems]] show ?case
    using take_used [OF Cons.prems, of k c] take_allowed [OF Cons.prems, of k]
    by (simp only: snd_run_attempts_Cons granted_Cons) simp
qed

lemma used_le_limit:
  "ok s \<Longrightarrow> used s c \<le> limit \<Longrightarrow> used (snd (run_attempts take_one ks s)) c \<le> limit"
proof (induction ks arbitrary: s)
  case Nil
  then show ?case by simp
next
  case (Cons k ks)
  have "used (snd (take_one k s)) c \<le> limit"
    using Cons.prems take_used [of s k c] by auto
  with Cons show ?case by (simp only: snd_run_attempts_Cons take_ok)
qed

lemma granted_le_limit:
  "ok s \<Longrightarrow> used s c \<le> limit
    \<Longrightarrow> granted take_one (\<lambda>k. cls k = c) ks s \<le> limit - used s c"
  using used_after [of s ks c] used_le_limit [of s c ks] by simp

end

text \<open>An invariant of a transition relation holds in every state reached from the start.\<close>

inductive reachable :: "('s \<Rightarrow> bool) \<Rightarrow> ('s \<Rightarrow> 's \<Rightarrow> bool) \<Rightarrow> 's \<Rightarrow> bool"
  for init :: "'s \<Rightarrow> bool" and step :: "'s \<Rightarrow> 's \<Rightarrow> bool" where
  start: "init s \<Longrightarrow> reachable init step s"
| next_state: "reachable init step s \<Longrightarrow> step s t \<Longrightarrow> reachable init step t"

lemma reachable_steps:
  "step\<^sup>*\<^sup>* s t \<Longrightarrow> reachable init step s \<Longrightarrow> reachable init step t"
  by (induction rule: rtranclp_induct) (auto intro: reachable.next_state)

locale invariant_system =
  fixes init :: "'s \<Rightarrow> bool"
    and step :: "'s \<Rightarrow> 's \<Rightarrow> bool"
    and inv :: "'s \<Rightarrow> bool"
  assumes inv_init: "init s \<Longrightarrow> inv s"
    and inv_step: "inv s \<Longrightarrow> step s t \<Longrightarrow> inv t"
begin

lemma reachable_inv: "reachable init step s \<Longrightarrow> inv s"
  by (induction rule: reachable.induct) (auto intro: inv_init inv_step)

end

text \<open>
  The detailed steps implement an abstract transition relation: every detailed step is matched by
  some abstract steps between the abstractions of its two states.
\<close>

locale simulation =
  fixes step :: "'s \<Rightarrow> 's \<Rightarrow> bool"
    and abs_step :: "'a \<Rightarrow> 'a \<Rightarrow> bool"
    and abs_of :: "'s \<Rightarrow> 'a"
  assumes simulate: "step s t \<Longrightarrow> abs_step\<^sup>*\<^sup>* (abs_of s) (abs_of t)"
begin

lemma simulate_steps: "step\<^sup>*\<^sup>* s t \<Longrightarrow> abs_step\<^sup>*\<^sup>* (abs_of s) (abs_of t)"
  by (induction rule: rtranclp_induct) (auto dest: simulate)

lemma abs_closed:
  assumes "step\<^sup>*\<^sup>* s t" and "P (abs_of s)" and "\<And>a b. P a \<Longrightarrow> abs_step a b \<Longrightarrow> P b"
  shows "P (abs_of t)"
  using simulate_steps [OF assms(1)] assms(2,3) by (induction rule: rtranclp_induct) auto

end

end
