(* ===== verification/Auth_Abuse.thy ===== *)
theory Auth_Abuse
  imports Agents_Prelude
begin

text \<open>
  The in-process attempt limiter of the authentication endpoints (\<open>auth/abuse.py\<close>). The
  protector's dictionary of buckets is a map; the digest of an identifier (SHA-256) is the parameter
  \<open>digest\<close>, and the reading of \<open>time.monotonic\<close> is the argument \<open>now\<close>. The lock
  makes each method one step.
\<close>

section \<open>State and operations\<close>

datatype abuse_error = AuthRateLimitExceededError

record AuthAbuseConfig =
  ac_enabled :: bool
  ac_max_attempts :: nat
  ac_window_seconds :: int

record AttemptBucket =
  ab_count :: nat
  ab_reset_at :: time

type_synonym bucket_key = "string \<times> string"
type_synonym buckets = "bucket_key \<rightharpoonup> AttemptBucket"

definition abuse_key :: "(string \<Rightarrow> string) \<Rightarrow> string \<Rightarrow> string \<Rightarrow> bucket_key" where
  "abuse_key digest action identifier = (action, digest (py_casefold (py_strip identifier)))"

definition active_bucket :: "bucket_key \<Rightarrow> time \<Rightarrow> buckets \<Rightarrow> AttemptBucket option \<times> buckets" where
  "active_bucket key now bs =
     (case bs key of
        None \<Rightarrow> (None, bs)
      | Some b \<Rightarrow> if ab_reset_at b \<le> now then (None, bs(key := None)) else (Some b, bs))"

definition assert_allowed ::
  "AuthAbuseConfig \<Rightarrow> (string \<Rightarrow> string) \<Rightarrow> time \<Rightarrow> string \<Rightarrow> string \<Rightarrow> buckets
    \<Rightarrow> (abuse_error, unit) res \<times> buckets" where
  "assert_allowed cfg digest now action identifier bs =
     (if \<not> ac_enabled cfg then (Inr (), bs)
      else let key = abuse_key digest action identifier;
               (bucket, bs') = active_bucket key now bs
           in case bucket of
                Some b \<Rightarrow> if ac_max_attempts cfg \<le> ab_count b
                          then (Inl AuthRateLimitExceededError, bs') else (Inr (), bs')
              | None \<Rightarrow> (Inr (), bs'))"

definition record_attempt ::
  "AuthAbuseConfig \<Rightarrow> (string \<Rightarrow> string) \<Rightarrow> time \<Rightarrow> string \<Rightarrow> string \<Rightarrow> buckets \<Rightarrow> buckets" where
  "record_attempt cfg digest now action identifier bs =
     (if \<not> ac_enabled cfg then bs
      else let key = abuse_key digest action identifier;
               (bucket, bs') = active_bucket key now bs
           in case bucket of
                None \<Rightarrow> bs'(key \<mapsto> \<lparr>ab_count = 1, ab_reset_at = now + seconds (ac_window_seconds cfg)\<rparr>)
              | Some b \<Rightarrow> bs'(key \<mapsto> b\<lparr>ab_count := ab_count b + 1\<rparr>))"

definition reset_attempts ::
  "AuthAbuseConfig \<Rightarrow> (string \<Rightarrow> string) \<Rightarrow> string \<Rightarrow> string \<Rightarrow> buckets \<Rightarrow> buckets" where
  "reset_attempts cfg digest action identifier bs =
     (if \<not> ac_enabled cfg then bs else bs(abuse_key digest action identifier := None))"

definition clear_buckets :: "buckets \<Rightarrow> buckets" where
  "clear_buckets bs = Map.empty"

text \<open>The module's cached protector: its configuration and its buckets.\<close>

type_synonym protector_cache = "(AuthAbuseConfig \<times> buckets) option"

definition get_auth_abuse_protector :: "AuthAbuseConfig \<Rightarrow> protector_cache \<Rightarrow> protector_cache" where
  "get_auth_abuse_protector cfg cache =
     (case cache of
        None \<Rightarrow> Some (cfg, Map.empty)
      | Some (c, bs) \<Rightarrow> if c \<noteq> cfg then Some (cfg, Map.empty) else cache)"

definition reset_auth_abuse_protector :: "protector_cache \<Rightarrow> protector_cache" where
  "reset_auth_abuse_protector cache = None"

section \<open>What the limiter guarantees\<close>

text \<open>Attempts recorded against a key in its current window.\<close>

definition attempts_used :: "time \<Rightarrow> buckets \<Rightarrow> bucket_key \<Rightarrow> nat" where
  "attempts_used now bs key = (case fst (active_bucket key now bs) of None \<Rightarrow> 0 | Some b \<Rightarrow> ab_count b)"

text \<open>An endpoint that checks and then records, as the password-reset request does.\<close>

definition checked_attempt ::
  "AuthAbuseConfig \<Rightarrow> (string \<Rightarrow> string) \<Rightarrow> time \<Rightarrow> string \<times> string \<Rightarrow> buckets \<Rightarrow> bool \<times> buckets" where
  "checked_attempt cfg digest now k bs =
     (case assert_allowed cfg digest now (fst k) (snd k) bs of
        (Inl _, bs') \<Rightarrow> (False, bs')
      | (Inr _, bs') \<Rightarrow> (True, record_attempt cfg digest now (fst k) (snd k) bs'))"

lemma active_bucket_idem [simp]:
  "active_bucket key now (snd (active_bucket key now bs)) = active_bucket key now bs
    \<or> fst (active_bucket key now bs) = None"
  by (auto simp: active_bucket_def split: option.splits)

lemma attempts_used_pop [simp]:
  "attempts_used now (snd (active_bucket key now bs)) key' = attempts_used now bs key'"
  by (auto simp: attempts_used_def active_bucket_def split: option.splits)

lemma snd_assert_allowed:
  "ac_enabled cfg \<Longrightarrow> snd (assert_allowed cfg digest now a i bs)
    = snd (active_bucket (abuse_key digest a i) now bs)"
  by (auto simp: assert_allowed_def Let_def split: prod.splits option.splits)

lemma assert_allowed_ok_iff:
  assumes "ac_enabled cfg" "0 < ac_max_attempts cfg"
  shows "is_ok (fst (assert_allowed cfg digest now a i bs))
    \<longleftrightarrow> attempts_used now bs (abuse_key digest a i) < ac_max_attempts cfg"
  using assms
  by (auto simp: assert_allowed_def Let_def attempts_used_def split: prod.splits option.splits)

lemma attempts_used_record:
  assumes "ac_enabled cfg" "0 < ac_window_seconds cfg"
  shows "attempts_used now (record_attempt cfg digest now a i bs) k
    = attempts_used now bs k + (if k = abuse_key digest a i then 1 else 0)"
  using assms seconds_pos(1) [of "ac_window_seconds cfg"]
  by (auto simp: record_attempt_def attempts_used_def active_bucket_def Let_def
      simp del: seconds_pos split: option.splits)

lemma checked_attempt_eq:
  assumes "ac_enabled cfg"
  shows "checked_attempt cfg digest now k bs =
    (let bs' = snd (active_bucket (abuse_key digest (fst k) (snd k)) now bs)
     in if is_ok (fst (assert_allowed cfg digest now (fst k) (snd k) bs))
        then (True, record_attempt cfg digest now (fst k) (snd k) bs') else (False, bs'))"
  using snd_assert_allowed [OF assms, of digest now "fst k" "snd k" bs]
  by (auto simp: checked_attempt_def is_ok_def split: prod.splits sum.splits)

text \<open>
  Checking and recording within one window is an attempt budget, identifiers being charged to the
  bucket of their normalised digest.
\<close>

definition abuse_config_ok :: "AuthAbuseConfig \<Rightarrow> bool" where
  "abuse_config_ok cfg \<longleftrightarrow> ac_enabled cfg \<and> 0 < ac_max_attempts cfg \<and> 0 < ac_window_seconds cfg"

interpretation abuse: attempt_budget
  "\<lambda>bs. abuse_config_ok cfg" "\<lambda>k. abuse_key digest (fst k) (snd k)" "attempts_used now"
  "checked_attempt cfg digest now" "ac_max_attempts cfg"
  for cfg digest now
proof (unfold_locales, goal_cases)
  case 1
  then show ?case .
next
  case (2 bs k)
  then show ?case
    by (simp add: checked_attempt_eq assert_allowed_ok_iff abuse_config_ok_def Let_def)
next
  case (3 bs k c)
  then show ?case
    by (auto simp: checked_attempt_eq assert_allowed_ok_iff abuse_config_ok_def Let_def
        attempts_used_record)
qed

text \<open>
  Within one window the limiter lets at most \<open>max_attempts\<close> attempts through for any one
  normalised identifier, whatever mix of identifiers and spellings the sequence of attempts has.
\<close>

theorem abuse_window_bound:
  assumes "ac_enabled cfg" and "0 < ac_max_attempts cfg" and "0 < ac_window_seconds cfg"
    and "attempts_used now bs c \<le> ac_max_attempts cfg"
  shows "granted (checked_attempt cfg digest now)
      (\<lambda>k. abuse_key digest (fst k) (snd k) = c) ks bs
    \<le> ac_max_attempts cfg - attempts_used now bs c"
  using assms abuse.granted_le_limit [of cfg now bs c digest ks] by (simp add: abuse_config_ok_def)

theorem abuse_window_bound_witness:
  "granted (checked_attempt \<lparr>ac_enabled = True, ac_max_attempts = 2, ac_window_seconds = 60\<rparr> id 0)
     (\<lambda>k. abuse_key id (fst k) (snd k) = (''login'', ''a''))
     [(''login'', ''A''), (''login'', '' a''), (''signup'', ''a''), (''login'', ''a'')] Map.empty \<le> 2"
  using abuse_window_bound [of "\<lparr>ac_enabled = True, ac_max_attempts = 2, ac_window_seconds = 60\<rparr>"
      0 Map.empty "(''login'', ''a'')" id
      "[(''login'', ''A''), (''login'', '' a''), (''signup'', ''a''), (''login'', ''a'')]"]
  by (simp add: attempts_used_def active_bucket_def)

end
