(* ===== verification/Auth_Models.thy ===== *)
theory Auth_Models
  imports Agents_Prelude
begin

text \<open>
  The account tables (\<open>auth/models.py\<close>) and the authenticated principal
  (\<open>auth/contracts.py\<close>). Every SQLAlchemy model is a record with the model's columns, and
  \<open>auth_db\<close> is the part of the database these models make up. Relationship attributes are
  not stored columns and have no field. Status columns that the sources compare as strings are
  strings here.
\<close>

section \<open>Principals\<close>

datatype UserType = NORMAL | ROOT | SYSTEM

primrec user_type_value :: "UserType \<Rightarrow> string" where
  "user_type_value NORMAL = ''normal''"
| "user_type_value ROOT = ''root''"
| "user_type_value SYSTEM = ''system''"

definition SYSTEM_KNOWLEDGE_MANAGER_USER_TYPES :: "string list" where
  "SYSTEM_KNOWLEDGE_MANAGER_USER_TYPES = [user_type_value ROOT, user_type_value SYSTEM]"

definition can_manage_system_knowledge_for_user_type :: "string option \<Rightarrow> bool" where
  "can_manage_system_knowledge_for_user_type ut =
     ((case ut of None \<Rightarrow> user_type_value NORMAL
       | Some v \<Rightarrow> if v = '''' then user_type_value NORMAL else v)
      \<in> set SYSTEM_KNOWLEDGE_MANAGER_USER_TYPES)"

record Principal =
  p_user_id :: ident
  p_session_id :: ident
  p_is_guest :: bool
  p_user_type :: string

definition can_manage_system_knowledge :: "Principal \<Rightarrow> bool" where
  "can_manage_system_knowledge p =
     (if p_is_guest p then False
      else can_manage_system_knowledge_for_user_type (Some (p_user_type p)))"

section \<open>Tables\<close>

record UserModel =
  u_id :: ident
  u_email :: string
  u_nickname :: string
  u_password_hash :: string
  u_email_verified_at :: "time option"
  u_approval_status :: string
  u_approved_at :: "time option"
  u_rejected_at :: "time option"
  u_account_type :: string
  u_assistant_model_preference :: "string option"
  u_document_retrieval_priority :: string
  u_document_ingestion_mode :: string
  u_summarization_model_preference :: "string option"
  u_user_type :: string
  u_guest_expires_at :: "time option"
  u_created_at :: time

record SessionModel =
  s_id :: ident
  s_user_id :: ident
  s_token_hash :: string
  s_csrf_token_hash :: string
  s_created_at :: time
  s_expires_at :: "time option"
  s_revoked_at :: "time option"

record AuthTokenModel =
  t_id :: ident
  t_user_id :: ident
  t_purpose :: string
  t_token_hash :: string
  t_expires_at :: time
  t_consumed_at :: "time option"
  t_created_at :: time

record GuestAccessRequestModel =
  gr_id :: ident
  gr_email :: string
  gr_status :: string
  gr_created_at :: time
  gr_approved_at :: "time option"
  gr_sent_at :: "time option"
  gr_rejected_at :: "time option"

record GuestAccessCodeModel =
  gc_id :: ident
  gc_request_id :: "ident option"
  gc_code_hash :: string
  gc_expires_at :: time
  gc_consumed_at :: "time option"
  gc_email_fingerprint :: "string option"
  gc_generation :: int
  gc_guest_user_id :: "ident option"
  gc_created_at :: time

record RegistrationNotificationModel =
  n_id :: ident
  n_user_id :: ident
  n_kind :: string
  n_recipient_email :: "string option"
  n_account_email :: "string option"
  n_approval_status :: string
  n_created_at :: time
  n_guest_expires_at :: "time option"
  n_available_at :: time
  n_lease_until :: "time option"
  n_lease_token :: "string option"
  n_attempts :: nat
  n_sent_at :: "time option"

record GuestDeletionAuditModel =
  ga_guest_user_id :: ident
  ga_email_fingerprint :: "string option"
  ga_guest_created_at :: time
  ga_guest_expired_at :: time
  ga_deleted_at :: time
  ga_counts_json :: string
  ga_reason :: string

record GuestTrialModel =
  gt_email_fingerprint :: string
  gt_guest_user_id :: "ident option"
  gt_redeemed_at :: "time option"
  gt_generation :: int
  gt_last_sent_at :: "time option"
  gt_last_reset_at :: "time option"
  gt_created_at :: time

record GuestPolicyStateModel =
  gp_id :: int
  gp_key_verifier :: string
  gp_initialized_at :: time

record GuestRateBucketModel =
  gb_id :: string
  gb_count :: nat
  gb_expires_at :: time

record auth_db =
  users :: "UserModel list"
  sessions :: "SessionModel list"
  auth_tokens :: "AuthTokenModel list"
  guest_access_requests :: "GuestAccessRequestModel list"
  guest_access_codes :: "GuestAccessCodeModel list"
  registration_notifications :: "RegistrationNotificationModel list"
  guest_deletion_audits :: "GuestDeletionAuditModel list"
  guest_trials :: "GuestTrialModel list"
  guest_policy_state :: "GuestPolicyStateModel list"
  guest_rate_buckets :: "GuestRateBucketModel list"

text \<open>The uniqueness constraints and primary keys the models declare.\<close>

definition auth_keys :: "'a auth_db_scheme \<Rightarrow> bool" where
  "auth_keys db \<longleftrightarrow>
     unique_on u_id (users db) \<and> unique_on u_email (users db)
     \<and> unique_on s_id (sessions db) \<and> unique_on s_token_hash (sessions db)
     \<and> unique_on t_id (auth_tokens db) \<and> unique_on t_token_hash (auth_tokens db)
     \<and> unique_on gc_id (guest_access_codes db) \<and> unique_on gc_code_hash (guest_access_codes db)
     \<and> unique_on n_id (registration_notifications db)
     \<and> unique_on n_user_id (registration_notifications db)
     \<and> unique_on gt_email_fingerprint (guest_trials db)
     \<and> unique_on gb_id (guest_rate_buckets db)"

definition find_user_by_email :: "string \<Rightarrow> 'a auth_db_scheme \<Rightarrow> UserModel option" where
  "find_user_by_email email db = scalar (\<lambda>u. u_email u = email) (users db)"

definition get_user :: "ident \<Rightarrow> 'a auth_db_scheme \<Rightarrow> UserModel option" where
  "get_user uid db = get_row u_id uid (users db)"

lemma get_user_SomeD: "get_user uid db = Some u \<Longrightarrow> u \<in> set (users db) \<and> u_id u = uid"
  unfolding get_user_def by (rule get_row_SomeD)

lemma find_user_by_email_SomeD:
  "find_user_by_email e db = Some u \<Longrightarrow> u \<in> set (users db) \<and> u_email u = e"
  unfolding find_user_by_email_def by (drule scalar_SomeD) simp

lemma guests_manage_nothing [simp]: "p_is_guest p \<Longrightarrow> \<not> can_manage_system_knowledge p"
  by (simp add: can_manage_system_knowledge_def)

text \<open>The exceptions the account services raise, and those of the libraries they let through.\<close>

datatype auth_error =
    DuplicateEmailError
  | InvalidCredentialsError
  | UnverifiedEmailError
  | AccountApprovalRequiredError
  | AccountRejectedError
  | AccountMutationNotAllowedError
  | InvalidSessionError
  | InvalidCsrfTokenError
  | InvalidAuthTokenError
  | GuestRequestSuppressed
  | GuestIpRateLimited
  | GuestKeyChanged
  | ValueError
  | EmailSendError

record AuthenticatedSession =
  as_user :: UserModel
  as_session :: SessionModel
  as_session_token :: string
  as_csrf_token :: string

end
