(* ===== verification/Guest_Policy.thy ===== *)
theory Guest_Policy
  imports Auth_Models
begin

text \<open>
  The guest identity policy (\<open>auth/guest_policy.py\<close>): one trial row per keyed email
  fingerprint, the eligibility rule, the fixed-window request budgets shared by all workers, and the
  operator's reset. The HMAC is the parameter \<open>hmac\<close> (key, message); a key shorter than 32 bytes
  raises. \<open>ON CONFLICT\<close> clauses are the case distinction on the stored row they abbreviate. A
  row lock taken by a no-op \<open>UPDATE\<close> changes no row and leaves no trace in the model, whose
  operations are atomic.
\<close>

section \<open>Identity\<close>

type_synonym hmac = "string \<Rightarrow> string \<Rightarrow> string"

definition guest_fingerprint :: "hmac \<Rightarrow> string \<Rightarrow> string \<Rightarrow> (auth_error, string) res" where
  "guest_fingerprint hmac email key =
     (if length key < 32 then Inl ValueError else Inr (hmac key (py_casefold (py_strip email))))"

definition KEY_VERIFIER :: string where
  "KEY_VERIFIER = ''guest-policy-key-verifier-v1''"

definition validate_policy_key :: "hmac \<Rightarrow> string \<Rightarrow> 'a auth_db_scheme \<Rightarrow> (auth_error, unit) res" where
  "validate_policy_key hmac key db =
     (case get_row gp_id 1 (guest_policy_state db) of
        None \<Rightarrow> Inr ()
      | Some st \<Rightarrow>
          (case guest_fingerprint hmac KEY_VERIFIER key of
             Inl e \<Rightarrow> Inl e
           | Inr v \<Rightarrow> if gp_key_verifier st \<noteq> v then Inl GuestKeyChanged else Inr ()))"

definition lock_trial :: "time \<Rightarrow> string \<Rightarrow> 'a auth_db_scheme \<Rightarrow> GuestTrialModel \<times> 'a auth_db_scheme" where
  "lock_trial now fp db =
     (case get_row gt_email_fingerprint fp (guest_trials db) of
        Some trial \<Rightarrow> (trial, db)
      | None \<Rightarrow>
          let trial = \<lparr>gt_email_fingerprint = fp, gt_guest_user_id = None, gt_redeemed_at = None,
                       gt_generation = 0, gt_last_sent_at = None, gt_last_reset_at = None,
                       gt_created_at = now\<rparr>
          in (trial, db\<lparr>guest_trials := insert_row trial (guest_trials db)\<rparr>))"

definition registered_email :: "string \<Rightarrow> 'a auth_db_scheme \<Rightarrow> bool" where
  "registered_email email db \<longleftrightarrow>
     scalar (\<lambda>u. u_email u = email \<and> u_account_type u = ''registered'') (users db) \<noteq> None"

definition active_guest :: "time \<Rightarrow> UserModel \<Rightarrow> bool" where
  "active_guest now u \<longleftrightarrow> u_account_type u = ''guest''
     \<and> (case u_guest_expires_at u of None \<Rightarrow> False | Some til \<Rightarrow> now < til)"

definition eligible_user ::
  "time \<Rightarrow> GuestTrialModel \<Rightarrow> string \<Rightarrow> 'a auth_db_scheme \<Rightarrow> (auth_error, UserModel option) res" where
  "eligible_user now trial email db =
     (if registered_email email db then Inl GuestRequestSuppressed
      else if gt_redeemed_at trial = None then Inr None
      else case (case gt_guest_user_id trial of
                   None \<Rightarrow> None
                 | Some uid \<Rightarrow> if uid = '''' then None else get_user uid db) of
             None \<Rightarrow> Inl GuestRequestSuppressed
           | Some user \<Rightarrow> if active_guest now user then Inr (Some user) else Inl GuestRequestSuppressed)"

section \<open>Budgets\<close>

definition rate_bucket_id ::
  "hmac \<Rightarrow> string \<Rightarrow> string \<Rightarrow> int \<Rightarrow> string \<Rightarrow> (auth_error, string) res" where
  "rate_bucket_id hmac key action slot subject =
     guest_fingerprint hmac (''guest-rate:'' @ action @ '':'' @ py_str_int slot @ '':'' @ subject) key"

definition take_budget ::
  "hmac \<Rightarrow> string \<Rightarrow> time \<Rightarrow> string \<Rightarrow> string \<Rightarrow> nat \<Rightarrow> int \<Rightarrow> 'a auth_db_scheme
    \<Rightarrow> (auth_error, bool) res \<times> 'a auth_db_scheme" where
  "take_budget hmac key now action subject limit window_seconds db =
     (let slot = (now div 1000000) div window_seconds
      in case rate_bucket_id hmac key action slot subject of
           Inl e \<Rightarrow> (Inl e, db)
         | Inr bucket \<Rightarrow>
             let expires = seconds ((slot + 1) * window_seconds);
                 live = delete_where (\<lambda>b. gb_expires_at b \<le> now) (guest_rate_buckets db)
             in case get_row gb_id bucket live of
                  None \<Rightarrow>
                    (Inr True, db\<lparr>guest_rate_buckets :=
                       insert_row \<lparr>gb_id = bucket, gb_count = 1, gb_expires_at = expires\<rparr> live\<rparr>)
                | Some b \<Rightarrow>
                    if gb_count b < limit
                    then (Inr True, db\<lparr>guest_rate_buckets :=
                       update_where (\<lambda>r. gb_id r = bucket) (\<lambda>r. r\<lparr>gb_count := gb_count r + 1\<rparr>) live\<rparr>)
                    else (Inr False, db\<lparr>guest_rate_buckets := live\<rparr>))"

section \<open>Bootstrap of the policy\<close>

text \<open>
  The first start of the policy derives one trial per requesting email from the rows that predate
  it. \<open>backfill_email\<close> is one iteration of the loop over emails: it retires all but one active
  guest, dates the trial, and leaves at most one usable code. The remaining deletion audits become
  trials of their own.
\<close>

definition norm_email :: "string \<Rightarrow> string" where
  "norm_email e = py_casefold (py_strip e)"

fun backfill_audits :: "GuestDeletionAuditModel list \<Rightarrow> (string \<times> time) list \<Rightarrow> (string \<times> time) list" where
  "backfill_audits [] acc = acc"
| "backfill_audits (a # as) acc =
     (case ga_email_fingerprint a of
        None \<Rightarrow> backfill_audits as acc
      | Some fp \<Rightarrow> backfill_audits as
          (if fp \<in> fst ` set acc
           then map (\<lambda>(f, t). if f = fp then (f, min (ga_guest_created_at a) t) else (f, t)) acc
           else acc @ [(fp, ga_guest_created_at a)]))"

definition opt_min :: "time list \<Rightarrow> time option" where
  "opt_min ts = (case ts of [] \<Rightarrow> None | t # rest \<Rightarrow> Some (fold min rest t))"

definition opt_max :: "time list \<Rightarrow> time option" where
  "opt_max ts = (case ts of [] \<Rightarrow> None | t # rest \<Rightarrow> Some (fold max rest t))"

definition somes :: "'b option list \<Rightarrow> 'b list" where
  "somes xs = concat (map (\<lambda>x. case x of None \<Rightarrow> [] | Some v \<Rightarrow> [v]) xs)"

definition retire_guests :: "time \<Rightarrow> ident list \<Rightarrow> 'a auth_db_scheme \<Rightarrow> 'a auth_db_scheme" where
  "retire_guests now uids db =
     db\<lparr>users := update_where (\<lambda>u. u_id u \<in> set uids) (\<lambda>u. u\<lparr>u_guest_expires_at := Some now\<rparr>) (users db),
        sessions := update_where (\<lambda>s. s_user_id s \<in> set uids \<and> s_revoked_at s = None)
          (\<lambda>s. s\<lparr>s_revoked_at := Some now\<rparr>) (sessions db)\<rparr>"

definition email_requests :: "string \<Rightarrow> 'a auth_db_scheme \<Rightarrow> GuestAccessRequestModel list" where
  "email_requests email db = scalars (\<lambda>r. norm_email (gr_email r) = email) (guest_access_requests db)"

definition code_of_email :: "string \<Rightarrow> 'a auth_db_scheme \<Rightarrow> GuestAccessCodeModel \<Rightarrow> bool" where
  "code_of_email email db c \<longleftrightarrow> gc_request_id c \<in> Some ` set (map gr_id (email_requests email db))"

definition email_codes :: "string \<Rightarrow> 'a auth_db_scheme \<Rightarrow> GuestAccessCodeModel list" where
  "email_codes email db = scalars (code_of_email email db) (guest_access_codes db)"

definition email_guests :: "string \<Rightarrow> 'a auth_db_scheme \<Rightarrow> UserModel list" where
  "email_guests email db =
     (let ids = filter (\<lambda>i. i \<noteq> '''') (somes (map gc_guest_user_id (email_codes email db)))
      in scalars (\<lambda>u. u_id u \<in> set ids \<and> u_account_type u = ''guest'') (users db))"

definition active_email_guests :: "time \<Rightarrow> string \<Rightarrow> 'a auth_db_scheme \<Rightarrow> UserModel list" where
  "active_email_guests now email db =
     sort_key (\<lambda>u. (u_created_at u, u_id u)) (filter (active_guest now) (email_guests email db))"

definition trial_keeper :: "time \<Rightarrow> string \<Rightarrow> 'a auth_db_scheme \<Rightarrow> UserModel option" where
  "trial_keeper now email db =
     (case active_email_guests now email db of
        [] \<Rightarrow> None
      | u # _ \<Rightarrow> if registered_email email db then None else Some u)"

definition trial_history :: "string \<Rightarrow> string \<Rightarrow> (string \<times> time) list \<Rightarrow> 'a auth_db_scheme \<Rightarrow> time list" where
  "trial_history fp email audits db =
     somes (map gc_consumed_at (email_codes email db)) @ map u_created_at (email_guests email db)
     @ map gr_created_at (filter (\<lambda>r. gr_status r = ''consumed'') (email_requests email db))
     @ somes [map_of audits fp]"

definition codes_to_expire ::
  "time \<Rightarrow> string \<Rightarrow> string \<Rightarrow> (string \<times> time) list \<Rightarrow> 'a auth_db_scheme \<Rightarrow> ident list" where
  "codes_to_expire now fp email audits db =
     (let usable = map gc_id (rev (sort_key (\<lambda>c. (gc_created_at c, gc_id c))
            (filter (\<lambda>c. gc_consumed_at c = None \<and> now < gc_expires_at c) (email_codes email db))))
      in if registered_email email db
            \<or> (trial_history fp email audits db \<noteq> [] \<and> trial_keeper now email db = None)
         then usable else drop 1 usable)"

definition backfill_email ::
  "time \<Rightarrow> string \<Rightarrow> string \<Rightarrow> 'a auth_db_scheme \<times> (string \<times> time) list
    \<Rightarrow> 'a auth_db_scheme \<times> (string \<times> time) list" where
  "backfill_email now fp email st =
     (let (db, audits) = st;
          keeper = trial_keeper now email db;
          expire = codes_to_expire now fp email audits db;
          db1 = retire_guests now (map u_id (filter (\<lambda>u. map_option u_id keeper \<noteq> Some (u_id u))
                  (active_email_guests now email db))) db;
          trial = \<lparr>gt_email_fingerprint = fp, gt_guest_user_id = map_option u_id keeper,
                   gt_redeemed_at = opt_min (trial_history fp email audits db), gt_generation = 0,
                   gt_last_sent_at = opt_max (somes (map gr_sent_at (email_requests email db))),
                   gt_last_reset_at = None,
                   gt_created_at = (case opt_min (map gr_created_at (email_requests email db)) of
                                      None \<Rightarrow> now | Some t \<Rightarrow> t)\<rparr>
      in (db1\<lparr>guest_trials := insert_row trial (guest_trials db1),
              guest_access_codes := update_where (code_of_email email db)
                (\<lambda>c. c\<lparr>gc_email_fingerprint := Some fp, gc_generation := 0,
                       gc_expires_at := (if gc_id c \<in> set expire then now else gc_expires_at c)\<rparr>)
                (guest_access_codes db1)\<rparr>,
          filter (\<lambda>(f, t). f \<noteq> fp) audits))"

definition backfill :: "hmac \<Rightarrow> string \<Rightarrow> time \<Rightarrow> 'a auth_db_scheme \<Rightarrow> 'a auth_db_scheme" where
  "backfill hmac key now db =
     (let emails = dict_fromkeys (map (norm_email \<circ> gr_email) (guest_access_requests db));
          (db1, audits) = fold (\<lambda>e. backfill_email now (hmac key (norm_email e)) e) emails
                            (db, backfill_audits (guest_deletion_audits db) [])
      in db1\<lparr>guest_trials := guest_trials db1 @
           map (\<lambda>(fp, t). \<lparr>gt_email_fingerprint = fp, gt_guest_user_id = None,
                 gt_redeemed_at = Some t, gt_generation = 0, gt_last_sent_at = None,
                 gt_last_reset_at = None, gt_created_at = t\<rparr>) audits\<rparr>)"

definition initialize_guest_policy ::
  "hmac \<Rightarrow> string \<Rightarrow> time \<Rightarrow> 'a auth_db_scheme \<Rightarrow> (auth_error, unit) res \<times> 'a auth_db_scheme" where
  "initialize_guest_policy hmac key now db =
     (case guest_fingerprint hmac KEY_VERIFIER key of
        Inl e \<Rightarrow> (Inl e, db)
      | Inr verifier \<Rightarrow>
          (case get_row gp_id 1 (guest_policy_state db) of
             Some _ \<Rightarrow> (validate_policy_key hmac key db, db)
           | None \<Rightarrow>
               (Inr (), backfill hmac key now
                 (db\<lparr>guest_policy_state := insert_row
                    \<lparr>gp_id = 1, gp_key_verifier = verifier, gp_initialized_at = now\<rparr>
                    (guest_policy_state db)\<rparr>))))"

section \<open>Operator reset and signup lock\<close>

definition reset_trial ::
  "hmac \<Rightarrow> string \<Rightarrow> time \<Rightarrow> string \<Rightarrow> 'a auth_db_scheme \<Rightarrow> (auth_error, unit) res \<times> 'a auth_db_scheme" where
  "reset_trial hmac key now email db =
     (case initialize_guest_policy hmac key now db of
        (Inl e, _) \<Rightarrow> (Inl e, db)
      | (Inr _, db0) \<Rightarrow>
          (case guest_fingerprint hmac email key of
             Inl e \<Rightarrow> (Inl e, db)
           | Inr fp \<Rightarrow>
               let (trial, db1) = lock_trial now fp db0;
                   db2 = (case gt_guest_user_id trial of
                            None \<Rightarrow> db1
                          | Some uid \<Rightarrow>
                              if uid = '''' then db1
                              else db1\<lparr>users := update_where
                                     (\<lambda>u. u_id u = uid \<and> active_guest now u)
                                     (\<lambda>u. u\<lparr>u_guest_expires_at := Some now\<rparr>) (users db1),
                                   sessions := update_where (\<lambda>s. s_user_id s = uid)
                                     (\<lambda>s. s\<lparr>s_revoked_at := Some now\<rparr>) (sessions db1)\<rparr>);
                   db3 = db2\<lparr>guest_access_codes := update_where
                           (\<lambda>c. gc_email_fingerprint c = Some fp \<and> gc_consumed_at c = None)
                           (\<lambda>c. c\<lparr>gc_expires_at := now\<rparr>) (guest_access_codes db2),
                         guest_trials := update_where (\<lambda>t. gt_email_fingerprint t = fp)
                           (\<lambda>t. t\<lparr>gt_generation := gt_generation t + 1, gt_guest_user_id := None,
                                  gt_redeemed_at := None, gt_last_sent_at := None,
                                  gt_last_reset_at := Some now\<rparr>) (guest_trials db2)\<rparr>
               in (Inr (), db3)))"

definition lock_signup_identity ::
  "hmac \<Rightarrow> bool \<Rightarrow> string \<Rightarrow> time \<Rightarrow> string \<Rightarrow> 'a auth_db_scheme
    \<Rightarrow> (auth_error, unit) res \<times> 'a auth_db_scheme" where
  "lock_signup_identity hmac guest_access_enabled key now email db =
     (if \<not> guest_access_enabled then (Inr (), db)
      else case initialize_guest_policy hmac key now db of
             (Inl e, _) \<Rightarrow> (Inl e, db)
           | (Inr _, db0) \<Rightarrow>
               (case guest_fingerprint hmac email key of
                  Inl e \<Rightarrow> (Inl e, db)
                | Inr fp \<Rightarrow> (Inr (), snd (lock_trial now fp db0))))"

section \<open>The request budget\<close>

definition budget_used :: "time \<Rightarrow> 'a auth_db_scheme \<Rightarrow> string \<Rightarrow> nat" where
  "budget_used now db bucket =
     (case get_row gb_id bucket (delete_where (\<lambda>b. gb_expires_at b \<le> now) (guest_rate_buckets db)) of
        None \<Rightarrow> 0 | Some b \<Rightarrow> gb_count b)"

definition budget_bucket :: "hmac \<Rightarrow> string \<Rightarrow> time \<Rightarrow> string \<Rightarrow> int \<Rightarrow> string \<Rightarrow> string" where
  "budget_bucket hmac key now action window subject = hmac key (py_casefold (py_strip
     (''guest-rate:'' @ action @ '':'' @ py_str_int ((now div 1000000) div window) @ '':'' @ subject)))"

definition budget_ok :: "string \<Rightarrow> nat \<Rightarrow> int \<Rightarrow> 'a auth_db_scheme \<Rightarrow> bool" where
  "budget_ok key limit window db \<longleftrightarrow> 32 \<le> length key \<and> 0 < limit \<and> 0 < window
     \<and> unique_on gb_id (guest_rate_buckets db)"

text \<open>One attempt, as the callers use the answer.\<close>

definition budget_attempt ::
  "hmac \<Rightarrow> string \<Rightarrow> time \<Rightarrow> string \<Rightarrow> nat \<Rightarrow> int \<Rightarrow> string \<Rightarrow> 'a auth_db_scheme
    \<Rightarrow> bool \<times> 'a auth_db_scheme" where
  "budget_attempt hmac key now action limit window subject db =
     (case take_budget hmac key now action subject limit window db of
        (Inl _, db') \<Rightarrow> (False, db')
      | (Inr b, db') \<Rightarrow> (b, db'))"

lemma window_open:
  assumes "0 < w"
  shows "now < seconds (((now div 1000000) div w + 1) * w)"
proof -
  define t where "t = now div 1000000"
  have "t mod w < w" using assms by simp
  moreover have "t = (t div w) * w + t mod w" by simp
  ultimately have "t < (t div w) * w + w" by linarith
  then have "t + 1 \<le> (t div w + 1) * w" by (simp add: distrib_right)
  then have "(t + 1) * 1000000 \<le> seconds ((t div w + 1) * w)"
    unfolding seconds_def by (rule mult_right_mono) simp
  moreover have "now < (t + 1) * 1000000" unfolding t_def by presburger
  ultimately show ?thesis unfolding t_def by linarith
qed

lemma budget_attempt_eq:
  fixes hmac :: hmac and now :: time and action subject :: string
  assumes "budget_ok key limit w db"
  defines "b \<equiv> budget_bucket hmac key now action w subject"
    and "live \<equiv> delete_where (\<lambda>b. gb_expires_at b \<le> now) (guest_rate_buckets db)"
  shows "budget_attempt hmac key now action limit w subject db =
    (case get_row gb_id b live of
       None \<Rightarrow> (True, db\<lparr>guest_rate_buckets := insert_row \<lparr>gb_id = b, gb_count = 1,
                 gb_expires_at = seconds (((now div 1000000) div w + 1) * w)\<rparr> live\<rparr>)
     | Some r \<Rightarrow> if gb_count r < limit
         then (True, db\<lparr>guest_rate_buckets :=
                update_where (\<lambda>r. gb_id r = b) (\<lambda>r. r\<lparr>gb_count := gb_count r + 1\<rparr>) live\<rparr>)
         else (False, db\<lparr>guest_rate_buckets := live\<rparr>))"
  using assms(1)
  by (simp add: budget_attempt_def take_budget_def rate_bucket_id_def guest_fingerprint_def Let_def
      budget_ok_def b_def live_def budget_bucket_def split: option.split)

lemma live_idem:
  "delete_where (\<lambda>b. gb_expires_at b \<le> now) (delete_where (\<lambda>b. gb_expires_at b \<le> now) rs)
    = delete_where (\<lambda>b. gb_expires_at b \<le> now) rs"
  by (simp add: delete_where_def)

lemma live_insert:
  "now < gb_expires_at r \<Longrightarrow> delete_where (\<lambda>b. gb_expires_at b \<le> now) (insert_row r rs)
    = insert_row r (delete_where (\<lambda>b. gb_expires_at b \<le> now) rs)"
  by (simp add: delete_where_def insert_row_def)

lemma live_update:
  "delete_where (\<lambda>b. gb_expires_at b \<le> now) (update_where p (\<lambda>r. r\<lparr>gb_count := f r\<rparr>) rs)
    = update_where p (\<lambda>r. r\<lparr>gb_count := f r\<rparr>) (delete_where (\<lambda>b. gb_expires_at b \<le> now) rs)"
  by (induction rs) (auto simp: delete_where_def update_where_def)

lemma budget_used_attempt:
  assumes "budget_ok key limit w db" "0 < limit"
  shows "budget_used now (snd (budget_attempt hmac key now action limit w subject db)) c
    = budget_used now db c
      + (if budget_bucket hmac key now action w subject = c \<and> budget_used now db c < limit then 1 else 0)"
  using assms(2) window_open [of w now] assms(1)
  unfolding budget_attempt_eq [OF assms(1)]
  by (auto simp: budget_used_def live_idem live_insert live_update get_row_insert get_row_update_where
      budget_ok_def split: option.splits dest: get_row_SomeD)

interpretation guest_budget: attempt_budget
  "budget_ok key limit w" "budget_bucket hmac key now action w" "budget_used now"
  "budget_attempt hmac key now action limit w" limit
  for key limit w hmac now action
proof (unfold_locales, goal_cases)
  case (1 db subject)
  then show ?case
    unfolding budget_attempt_eq [OF 1]
    by (auto simp: budget_ok_def unique_on_delete unique_on_update_where get_row_None_iff
        split: option.splits)
next
  case (2 db subject)
  then show ?case
    unfolding budget_attempt_eq [OF 2]
    by (auto simp: budget_used_def budget_ok_def split: option.splits)
next
  case (3 db subject c)
  then show ?case by (simp add: budget_used_attempt budget_ok_def)
qed

text \<open>
  Shared request budgets: in one fixed window no more than \<open>limit\<close> attempts of an action are
  let through for one subject, counting what the shared table has already recorded for it.
\<close>

theorem take_budget_window_bound:
  assumes "32 \<le> length key" and "0 < limit" and "0 < w"
    and "unique_on gb_id (guest_rate_buckets db)"
    and "budget_used now db c \<le> limit"
  shows "granted (budget_attempt hmac key now action limit w)
      (\<lambda>subject. budget_bucket hmac key now action w subject = c) subjects db
    \<le> limit - budget_used now db c"
  using assms guest_budget.granted_le_limit [of key limit w db now c hmac action subjects]
  by (simp add: budget_ok_def)

theorem take_budget_window_bound_witness:
  "granted (budget_attempt (\<lambda>k m. m) (replicate 32 CHR ''k'') 1000000 ''login-ip'' 2 900)
     (\<lambda>s. budget_bucket (\<lambda>k m. m) (replicate 32 CHR ''k'') 1000000 ''login-ip'' 900 s
        = budget_bucket (\<lambda>k m. m) (replicate 32 CHR ''k'') 1000000 ''login-ip'' 900 ''ip'')
     [''ip'', ''IP'', ''other'', ''ip''] (undefined\<lparr>guest_rate_buckets := []\<rparr> :: auth_db) \<le> 2"
  using take_budget_window_bound [of "replicate 32 CHR ''k''" 2 900
      "undefined\<lparr>guest_rate_buckets := []\<rparr> :: auth_db" 1000000
      "budget_bucket (\<lambda>k m. m) (replicate 32 CHR ''k'') 1000000 ''login-ip'' 900 ''ip''"
      "\<lambda>k m. m" "''login-ip''" "[''ip'', ''IP'', ''other'', ''ip'']"]
  by (simp add: unique_on_def budget_used_def delete_where_def get_row_def)

section \<open>The bootstrap leaves one active guest per email\<close>

text \<open>Guest accounts reached from an email through its requests and codes, and those still active.\<close>

definition linked_to :: "string \<Rightarrow> 'a auth_db_scheme \<Rightarrow> ident \<Rightarrow> bool" where
  "linked_to email db uid \<longleftrightarrow> uid \<noteq> '''' \<and> (\<exists>r \<in> set (guest_access_requests db).
     \<exists>c \<in> set (guest_access_codes db). norm_email (gr_email r) = email
       \<and> gc_request_id c = Some (gr_id r) \<and> gc_guest_user_id c = Some uid)"

definition active_linked :: "time \<Rightarrow> string \<Rightarrow> 'a auth_db_scheme \<Rightarrow> ident set" where
  "active_linked now email db =
     {uid. linked_to email db uid \<and> (\<exists>u \<in> set (users db). u_id u = uid \<and> active_guest now u)}"

lemma set_somes [simp]: "set (somes xs) = {v. Some v \<in> set xs}"
  by (induction xs) (auto simp: somes_def split: option.splits)

lemma active_retire:
  "u \<in> set (users (retire_guests now uids db)) \<Longrightarrow> active_guest now u
    \<Longrightarrow> u \<in> set (users db) \<and> u_id u \<notin> set uids"
  by (auto simp: retire_guests_def set_update_where active_guest_def)

lemma linked_cong:
  fixes db db' :: "'a auth_db_scheme"
  assumes "guest_access_requests db' = guest_access_requests db"
    and "map (\<lambda>c. (gc_request_id c, gc_guest_user_id c)) (guest_access_codes db')
      = map (\<lambda>c. (gc_request_id c, gc_guest_user_id c)) (guest_access_codes db)"
  shows "linked_to email db' uid = linked_to email db uid"
proof -
  have "linked_to email d uid \<longleftrightarrow> uid \<noteq> '''' \<and> (\<exists>r \<in> set (guest_access_requests d).
      norm_email (gr_email r) = email \<and> (Some (gr_id r), Some uid)
        \<in> set (map (\<lambda>c. (gc_request_id c, gc_guest_user_id c)) (guest_access_codes d)))"
    for d :: "'a auth_db_scheme"
    unfolding linked_to_def by force
  from this [of db] this [of db'] show ?thesis by (simp only: assms)
qed

lemma backfill_email_frame:
  assumes "backfill_email now fp email (db, audits) = (db', audits')"
  shows "guest_access_requests db' = guest_access_requests db"
    and "map (\<lambda>c. (gc_request_id c, gc_guest_user_id c)) (guest_access_codes db')
      = map (\<lambda>c. (gc_request_id c, gc_guest_user_id c)) (guest_access_codes db)"
    and "\<exists>uids. users db' = users (retire_guests now uids db)"
proof -
  let ?uids = "map u_id (filter (\<lambda>u. map_option u_id (trial_keeper now email db) \<noteq> Some (u_id u))
    (active_email_guests now email db))"
  have users: "users db' = users (retire_guests now ?uids db)"
    and requests: "guest_access_requests db' = guest_access_requests db"
    and codes: "map (\<lambda>c. (gc_request_id c, gc_guest_user_id c)) (guest_access_codes db')
      = map (\<lambda>c. (gc_request_id c, gc_guest_user_id c)) (guest_access_codes db)"
    using assms by (auto simp: backfill_email_def Let_def retire_guests_def update_where_def)
  show "guest_access_requests db' = guest_access_requests db" by (rule requests)
  show "map (\<lambda>c. (gc_request_id c, gc_guest_user_id c)) (guest_access_codes db')
      = map (\<lambda>c. (gc_request_id c, gc_guest_user_id c)) (guest_access_codes db)" by (rule codes)
  show "\<exists>uids. users db' = users (retire_guests now uids db)" using users by blast
qed

lemma backfill_email_keeps_inactive:
  assumes "backfill_email now fp email (db, audits) = (db', audits')"
  shows "active_linked now e db' \<subseteq> active_linked now e db"
  using backfill_email_frame [OF assms] linked_cong [of db' db] active_retire
  by (fastforce simp: active_linked_def)

lemma backfill_email_one_active:
  assumes "backfill_email now fp email (db, audits) = (db', audits')"
    and "u \<in> active_linked now email db'" and "v \<in> active_linked now email db'"
  shows "u = v"
proof -
  define uids where "uids = map u_id (filter (\<lambda>u. map_option u_id (trial_keeper now email db) \<noteq> Some (u_id u))
      (active_email_guests now email db))"
  have users: "users db' = users (retire_guests now uids db)"
    using assms(1) by (auto simp: backfill_email_def Let_def uids_def retire_guests_def)
  have kept: "map_option u_id (trial_keeper now email db) = Some w"
    if w: "w \<in> active_linked now email db'" for w
  proof -
    obtain x where x: "x \<in> set (users db')" "u_id x = w" "active_guest now x"
      using w by (auto simp: active_linked_def)
    then have x': "x \<in> set (users db)" "w \<notin> set uids" using users active_retire by metis+
    have "linked_to email db w"
      using w linked_cong [OF backfill_email_frame(1,2) [OF assms(1)]] by (simp add: active_linked_def)
    then have "Some w \<in> set (map gc_guest_user_id (email_codes email db))" "w \<noteq> ''''"
      by (force simp: linked_to_def email_codes_def code_of_email_def email_requests_def)+
    then have "x \<in> set (active_email_guests now email db)"
      using x x'(1) by (simp add: active_email_guests_def email_guests_def Let_def active_guest_def)
    then show ?thesis using x'(2) x(2) unfolding uids_def by force
  qed
  show ?thesis using kept [OF assms(2)] kept [OF assms(3)] by simp
qed

lemma backfill_fold_one_active:
  "e \<in> set emails \<Longrightarrow> u \<in> active_linked now e (fst (fold (\<lambda>e. backfill_email now (g e) e) emails st))
    \<Longrightarrow> v \<in> active_linked now e (fst (fold (\<lambda>e. backfill_email now (g e) e) emails st)) \<Longrightarrow> u = v"
proof (induction emails arbitrary: st)
  case Nil
  then show ?case by simp
next
  case (Cons x emails)
  have down: "active_linked now e (fst (fold (\<lambda>e. backfill_email now (g e) e) es s)) \<subseteq> active_linked now e (fst s)"
    for es and s :: "'a auth_db_scheme \<times> (string \<times> time) list"
  proof (induction es arbitrary: s)
    case Nil
    show ?case by simp
  next
    case (Cons y es)
    obtain d a d' a' where s: "s = (d, a)" "backfill_email now (g y) y (d, a) = (d', a')" by (meson surj_pair)
    then show ?case using Cons.IH [of "(d', a')"] backfill_email_keeps_inactive [of now "g y" y d a d' a' e]
      by auto
  qed
  obtain d a d' a' where s: "st = (d, a)" "backfill_email now (g x) x (d, a) = (d', a')" by (meson surj_pair)
  show ?case
  proof (cases "e = x")
    case True
    then show ?thesis
      using backfill_email_one_active [OF s(2), of u v] down [of emails "(d', a')"] Cons.prems(2,3) s by auto
  next
    case False
    then show ?thesis using Cons s by simp
  qed
qed

text \<open>
  Bootstrapping the guest policy: for every email that ever asked for access, at most one of the
  guest accounts its codes created is still active afterwards.
\<close>

theorem initialize_one_active_guest:
  assumes "get_row gp_id 1 (guest_policy_state db) = None"
    and "initialize_guest_policy hmac key now db = (Inr (), db')"
    and "r \<in> set (guest_access_requests db)"
  shows "\<exists>w. active_linked now (norm_email (gr_email r)) db' \<subseteq> {w}"
proof -
  define d0 where "d0 = db\<lparr>guest_policy_state := insert_row
    \<lparr>gp_id = 1, gp_key_verifier = hmac key (py_casefold (py_strip KEY_VERIFIER)), gp_initialized_at = now\<rparr>
      (guest_policy_state db)\<rparr>"
  let ?emails = "dict_fromkeys (map (norm_email \<circ> gr_email) (guest_access_requests d0))"
  let ?st = "fold (\<lambda>e. backfill_email now (hmac key (norm_email e)) e) ?emails
    (d0, backfill_audits (guest_deletion_audits d0) [])"
  have "db' = backfill hmac key now d0"
    using assms(1,2)
    by (auto simp: initialize_guest_policy_def guest_fingerprint_def d0_def split: if_splits)
  then have "active_linked now e db' = active_linked now e (fst ?st)" for e
    by (simp add: backfill_def Let_def active_linked_def linked_to_def split: prod.splits)
  moreover have "norm_email (gr_email r) \<in> set ?emails"
    using assms(3) by (simp add: d0_def)
  ultimately have "u = v" if "u \<in> active_linked now (norm_email (gr_email r)) db'"
      "v \<in> active_linked now (norm_email (gr_email r)) db'" for u v
    using backfill_fold_one_active [of _ ?emails u now "\<lambda>e. hmac key (norm_email e)"] that by blast
  then show ?thesis by blast
qed

definition sample_guest :: "ident \<Rightarrow> UserModel" where
  "sample_guest i = \<lparr>u_id = i, u_email = i @ ''@guest'', u_nickname = ''Guest'', u_password_hash = ''x'',
     u_email_verified_at = None, u_approval_status = ''approved'', u_approved_at = None,
     u_rejected_at = None, u_account_type = ''guest'', u_assistant_model_preference = None,
     u_document_retrieval_priority = ''automatic'', u_document_ingestion_mode = ''standard'',
     u_summarization_model_preference = None, u_user_type = ''normal'',
     u_guest_expires_at = Some 100, u_created_at = 1\<rparr>"

definition sample_request :: GuestAccessRequestModel where
  "sample_request = \<lparr>gr_id = ''r1'', gr_email = ''A@x '', gr_status = ''consumed'', gr_created_at = 1,
     gr_approved_at = None, gr_sent_at = None, gr_rejected_at = None\<rparr>"

definition sample_code :: "ident \<Rightarrow> ident \<Rightarrow> GuestAccessCodeModel" where
  "sample_code i g = \<lparr>gc_id = i, gc_request_id = Some ''r1'', gc_code_hash = i, gc_expires_at = 50,
     gc_consumed_at = Some 2, gc_email_fingerprint = None, gc_generation = 0,
     gc_guest_user_id = Some g, gc_created_at = 1\<rparr>"

definition sample_guest_db :: auth_db where
  "sample_guest_db = \<lparr>users = [sample_guest ''g1'', sample_guest ''g2''], sessions = [],
     auth_tokens = [], guest_access_requests = [sample_request],
     guest_access_codes = [sample_code ''c1'' ''g1'', sample_code ''c2'' ''g2''],
     registration_notifications = [], guest_deletion_audits = [], guest_trials = [],
     guest_policy_state = [], guest_rate_buckets = []\<rparr>"

theorem initialize_one_active_guest_witness:
  "\<exists>db'. initialize_guest_policy (\<lambda>k m. m) (replicate 32 CHR ''k'') 10 sample_guest_db = (Inr (), db')
     \<and> active_linked 10 ''a@x'' sample_guest_db = {''g1'', ''g2''}
     \<and> (\<exists>w. active_linked 10 ''a@x'' db' \<subseteq> {w})"
proof -
  have fresh: "get_row gp_id 1 (guest_policy_state sample_guest_db) = None"
    by (simp add: sample_guest_db_def get_row_def)
  obtain db' where run:
    "initialize_guest_policy (\<lambda>k m. m) (replicate 32 CHR ''k'') 10 sample_guest_db = (Inr (), db')"
    using fresh by (simp add: initialize_guest_policy_def guest_fingerprint_def)
  have mem: "sample_request \<in> set (guest_access_requests sample_guest_db)"
    by (simp add: sample_guest_db_def)
  have email: "norm_email (gr_email sample_request) = ''a@x''"
    by code_simp
  have "active_linked 10 ''a@x'' sample_guest_db = {''g1'', ''g2''}"
    using email by (auto simp: active_linked_def linked_to_def sample_guest_db_def sample_code_def
        sample_guest_def active_guest_def sample_request_def)
  then show ?thesis using run initialize_one_active_guest [OF fresh run mem] email by simp
qed

end
