(* ===== verification/Registration_Notifications.thy ===== *)
theory Registration_Notifications
  imports Auth_Models
begin

text \<open>
  The queue of operator alerts (\<open>auth/notifications.py\<close>): an alert is enqueued in the
  transaction that creates the account, and a background sweep leases, sends and retires alerts.
  The mail transport is the parameter \<open>de_send\<close> (whether the provider accepted the message for a
  row), the shutdown event is read at the two places the sweep polls it, and every fresh lease token
  and clock reading inside the loop is given per row.
\<close>

section \<open>Operations\<close>

datatype RegistrationKind = registered_signup | guest_redemption | invitation_signup

primrec registration_kind_value :: "RegistrationKind \<Rightarrow> string" where
  "registration_kind_value registered_signup = ''registered_signup''"
| "registration_kind_value guest_redemption = ''guest_redemption''"
| "registration_kind_value invitation_signup = ''invitation_signup''"

definition enqueue_registration ::
  "ident \<Rightarrow> time \<Rightarrow> UserModel \<Rightarrow> string option \<Rightarrow> string option \<Rightarrow> RegistrationKind
    \<Rightarrow> 'a auth_db_scheme \<Rightarrow> 'a auth_db_scheme" where
  "enqueue_registration new_id now user recipient account_email kind db =
     (if recipient = None \<or> recipient = Some '''' then db
      else db\<lparr>registration_notifications := insert_row
        \<lparr>n_id = new_id, n_user_id = u_id user, n_kind = registration_kind_value kind,
         n_recipient_email = recipient, n_account_email = account_email,
         n_approval_status = (if u_approval_status user = '''' then ''approved''
                              else u_approval_status user),
         n_created_at = now, n_guest_expires_at = u_guest_expires_at user, n_available_at = now,
         n_lease_until = None, n_lease_token = None, n_attempts = 0, n_sent_at = None\<rparr>
        (registration_notifications db)\<rparr>)"

definition notification_eligible :: "time \<Rightarrow> RegistrationNotificationModel \<Rightarrow> bool" where
  "notification_eligible now n \<longleftrightarrow> n_sent_at n = None \<and> n_available_at n \<le> now
     \<and> (case n_lease_until n of None \<Rightarrow> True | Some til \<Rightarrow> til \<le> now)"

definition notification_claim ::
  "string \<Rightarrow> time \<Rightarrow> RegistrationNotificationModel \<Rightarrow> RegistrationNotificationModel" where
  "notification_claim tok til n =
     n\<lparr>n_lease_token := Some tok, n_lease_until := Some til, n_attempts := n_attempts n + 1\<rparr>"

definition notification_owned :: "ident \<Rightarrow> string \<Rightarrow> RegistrationNotificationModel \<Rightarrow> bool" where
  "notification_owned job_id tok n \<longleftrightarrow> n_id n = job_id \<and> n_lease_token n = Some tok"

definition notification_backoff :: "nat \<Rightarrow> time" where
  "notification_backoff attempts = seconds (min 3600 (30 * 2 ^ min attempts 7))"

definition notification_release :: "RegistrationNotificationModel \<Rightarrow> RegistrationNotificationModel" where
  "notification_release n = n\<lparr>n_lease_token := None, n_lease_until := None\<rparr>"

definition notification_retry ::
  "time \<Rightarrow> RegistrationNotificationModel \<Rightarrow> RegistrationNotificationModel" where
  "notification_retry at n = (notification_release n)\<lparr>n_available_at := at\<rparr>"

definition notification_sent ::
  "time \<Rightarrow> RegistrationNotificationModel \<Rightarrow> RegistrationNotificationModel" where
  "notification_sent at n =
     (notification_release n)\<lparr>n_sent_at := Some at, n_recipient_email := None, n_account_email := None\<rparr>"

record delivery_env =
  de_lease_seconds :: int
  de_token :: "ident \<Rightarrow> string"
  de_clock :: "ident \<Rightarrow> time"
  de_send :: "RegistrationNotificationModel \<Rightarrow> bool"
  de_stop_before :: "ident \<Rightarrow> bool"
  de_stop_claimed :: "ident \<Rightarrow> bool"

datatype sweep_outcome = Sweep_stop | Sweep_skip | Sweep_retry | Sweep_delivered

text \<open>One iteration of the delivery loop.\<close>

definition deliver_one ::
  "delivery_env \<Rightarrow> time \<Rightarrow> ident \<Rightarrow> RegistrationNotificationModel list
    \<Rightarrow> sweep_outcome \<times> RegistrationNotificationModel list" where
  "deliver_one env now job_id rows =
     (if de_stop_before env job_id then (Sweep_stop, rows)
      else
        let tok = de_token env job_id;
            eligible = (\<lambda>n. n_id n = job_id \<and> notification_eligible now n);
            claimed = update_where eligible
              (notification_claim tok (de_clock env job_id + seconds (de_lease_seconds env))) rows;
            owned = notification_owned job_id tok
        in if rowcount eligible rows \<noteq> 1 then (Sweep_skip, claimed)
           else case get_row n_id job_id claimed of
                  None \<Rightarrow> (Sweep_skip, claimed)
                | Some job \<Rightarrow>
                    if de_stop_claimed env job_id
                    then (Sweep_stop, update_where owned notification_release claimed)
                    else if n_recipient_email job = None \<or> n_recipient_email job = Some ''''
                            \<or> \<not> de_send env job
                    then (Sweep_retry, update_where owned
                           (notification_retry (de_clock env job_id
                              + notification_backoff (n_attempts job))) claimed)
                    else (Sweep_delivered,
                          update_where owned (notification_sent (de_clock env job_id)) claimed))"

fun deliver_loop ::
  "delivery_env \<Rightarrow> time \<Rightarrow> ident list \<Rightarrow> RegistrationNotificationModel list
    \<Rightarrow> nat \<times> RegistrationNotificationModel list" where
  "deliver_loop env now [] rows = (0, rows)"
| "deliver_loop env now (job_id # ids) rows =
     (case deliver_one env now job_id rows of
        (Sweep_stop, rows') \<Rightarrow> (0, rows')
      | (Sweep_delivered, rows') \<Rightarrow>
          (let (n, rows'') = deliver_loop env now ids rows' in (n + 1, rows''))
      | (_, rows') \<Rightarrow> deliver_loop env now ids rows')"

definition deliver_pending ::
  "delivery_env \<Rightarrow> time \<Rightarrow> 'a auth_db_scheme \<Rightarrow> nat \<times> 'a auth_db_scheme" where
  "deliver_pending env now db =
     (let rows = registration_notifications db;
          ids = take 25 (map n_id (sort_key (\<lambda>n. (n_created_at n, n_id n))
                  (scalars (notification_eligible now) rows)));
          (n, rows') = deliver_loop env now ids rows
      in (n, db\<lparr>registration_notifications := rows'\<rparr>))"

section \<open>The lease contract\<close>

definition notification_held :: "string \<Rightarrow> time \<Rightarrow> RegistrationNotificationModel \<Rightarrow> bool" where
  "notification_held tok now n \<longleftrightarrow> n_lease_token n = Some tok
     \<and> (case n_lease_until n of None \<Rightarrow> False | Some til \<Rightarrow> now < til)"

interpretation notif: leased_rows n_id notification_eligible notification_held notification_claim
  by unfold_locales
    (auto simp: notification_eligible_def notification_held_def notification_claim_def
      split: option.splits)

lemmas notification_row_defs =
  notification_claim_def notification_release_def notification_retry_def notification_sent_def

lemma notification_row_ids [simp]:
  "n_id (notification_claim tok til n) = n_id n"
  "n_id (notification_release n) = n_id n"
  "n_id (notification_retry at n) = n_id n"
  "n_id (notification_sent at n) = n_id n"
  by (simp_all add: notification_row_defs)

lemma notification_sent_at_row [simp]:
  "n_sent_at (notification_claim tok til n) = n_sent_at n"
  "n_sent_at (notification_release n) = n_sent_at n"
  "n_sent_at (notification_retry at n) = n_sent_at n"
  "n_sent_at (notification_sent at n) = Some at"
  by (simp_all add: notification_row_defs)

section \<open>What a sweep does to a row\<close>

lemma deliver_one_ids: "map n_id (snd (deliver_one env now job_id rows)) = map n_id rows"
  by (auto simp: deliver_one_def Let_def map_update_where split: option.splits)

lemma deliver_one_unique:
  "unique_on n_id rows \<Longrightarrow> unique_on n_id (snd (deliver_one env now job_id rows))"
  by (simp add: unique_on_def deliver_one_ids)

lemma get_row_deliver_other:
  assumes "k \<noteq> job_id"
  shows "get_row n_id k (snd (deliver_one env now job_id rows)) = get_row n_id k rows"
proof -
  have claimed: "get_row n_id k (update_where (\<lambda>n. n_id n = job_id \<and> notification_eligible now n) (notification_claim tok til) rs)
      = get_row n_id k rs" for tok til rs
    by (rule get_row_update_other) (use assms in auto)
  have owned: "get_row n_id k (update_where (notification_owned job_id tok) f rs) = get_row n_id k rs"
    if "\<And>n. n_id (f n) = n_id n" for tok f rs
    by (rule get_row_update_other) (use assms that in \<open>auto simp: notification_owned_def\<close>)
  show ?thesis by (simp add: deliver_one_def Let_def claimed owned split: option.split)
qed

lemma deliver_one_skip:
  assumes "unique_on n_id rows" and "\<And>r. get_row n_id job_id rows = Some r \<Longrightarrow> \<not> notification_eligible now r"
  shows "deliver_one env now job_id rows = (if de_stop_before env job_id then Sweep_stop else Sweep_skip, rows)"
proof -
  have "rowcount (\<lambda>n. n_id n = job_id \<and> notification_eligible now n) rows = 0"
    using assms(2) get_row_unique [OF assms(1)]
      rowcount_pos [of "\<lambda>n. n_id n = job_id \<and> notification_eligible now n" rows] by auto
  then show ?thesis by (simp add: deliver_one_def Let_def update_where_none)
qed

lemma deliver_one_eligible:
  assumes "unique_on n_id rows" and "get_row n_id job_id rows = Some r"
    and "notification_eligible now r" and "\<not> de_stop_before env job_id"
  defines "c \<equiv> notification_claim (de_token env job_id)
      (de_clock env job_id + seconds (de_lease_seconds env)) r"
    and "refused \<equiv> n_recipient_email r = None \<or> n_recipient_email r = Some ''''
      \<or> \<not> de_send env (notification_claim (de_token env job_id)
          (de_clock env job_id + seconds (de_lease_seconds env)) r)"
  shows "fst (deliver_one env now job_id rows) =
      (if de_stop_claimed env job_id then Sweep_stop
       else if refused then Sweep_retry else Sweep_delivered)"
    and "get_row n_id job_id (snd (deliver_one env now job_id rows)) = Some
      (if de_stop_claimed env job_id then notification_release c
       else if refused
       then notification_retry (de_clock env job_id + notification_backoff (n_attempts r + 1)) c
       else notification_sent (de_clock env job_id) c)"
proof -
  have id: "n_id r = job_id" "r \<in> set rows" using get_row_SomeD [OF assms(2)] by auto
  have one: "rowcount (\<lambda>n. n_id n = job_id \<and> notification_eligible now n) rows = 1"
    using rowcount_one_iff [OF assms(1), of "\<lambda>n. n_id n = job_id \<and> notification_eligible now n" job_id]
      id assms(3) by blast
  have owned: "notification_owned job_id (de_token env job_id) c"
    by (simp add: notification_owned_def c_def id notification_claim_def)
  have same: "n_recipient_email c = n_recipient_email r" "n_attempts c = n_attempts r + 1"
    by (simp_all add: c_def notification_claim_def)
  define claimed where "claimed = update_where (\<lambda>n. n_id n = job_id \<and> notification_eligible now n)
      (notification_claim (de_token env job_id)
        (de_clock env job_id + seconds (de_lease_seconds env))) rows"
  have row: "get_row n_id job_id claimed = Some c"
    using assms(2,3) id by (simp add: claimed_def get_row_update_where c_def)
  have owned_row: "get_row n_id job_id (update_where (notification_owned job_id (de_token env job_id)) f
      claimed) = Some (f c)" if "\<And>n. n_id (f n) = n_id n" for f
    using row owned that by (simp add: get_row_update_where)
  show "fst (deliver_one env now job_id rows) =
      (if de_stop_claimed env job_id then Sweep_stop
       else if refused then Sweep_retry else Sweep_delivered)"
    using assms(4) one row same
    by (simp add: deliver_one_def Let_def refused_def c_def [symmetric] claimed_def [symmetric])
  show "get_row n_id job_id (snd (deliver_one env now job_id rows)) = Some
      (if de_stop_claimed env job_id then notification_release c
       else if refused
       then notification_retry (de_clock env job_id + notification_backoff (n_attempts r + 1)) c
       else notification_sent (de_clock env job_id) c)"
    using assms(4) one row same
    by (simp add: deliver_one_def Let_def refused_def c_def [symmetric] claimed_def [symmetric]
        owned_row)
qed

text \<open>How one iteration, and then a whole sweep, may change a row.\<close>

definition sweep_change ::
  "delivery_env \<Rightarrow> time \<Rightarrow> RegistrationNotificationModel \<Rightarrow> RegistrationNotificationModel \<Rightarrow> bool" where
  "sweep_change env now n n' \<longleftrightarrow> n' = n
     \<or> notification_eligible now n \<and> n_lease_token n' = None \<and> n_lease_until n' = None
       \<and> n_attempts n' = n_attempts n + 1
       \<and> (n_sent_at n' = None \<and> n_recipient_email n' = n_recipient_email n
            \<and> n_account_email n' = n_account_email n
         \<or> n_sent_at n' = Some (de_clock env (n_id n)) \<and> n_recipient_email n' = None
            \<and> n_account_email n' = None
            \<and> n_recipient_email n \<noteq> None \<and> n_recipient_email n \<noteq> Some '''')"

lemma deliver_one_change:
  assumes "unique_on n_id rows" and "get_row n_id k rows = Some n"
  shows "\<exists>n'. get_row n_id k (snd (deliver_one env now job_id rows)) = Some n' \<and> sweep_change env now n n'"
proof (cases "k = job_id")
  case False
  then show ?thesis using assms(2) by (simp add: get_row_deliver_other sweep_change_def)
next
  case True
  have id: "n_id n = k" using get_row_SomeD [OF assms(2)] by simp
  show ?thesis
  proof (cases "notification_eligible now n \<and> \<not> de_stop_before env job_id")
    case ok: True
    then have "n_sent_at n = None" by (simp add: notification_eligible_def)
    then show ?thesis
      using deliver_one_eligible(2) [OF assms(1), of job_id n now env] assms(2) ok True id
      by (auto simp: sweep_change_def notification_row_defs)
  next
    case False
    then have "snd (deliver_one env now job_id rows) = rows"
      using deliver_one_skip [OF assms(1), of job_id now env] assms(2) True
      by (auto simp: deliver_one_def)
    then show ?thesis using assms(2) by (simp add: sweep_change_def)
  qed
qed

lemma deliver_one_sent_count:
  assumes "unique_on n_id rows"
  shows "rowcount (\<lambda>n. n_sent_at n \<noteq> None) (snd (deliver_one env now job_id rows))
    = rowcount (\<lambda>n. n_sent_at n \<noteq> None) rows
      + (if fst (deliver_one env now job_id rows) = Sweep_delivered then 1 else 0)"
proof -
  let ?e = "\<lambda>n. n_id n = job_id \<and> notification_eligible now n"
  let ?tok = "de_token env job_id"
  let ?rows = "update_where ?e (notification_claim ?tok
      (de_clock env job_id + seconds (de_lease_seconds env))) rows"
  have claim: "rowcount (\<lambda>n. n_sent_at n \<noteq> None) ?rows = rowcount (\<lambda>n. n_sent_at n \<noteq> None) rows"
    by (rule rowcount_update_same) simp
  have sent: "rowcount (\<lambda>n. n_sent_at n \<noteq> None)
      (update_where (notification_owned job_id ?tok) (notification_sent (de_clock env job_id)) ?rows)
      = Suc (rowcount (\<lambda>n. n_sent_at n \<noteq> None) ?rows)"
    if one: "rowcount ?e rows = 1"
  proof -
    obtain r where r: "r \<in> set rows" "n_id r = job_id" "notification_eligible now r"
      using one rowcount_one_iff [OF assms, of ?e job_id] by auto
    let ?c = "notification_claim ?tok (de_clock env job_id + seconds (de_lease_seconds env)) r"
    show ?thesis
    proof (rule rowcount_update_one [where key = n_id and r = ?c])
      show "unique_on n_id ?rows" using assms by (simp add: unique_on_update_where)
      show "?c \<in> set ?rows" using r by (auto simp: set_update_where)
      show "notification_owned job_id ?tok ?c"
        using r by (simp add: notification_owned_def notification_claim_def)
      show "\<not> n_sent_at ?c \<noteq> None" using r by (simp add: notification_eligible_def)
      show "n_sent_at (notification_sent (de_clock env job_id) ?c) \<noteq> None" by simp
      show "n_id s = n_id ?c" if "notification_owned job_id ?tok s" for s
        using that r by (simp add: notification_owned_def)
    qed
  qed
  show ?thesis
    using claim sent
    by (auto simp: deliver_one_def Let_def rowcount_update_same split: option.splits)
qed

lemma deliver_loop_sent_count:
  "unique_on n_id rows \<Longrightarrow> rowcount (\<lambda>n. n_sent_at n \<noteq> None) (snd (deliver_loop env now ids rows))
    = rowcount (\<lambda>n. n_sent_at n \<noteq> None) rows + fst (deliver_loop env now ids rows)"
proof (induction ids arbitrary: rows)
  case Nil
  then show ?case by simp
next
  case (Cons k ids)
  obtain out rows' where one: "deliver_one env now k rows = (out, rows')" by fastforce
  have "unique_on n_id rows'" using deliver_one_unique [OF Cons.prems, of env now k] one by simp
  then show ?case
    using Cons.IH [of rows'] deliver_one_sent_count [OF Cons.prems, of env now k] one
    by (cases out) (auto split: prod.splits)
qed

lemma deliver_loop_other:
  "k \<notin> set ids \<Longrightarrow> get_row n_id k (snd (deliver_loop env now ids rows)) = get_row n_id k rows"
proof (induction ids arbitrary: rows)
  case Nil
  then show ?case by simp
next
  case (Cons j ids)
  obtain out rows' where one: "deliver_one env now j rows = (out, rows')" by fastforce
  have "get_row n_id k rows' = get_row n_id k rows"
    using get_row_deliver_other [of k j env now rows] Cons.prems one by simp
  then show ?case using Cons.IH [of rows'] Cons.prems one
    by (cases out) (auto split: prod.splits)
qed

lemma deliver_loop_change:
  assumes "unique_on n_id rows" and "distinct ids" and "get_row n_id k rows = Some n"
  shows "\<exists>n'. get_row n_id k (snd (deliver_loop env now ids rows)) = Some n' \<and> sweep_change env now n n'"
  using assms
proof (induction ids arbitrary: rows)
  case Nil
  then show ?case by (simp add: sweep_change_def)
next
  case (Cons j ids)
  obtain out rows' where one: "deliver_one env now j rows = (out, rows')" by fastforce
  have loop: "get_row n_id k (snd (deliver_loop env now (j # ids) rows))
      = get_row n_id k (if out = Sweep_stop then rows' else snd (deliver_loop env now ids rows'))"
    using one by (cases out) (auto split: prod.splits)
  show ?case
  proof (cases "k = j")
    case True
    then have "k \<notin> set ids" using Cons.prems(2) by simp
    then show ?thesis
      using deliver_one_change [OF Cons.prems(1,3), of env now j] one loop
      by (simp add: deliver_loop_other)
  next
    case False
    then have "get_row n_id k rows' = Some n"
      using get_row_deliver_other [of k j env now rows] Cons.prems(3) one by simp
    then show ?thesis
      using Cons.IH [of rows'] deliver_one_unique [OF Cons.prems(1), of env now j] Cons.prems(2) one loop
      by (cases "out = Sweep_stop") (auto simp: sweep_change_def)
  qed
qed

lemma sweep_ids_distinct:
  "unique_on n_id rows \<Longrightarrow>
    distinct (take m (map n_id (sort_key f (scalars (notification_eligible now) rows))))"
  by (intro distinct_take)
    (simp add: unique_on_def scalars_def distinct_map distinct_map_filter inj_on_def)

text \<open>
  A delivery sweep: the number it reports is the number of alerts that became sent; every alert
  is still there afterwards and either unchanged or, when it was eligible at the start of the sweep,
  released with its attempt counted, and it is marked sent only if it had a recipient and then with
  both addresses erased.
\<close>

theorem deliver_pending_sound:
  assumes "unique_on n_id (registration_notifications db)"
    and "deliver_pending env now db = (delivered, db')"
  shows "rowcount (\<lambda>n. n_sent_at n \<noteq> None) (registration_notifications db')
      = rowcount (\<lambda>n. n_sent_at n \<noteq> None) (registration_notifications db) + delivered
    \<and> (\<forall>n \<in> set (registration_notifications db). \<exists>n' \<in> set (registration_notifications db').
         n_id n' = n_id n \<and> sweep_change env now n n')"
proof -
  let ?rows = "registration_notifications db"
  let ?ids = "take 25 (map n_id (sort_key (\<lambda>n. (n_created_at n, n_id n))
    (scalars (notification_eligible now) ?rows)))"
  have eq: "delivered = fst (deliver_loop env now ?ids ?rows)"
    "registration_notifications db' = snd (deliver_loop env now ?ids ?rows)"
    using assms(2) by (auto simp: deliver_pending_def Let_def split: prod.splits)
  have "\<exists>n' \<in> set (registration_notifications db'). n_id n' = n_id n \<and> sweep_change env now n n'"
    if "n \<in> set ?rows" for n
  proof -
    have "get_row n_id (n_id n) ?rows = Some n" using that by (rule get_row_unique [OF assms(1)])
    then obtain n' where "get_row n_id (n_id n) (snd (deliver_loop env now ?ids ?rows)) = Some n'"
        and "sweep_change env now n n'"
      using deliver_loop_change [OF assms(1) sweep_ids_distinct [OF assms(1)]] by blast
    then show ?thesis unfolding eq using get_row_SomeD by fastforce
  qed
  then show ?thesis unfolding eq using deliver_loop_sent_count [OF assms(1)] by simp
qed

definition sample_notification :: RegistrationNotificationModel where
  "sample_notification = \<lparr>n_id = ''n1'', n_user_id = ''u1'', n_kind = ''registered_signup'',
     n_recipient_email = Some ''op@x'', n_account_email = Some ''a@x'',
     n_approval_status = ''pending'', n_created_at = 5, n_guest_expires_at = None,
     n_available_at = 5, n_lease_until = None, n_lease_token = None, n_attempts = 0,
     n_sent_at = None\<rparr>"

definition sample_delivery_env :: delivery_env where
  "sample_delivery_env = \<lparr>de_lease_seconds = 120, de_token = (\<lambda>i. ''tok''), de_clock = (\<lambda>i. 9),
     de_send = (\<lambda>n. True), de_stop_before = (\<lambda>i. False), de_stop_claimed = (\<lambda>i. False)\<rparr>"

definition empty_auth_db :: auth_db where
  "empty_auth_db = \<lparr>users = [], sessions = [], auth_tokens = [], guest_access_requests = [],
     guest_access_codes = [], registration_notifications = [], guest_deletion_audits = [],
     guest_trials = [], guest_policy_state = [], guest_rate_buckets = []\<rparr>"

theorem deliver_pending_sound_witness:
  "\<exists>db'. deliver_pending sample_delivery_env 7
       (empty_auth_db\<lparr>registration_notifications := [sample_notification]\<rparr>) = (1, db')
     \<and> rowcount (\<lambda>n. n_sent_at n \<noteq> None) (registration_notifications db') = 1"
proof -
  let ?db = "empty_auth_db\<lparr>registration_notifications := [sample_notification]\<rparr>"
  obtain d db' where run: "deliver_pending sample_delivery_env 7 ?db = (d, db')" by fastforce
  have "unique_on n_id (registration_notifications ?db)" by (simp add: unique_on_def)
  from deliver_pending_sound [OF this run]
  have "rowcount (\<lambda>n. n_sent_at n \<noteq> None) (registration_notifications db') = d"
    by (simp add: rowcount_def sample_notification_def)
  moreover have "d = 1"
    using run by (simp add: deliver_pending_def Let_def scalars_def notification_eligible_def
        sample_notification_def deliver_one_def sample_delivery_env_def rowcount_def get_row_def
        update_where_def notification_claim_def split: prod.splits)
  ultimately show ?thesis using run by simp
qed

end
