(* ===== verification/Guest_Access.thy ===== *)
theory Guest_Access
  imports Guest_Policy Registration_Notifications
begin

text \<open>
  Guest code issuance and redemption (\<open>auth/guest_access.py\<close>). \<open>guest_env\<close> holds the
  service's settings and parameters: the HMAC with its key, the digest of codes and tokens, the
  limits, and the alert recipient. Identifiers and secrets that the code draws from \<open>uuid\<close> and
  \<open>secrets\<close> are arguments. A method's body runs in one transaction after the commits of
  \<open>prepare\<close> and \<open>ip_budget\<close>: a raise in the body leaves what those committed.
\<close>

record guest_env =
  ge_hmac :: hmac
  ge_key :: string
  ge_digest :: "string \<Rightarrow> string"
  ge_request_ip_hourly_limit :: nat
  ge_login_ip_window_limit :: nat
  ge_code_resend_cooldown_seconds :: int
  ge_code_email_daily_limit :: nat
  ge_notification_email :: "string option"

record GuestAccessCodeResult =
  gcr_code :: string
  gcr_expires_at :: time
  gcr_request_id :: "ident option"
  gcr_email :: "string option"

section \<open>Operations\<close>

definition prepare :: "guest_env \<Rightarrow> time \<Rightarrow> 'a auth_db_scheme \<Rightarrow> (auth_error, unit) res \<times> 'a auth_db_scheme" where
  "prepare env now db =
     (case initialize_guest_policy (ge_hmac env) (ge_key env) now db of
        (Inl e, _) \<Rightarrow> (Inl e, db)
      | (Inr _, db') \<Rightarrow> (Inr (), db'))"

definition owns_trial :: "guest_env \<Rightarrow> time \<Rightarrow> ident \<Rightarrow> 'a auth_db_scheme \<Rightarrow> (auth_error, bool) res" where
  "owns_trial env now user_id db =
     (let emails = map gr_email (filter (\<lambda>r. \<exists>c \<in> set (guest_access_codes db).
                      gc_request_id c = Some (gr_id r) \<and> gc_guest_user_id c = Some user_id)
                    (guest_access_requests db))
      in case dict_fromkeys (map norm_email emails) of
           [email] \<Rightarrow>
             (case guest_fingerprint (ge_hmac env) email (ge_key env) of
                Inl e \<Rightarrow> Inl e
              | Inr fp \<Rightarrow>
                  (case get_row gt_email_fingerprint fp (guest_trials db) of
                     None \<Rightarrow> Inr False
                   | Some trial \<Rightarrow>
                       if gt_guest_user_id trial \<noteq> Some user_id \<or> gt_redeemed_at trial = None then Inr False
                       else case eligible_user now trial email db of
                              Inl GuestRequestSuppressed \<Rightarrow> Inr False
                            | Inl e \<Rightarrow> Inl e
                            | Inr _ \<Rightarrow> Inr True))
         | _ \<Rightarrow> Inr False)"

definition ip_budget ::
  "guest_env \<Rightarrow> time \<Rightarrow> string option \<Rightarrow> bool \<Rightarrow> 'a auth_db_scheme
    \<Rightarrow> (auth_error, unit) res \<times> 'a auth_db_scheme" where
  "ip_budget env now client login db =
     (case client of
        None \<Rightarrow> (Inr (), db)
      | Some c \<Rightarrow>
          (case take_budget (ge_hmac env) (ge_key env) now
                  (if login then ''login-ip'' else ''request-ip'') c
                  (if login then ge_login_ip_window_limit env else ge_request_ip_hourly_limit env)
                  (if login then 900 else 3600) db of
             (Inl e, _) \<Rightarrow> (Inl e, db)
           | (Inr allowed, db') \<Rightarrow> (if allowed then (Inr (), db') else (Inl GuestIpRateLimited, db'))))"

definition request_row ::
  "ident \<Rightarrow> time \<Rightarrow> string \<Rightarrow> ident option \<Rightarrow> 'a auth_db_scheme
    \<Rightarrow> (auth_error, GuestAccessRequestModel \<times> 'a auth_db_scheme) res" where
  "request_row new_id now email request_id db =
     (let fresh = \<lparr>gr_id = new_id, gr_email = email, gr_status = ''pending'', gr_created_at = now,
                   gr_approved_at = None, gr_sent_at = None, gr_rejected_at = None\<rparr>;
          latest = (case rev (sort_key (\<lambda>r. (gr_created_at r, gr_id r))
                      (scalars (\<lambda>r. gr_email r = email \<and> gr_status r \<in> {''pending'', ''issued''}
                         \<and> gr_rejected_at r = None) (guest_access_requests db))) of
                      [] \<Rightarrow> None | r # _ \<Rightarrow> Some r);
          create = Inr (fresh, db\<lparr>guest_access_requests := insert_row fresh (guest_access_requests db)\<rparr>)
      in case request_id of
           Some rid \<Rightarrow>
             if rid \<noteq> ''''
             then (case get_row gr_id rid (guest_access_requests db) of
                     None \<Rightarrow> Inl InvalidAuthTokenError
                   | Some r \<Rightarrow> if norm_email (gr_email r) \<noteq> email \<or> gr_rejected_at r \<noteq> None
                               then Inl InvalidAuthTokenError else Inr (r, db))
             else (case latest of Some r \<Rightarrow> Inr (r, db) | None \<Rightarrow> create)
         | None \<Rightarrow> (case latest of Some r \<Rightarrow> Inr (r, db) | None \<Rightarrow> create))"


definition in_transaction :: "('e, 'v \<times> 's) res \<Rightarrow> 's \<Rightarrow> ('e, 'v) res \<times> 's" where
  "in_transaction r s = (case r of Inl e \<Rightarrow> (Inl e, s) | Inr (v, s') \<Rightarrow> (Inr v, s'))"


record issue_fresh =
  if_request_id :: ident
  if_code_id :: ident
  if_raw_code :: string

definition issue_body ::
  "guest_env \<Rightarrow> issue_fresh \<Rightarrow> time \<Rightarrow> string \<Rightarrow> time \<Rightarrow> bool \<Rightarrow> bool \<Rightarrow> ident option \<Rightarrow> 'a auth_db_scheme
    \<Rightarrow> (auth_error, GuestAccessCodeResult \<times> 'a auth_db_scheme) res" where
  "issue_body env fresh now email ttl send send_ok request_id db =
     (case guest_fingerprint (ge_hmac env) email (ge_key env) of
        Inl e \<Rightarrow> Inl e
      | Inr fp \<Rightarrow>
        (let (trial, db1) = lock_trial now fp db
         in case eligible_user now trial email db1 of
              Inl e \<Rightarrow> Inl e
            | Inr active_user \<Rightarrow>
              (if (case gt_last_sent_at trial of None \<Rightarrow> False
                   | Some t \<Rightarrow> now < t + seconds (ge_code_resend_cooldown_seconds env))
               then Inl GuestRequestSuppressed
               else case take_budget (ge_hmac env) (ge_key env) now ''email-day'' email
                           (ge_code_email_daily_limit env) 86400 db1 of
                      (Inl e, _) \<Rightarrow> Inl e
                    | (Inr False, _) \<Rightarrow> Inl GuestRequestSuppressed
                    | (Inr True, db2) \<Rightarrow>
                      (case request_row (if_request_id fresh) now email request_id db2 of
                         Inl e \<Rightarrow> Inl e
                       | Inr (request, db3) \<Rightarrow>
                         (let expires = (case active_user of
                                Some u \<Rightarrow> (case u_guest_expires_at u of
                                             Some g \<Rightarrow> min (now + ttl) g | None \<Rightarrow> now + ttl)
                              | None \<Rightarrow> now + ttl);
                              code = \<lparr>gc_id = if_code_id fresh, gc_request_id = Some (gr_id request),
                                gc_code_hash = ge_digest env (if_raw_code fresh),
                                gc_expires_at = expires, gc_consumed_at = None,
                                gc_email_fingerprint = Some fp, gc_generation = gt_generation trial,
                                gc_guest_user_id = None, gc_created_at = now\<rparr>;
                              db4 = db3\<lparr>guest_access_codes := insert_row code (update_where
                                  (\<lambda>c. gc_email_fingerprint c = Some fp \<and> gc_consumed_at c = None)
                                  (\<lambda>c. c\<lparr>gc_expires_at := now\<rparr>) (guest_access_codes db3)),
                                guest_access_requests := update_where (\<lambda>r. gr_id r = gr_id request)
                                  (\<lambda>r. r\<lparr>gr_status := ''issued'',
                                         gr_approved_at := (case gr_approved_at r of
                                            None \<Rightarrow> Some now | Some t \<Rightarrow> Some t),
                                         gr_sent_at := Some now\<rparr>) (guest_access_requests db3),
                                guest_trials := update_where (\<lambda>t. gt_email_fingerprint t = fp)
                                  (\<lambda>t. t\<lparr>gt_last_sent_at := Some now\<rparr>) (guest_trials db3)\<rparr>
                          in if send \<and> \<not> send_ok then Inl EmailSendError
                             else Inr (\<lparr>gcr_code = if_raw_code fresh, gcr_expires_at = expires,
                                        gcr_request_id = Some (gr_id request), gcr_email = Some email\<rparr>,
                                       db4))))))"

definition issue ::
  "guest_env \<Rightarrow> issue_fresh \<Rightarrow> time \<Rightarrow> string option \<Rightarrow> time \<Rightarrow> bool \<Rightarrow> bool \<Rightarrow> ident option
    \<Rightarrow> string option \<Rightarrow> 'a auth_db_scheme \<Rightarrow> (auth_error, GuestAccessCodeResult) res \<times> 'a auth_db_scheme" where
  "issue env fresh now email ttl send send_ok request_id client db =
     (if email = None \<or> py_strip (the email) = '''' then (Inl GuestRequestSuppressed, db)
      else case prepare env now db of
             (Inl e, db0) \<Rightarrow> (Inl e, db0)
           | (Inr _, db0) \<Rightarrow>
               (case ip_budget env now client False db0 of
                  (Inl e, db1) \<Rightarrow> (Inl e, db1)
                | (Inr _, db1) \<Rightarrow> in_transaction
                    (issue_body env fresh now (norm_email (the email)) ttl send send_ok request_id db1) db1))"

record redeem_fresh =
  rf_user_id :: ident
  rf_guest_hex :: string
  rf_session_id :: ident
  rf_session_token :: string
  rf_csrf_token :: string
  rf_notification_id :: ident

definition new_guest :: "redeem_fresh \<Rightarrow> time \<Rightarrow> time \<Rightarrow> UserModel" where
  "new_guest fresh now access_ttl =
     \<lparr>u_id = rf_user_id fresh, u_email = ''guest-'' @ rf_guest_hex fresh @ ''@guest.example.com'',
      u_nickname = ''Guest'', u_password_hash = ''guest-login-disabled'', u_email_verified_at = None,
      u_approval_status = ''approved'', u_approved_at = None, u_rejected_at = None,
      u_account_type = ''guest'', u_assistant_model_preference = None,
      u_document_retrieval_priority = ''automatic'', u_document_ingestion_mode = ''standard'',
      u_summarization_model_preference = None, u_user_type = ''normal'',
      u_guest_expires_at = Some (now + access_ttl), u_created_at = now\<rparr>"

text \<open>The account a redemption uses: the trial's own, or a new one that is bound to the trial.\<close>

definition redeem_account ::
  "guest_env \<Rightarrow> redeem_fresh \<Rightarrow> time \<Rightarrow> time \<Rightarrow> string \<Rightarrow> string \<Rightarrow> UserModel option \<Rightarrow> 'a auth_db_scheme
    \<Rightarrow> UserModel \<times> 'a auth_db_scheme" where
  "redeem_account env fresh now access_ttl fp email existing db =
     (case existing of
        Some u \<Rightarrow> (u, db)
      | None \<Rightarrow>
          let u = new_guest fresh now access_ttl
          in (u, enqueue_registration (rf_notification_id fresh) now u (ge_notification_email env)
                   (Some email) guest_redemption
                   (db\<lparr>users := insert_row u (users db),
                       guest_trials := update_where (\<lambda>t. gt_email_fingerprint t = fp)
                         (\<lambda>t. t\<lparr>gt_guest_user_id := Some (u_id u), gt_redeemed_at := Some now\<rparr>)
                         (guest_trials db)\<rparr>)))"

definition redeem_body ::
  "guest_env \<Rightarrow> redeem_fresh \<Rightarrow> time \<Rightarrow> string \<Rightarrow> time \<Rightarrow> 'a auth_db_scheme
    \<Rightarrow> (auth_error, AuthenticatedSession \<times> 'a auth_db_scheme) res" where
  "redeem_body env fresh now code access_ttl db =
     (case scalar (\<lambda>c. gc_code_hash c = ge_digest env code) (guest_access_codes db) of
        None \<Rightarrow> Inl InvalidAuthTokenError
      | Some stored \<Rightarrow>
        (case (gc_email_fingerprint stored, gc_request_id stored) of
           (Some sfp, Some rid) \<Rightarrow>
           (let (trial, db1) = lock_trial now sfp db;
                fp = gt_email_fingerprint trial
            in if gc_consumed_at stored \<noteq> None \<or> gc_expires_at stored \<le> now
                  \<or> gc_generation stored \<noteq> gt_generation trial
               then Inl InvalidAuthTokenError
               else case get_row gr_id rid (guest_access_requests db1) of
                      None \<Rightarrow> Inl InvalidAuthTokenError
                    | Some request \<Rightarrow>
                      (case guest_fingerprint (ge_hmac env) (gr_email request) (ge_key env) of
                         Inl e \<Rightarrow> Inl e
                       | Inr rfp \<Rightarrow>
                         if gr_rejected_at request \<noteq> None \<or> rfp \<noteq> fp
                         then Inl InvalidAuthTokenError
                         else (case eligible_user now trial (norm_email (gr_email request)) db1 of
                             Inl e \<Rightarrow> Inl e
                           | Inr existing \<Rightarrow>
                             (let open_code = (\<lambda>c. gc_id c = gc_id stored \<and> gc_consumed_at c = None
                                    \<and> now < gc_expires_at c \<and> gc_generation c = gt_generation trial);
                                  db2 = db1\<lparr>guest_access_codes := update_where open_code
                                    (\<lambda>c. c\<lparr>gc_consumed_at := Some now\<rparr>) (guest_access_codes db1)\<rparr>
                              in if rowcount open_code (guest_access_codes db1) \<noteq> 1
                                 then Inl InvalidAuthTokenError
                                 else
                                   (let (user, db3) = redeem_account env fresh now access_ttl fp
                                          (norm_email (gr_email request)) existing db2;
                                        session = \<lparr>s_id = rf_session_id fresh, s_user_id = u_id user,
                                          s_token_hash = ge_digest env (rf_session_token fresh),
                                          s_csrf_token_hash = ge_digest env (rf_csrf_token fresh),
                                          s_created_at = now, s_expires_at = u_guest_expires_at user,
                                          s_revoked_at = None\<rparr>;
                                        db4 = db3\<lparr>sessions := insert_row session (sessions db3),
                                          guest_access_codes := update_where
                                            (\<lambda>c. gc_id c = gc_id stored)
                                            (\<lambda>c. c\<lparr>gc_guest_user_id := Some (u_id user)\<rparr>)
                                            (guest_access_codes db3),
                                          guest_access_requests := update_where
                                            (\<lambda>r. gr_id r = gr_id request)
                                            (\<lambda>r. r\<lparr>gr_status := ''consumed''\<rparr>)
                                            (guest_access_requests db3)\<rparr>
                                    in Inr (\<lparr>as_user = user, as_session = session,
                                             as_session_token = rf_session_token fresh,
                                             as_csrf_token = rf_csrf_token fresh\<rparr>, db4))))))
         | _ \<Rightarrow> Inl InvalidAuthTokenError))"

definition redeem ::
  "guest_env \<Rightarrow> redeem_fresh \<Rightarrow> time \<Rightarrow> string \<Rightarrow> time \<Rightarrow> string option \<Rightarrow> 'a auth_db_scheme
    \<Rightarrow> (auth_error, AuthenticatedSession) res \<times> 'a auth_db_scheme" where
  "redeem env fresh now code access_ttl client db =
     (case prepare env now db of
        (Inl e, db0) \<Rightarrow> (Inl e, db0)
      | (Inr _, db0) \<Rightarrow>
          (case ip_budget env now client True db0 of
             (Inl e, db1) \<Rightarrow> (Inl e, db1)
           | (Inr _, db1) \<Rightarrow>
               (case redeem_body env fresh now code access_ttl db1 of
                  Inl GuestRequestSuppressed \<Rightarrow> (Inl InvalidAuthTokenError, db1)
                | Inl e \<Rightarrow> (Inl e, db1)
                | Inr (auth, db2) \<Rightarrow> (Inr auth, db2))))"

section \<open>What each step leaves alone\<close>

lemma table_self [simp]:
  "\<exists>bs. db = db\<lparr>guest_rate_buckets := bs\<rparr>"
  "\<exists>ts. db = db\<lparr>guest_trials := ts\<rparr>"
  "\<exists>rs. db = db\<lparr>guest_access_requests := rs\<rparr>"
proof -
  show "\<exists>bs. db = db\<lparr>guest_rate_buckets := bs\<rparr>" by (rule exI [of _ "guest_rate_buckets db"]) simp
  show "\<exists>ts. db = db\<lparr>guest_trials := ts\<rparr>" by (rule exI [of _ "guest_trials db"]) simp
  show "\<exists>rs. db = db\<lparr>guest_access_requests := rs\<rparr>" by (rule exI [of _ "guest_access_requests db"]) simp
qed

lemma take_budget_frame:
  "\<exists>bs. snd (take_budget hmac key now action subject limit w db) = db\<lparr>guest_rate_buckets := bs\<rparr>"
  unfolding take_budget_def Let_def by (simp split: sum.split option.split) blast

lemma ip_budget_frame: "\<exists>bs. snd (ip_budget env now client login db) = db\<lparr>guest_rate_buckets := bs\<rparr>"
proof (cases client)
  case None
  then show ?thesis by (simp add: ip_budget_def)
next
  case (Some c)
  obtain r bs where "take_budget (ge_hmac env) (ge_key env) now
      (if login then ''login-ip'' else ''request-ip'') c
      (if login then ge_login_ip_window_limit env else ge_request_ip_hourly_limit env)
      (if login then 900 else 3600) db = (r, db\<lparr>guest_rate_buckets := bs\<rparr>)"
    using take_budget_frame by (metis surjective_pairing)
  then show ?thesis using Some by (simp add: ip_budget_def split: sum.split) blast
qed

lemma lock_trial_row:
  assumes "lock_trial now fp db = (trial, db1)"
  shows "gt_email_fingerprint trial = fp"
    and "get_row gt_email_fingerprint fp (guest_trials db1) = Some trial"
    and "\<And>f. f \<noteq> fp \<Longrightarrow> get_row gt_email_fingerprint f (guest_trials db1)
      = get_row gt_email_fingerprint f (guest_trials db)"
    and "\<And>t. get_row gt_email_fingerprint fp (guest_trials db) = Some t \<Longrightarrow> trial = t"
    and "\<exists>ts. db1 = db\<lparr>guest_trials := ts\<rparr>"
  using assms
  by (auto simp: lock_trial_def Let_def get_row_insert split: option.splits dest: get_row_SomeD)

definition policy_ready :: "'a auth_db_scheme \<Rightarrow> bool" where
  "policy_ready db \<longleftrightarrow> get_row gp_id 1 (guest_policy_state db) \<noteq> None"

lemma prepare_ready: "policy_ready db \<Longrightarrow> snd (prepare env now db) = db"
  by (auto simp: prepare_def policy_ready_def initialize_guest_policy_def split: sum.splits option.splits)


lemma redeem_body_ok:
  assumes "redeem_body env fresh now code ttl db = Inr (auth, db')"
  obtains stored fp rid trial db1 request existing user db3 where
    "scalar (\<lambda>c. gc_code_hash c = ge_digest env code) (guest_access_codes db) = Some stored"
    "gc_email_fingerprint stored = Some fp" "gc_request_id stored = Some rid"
    "lock_trial now fp db = (trial, db1)"
    "gc_consumed_at stored = None" "now < gc_expires_at stored" "gc_generation stored = gt_generation trial"
    "get_row gr_id rid (guest_access_requests db1) = Some request"
    "eligible_user now trial (norm_email (gr_email request)) db1 = Inr existing"
    "redeem_account env fresh now ttl fp (norm_email (gr_email request)) existing
       (db1\<lparr>guest_access_codes := update_where (\<lambda>c. gc_id c = gc_id stored \<and> gc_consumed_at c = None
          \<and> now < gc_expires_at c \<and> gc_generation c = gt_generation trial)
          (\<lambda>c. c\<lparr>gc_consumed_at := Some now\<rparr>) (guest_access_codes db1)\<rparr>) = (user, db3)"
    "as_user auth = user" "s_user_id (as_session auth) = u_id user"
    "s_expires_at (as_session auth) = u_guest_expires_at user"
    "db' = db3\<lparr>sessions := insert_row (as_session auth) (sessions db3),
       guest_access_codes := update_where (\<lambda>c. gc_id c = gc_id stored)
         (\<lambda>c. c\<lparr>gc_guest_user_id := Some (u_id user)\<rparr>) (guest_access_codes db3),
       guest_access_requests := update_where (\<lambda>r. gr_id r = gr_id request)
         (\<lambda>r. r\<lparr>gr_status := ''consumed''\<rparr>) (guest_access_requests db3)\<rparr>"
proof -
  obtain stored where 1: "scalar (\<lambda>c. gc_code_hash c = ge_digest env code) (guest_access_codes db) = Some stored"
    using assms by (auto simp: redeem_body_def split: option.splits)
  obtain fp rid where 2: "gc_email_fingerprint stored = Some fp" "gc_request_id stored = Some rid"
    using assms 1 by (auto simp: redeem_body_def split: option.splits)
  obtain trial db1 where 3: "lock_trial now fp db = (trial, db1)" by fastforce
  note fp = lock_trial_row(1) [OF 3]
  have 4: "gc_consumed_at stored = None" "now < gc_expires_at stored" "gc_generation stored = gt_generation trial"
    using assms 1 2 3 by (auto simp: redeem_body_def Let_def split: if_splits)
  obtain request where 5: "get_row gr_id rid (guest_access_requests db1) = Some request"
    using assms 1 2 3 4 by (auto simp: redeem_body_def Let_def split: option.splits if_splits)
  obtain existing where 6: "eligible_user now trial (norm_email (gr_email request)) db1 = Inr existing"
    using assms 1 2 3 4 5 fp
    by (auto simp: redeem_body_def Let_def split: sum.splits if_splits)
  obtain user db3 where 7: "redeem_account env fresh now ttl fp (norm_email (gr_email request)) existing
       (db1\<lparr>guest_access_codes := update_where (\<lambda>c. gc_id c = gc_id stored \<and> gc_consumed_at c = None
          \<and> now < gc_expires_at c \<and> gc_generation c = gt_generation trial)
          (\<lambda>c. c\<lparr>gc_consumed_at := Some now\<rparr>) (guest_access_codes db1)\<rparr>) = (user, db3)"
    by fastforce
  show thesis
    using assms 1 2 3 4 5 6 7 fp
    by (intro that [OF 1 2 3 4 5 6 7])
      (auto simp: redeem_body_def Let_def split: sum.splits if_splits)
qed

section \<open>One trial per email\<close>






lemma issue_body_ok:
  assumes "issue_body env fresh now email ttl send ok rid db = Inr (res, db')"
  obtains f trial db1 active db2 request db3 where
    "guest_fingerprint (ge_hmac env) email (ge_key env) = Inr f"
    "lock_trial now f db = (trial, db1)"
    "eligible_user now trial email db1 = Inr active"
    "take_budget (ge_hmac env) (ge_key env) now ''email-day'' email (ge_code_email_daily_limit env) 86400 db1
       = (Inr True, db2)"
    "request_row (if_request_id fresh) now email rid db2 = Inr (request, db3)"
    "guest_trials db' = update_where (\<lambda>t. gt_email_fingerprint t = f)
       (\<lambda>t. t\<lparr>gt_last_sent_at := Some now\<rparr>) (guest_trials db3)"
    "guest_policy_state db' = guest_policy_state db3"
    "\<exists>code. guest_access_codes db' = insert_row code (update_where
         (\<lambda>c. gc_email_fingerprint c = Some f \<and> gc_consumed_at c = None)
         (\<lambda>c. c\<lparr>gc_expires_at := now\<rparr>) (guest_access_codes db3))
       \<and> gc_id code = if_code_id fresh \<and> gc_email_fingerprint code = Some f
       \<and> gc_expires_at code = gcr_expires_at res
       \<and> gc_code_hash code = ge_digest env (if_raw_code fresh)"
    "\<And>u til. active = Some u \<Longrightarrow> u_guest_expires_at u = Some til \<Longrightarrow> gcr_expires_at res \<le> til"
    "gcr_expires_at res \<le> now + ttl"
proof -
  obtain f where 1: "guest_fingerprint (ge_hmac env) email (ge_key env) = Inr f"
    using assms by (auto simp: issue_body_def split: sum.splits)
  obtain trial db1 where 2: "lock_trial now f db = (trial, db1)" by fastforce
  obtain active where 3: "eligible_user now trial email db1 = Inr active"
    using assms 1 2 by (auto simp: issue_body_def split: sum.splits)
  obtain r2 db2 where tb: "take_budget (ge_hmac env) (ge_key env) now ''email-day'' email
      (ge_code_email_daily_limit env) 86400 db1 = (r2, db2)" by fastforce
  then have 4: "take_budget (ge_hmac env) (ge_key env) now ''email-day'' email
      (ge_code_email_daily_limit env) 86400 db1 = (Inr True, db2)"
    using assms 1 2 3 by (auto simp: issue_body_def split: sum.splits bool.splits if_splits)
  obtain request db3 where 5: "request_row (if_request_id fresh) now email rid db2 = Inr (request, db3)"
    using assms 1 2 3 4 by (auto simp: issue_body_def split: sum.splits if_splits)
  show thesis
    by (rule that [OF 1 2 3 4 5])
      (use assms 1 2 3 4 5 in \<open>auto simp: issue_body_def Let_def split: if_splits option.splits\<close>)
qed













lemma redeem_ok:
  assumes "redeem env fresh now code ttl client db = (Inr auth, db')"
  obtains db0 db1 where "prepare env now db = (Inr (), db0)"
    "ip_budget env now client True db0 = (Inr (), db1)"
    "redeem_body env fresh now code ttl db1 = Inr (auth, db')"
  using assms by (auto simp: redeem_def split: prod.splits sum.splits auth_error.splits)


lemma backfill_email_policy:
  "guest_policy_state (fst (backfill_email now fp e st)) = guest_policy_state (fst st)"
  by (cases st) (simp add: backfill_email_def Let_def retire_guests_def)

lemma backfill_policy: "guest_policy_state (backfill hmac key now db) = guest_policy_state db"
proof -
  let ?f = "\<lambda>e. backfill_email now (hmac key (norm_email e)) e"
  have "guest_policy_state (fst (fold ?f es st)) = guest_policy_state (fst st)"
    for es and st :: "'a auth_db_scheme \<times> (string \<times> time) list"
    by (induction es arbitrary: st) (simp_all add: backfill_email_policy)
  note frame = this
  obtain d a where st: "fold ?f (dict_fromkeys (map (norm_email \<circ> gr_email) (guest_access_requests db)))
      (db, backfill_audits (guest_deletion_audits db) []) = (d, a)" by fastforce
  then have "guest_policy_state d = guest_policy_state db"
    using frame [of "dict_fromkeys (map (norm_email \<circ> gr_email) (guest_access_requests db))"
        "(db, backfill_audits (guest_deletion_audits db) [])"] by simp
  then show ?thesis using st by (simp add: backfill_def Let_def)
qed

lemma prepare_makes_ready: "prepare env now db = (Inr (), db0) \<Longrightarrow> policy_ready db0"
  by (auto simp: prepare_def initialize_guest_policy_def policy_ready_def backfill_policy get_row_insert
      split: sum.splits option.splits)

lemma redeem_consumes:
  assumes "redeem_body env fresh now code ttl db = Inr (auth, db')"
  shows "\<exists>c. scalar (\<lambda>c. gc_code_hash c = ge_digest env code) (guest_access_codes db') = Some c
      \<and> gc_consumed_at c \<noteq> None"
    and "guest_policy_state db' = guest_policy_state db"
proof -
  obtain stored f rid trial db1 request existing user db3 where
    stored: "scalar (\<lambda>c. gc_code_hash c = ge_digest env code) (guest_access_codes db) = Some stored"
      "gc_email_fingerprint stored = Some f" "gc_request_id stored = Some rid"
    and lock: "lock_trial now f db = (trial, db1)"
    and fresh: "gc_consumed_at stored = None" "now < gc_expires_at stored"
      "gc_generation stored = gt_generation trial"
    and "get_row gr_id rid (guest_access_requests db1) = Some request"
      "eligible_user now trial (norm_email (gr_email request)) db1 = Inr existing"
    and acc: "redeem_account env fresh now ttl f (norm_email (gr_email request)) existing
       (db1\<lparr>guest_access_codes := update_where (\<lambda>c. gc_id c = gc_id stored \<and> gc_consumed_at c = None
          \<and> now < gc_expires_at c \<and> gc_generation c = gt_generation trial)
          (\<lambda>c. c\<lparr>gc_consumed_at := Some now\<rparr>) (guest_access_codes db1)\<rparr>) = (user, db3)"
      (is "redeem_account _ _ _ _ _ _ _ ?db2 = _")
    and "as_user auth = user" "s_user_id (as_session auth) = u_id user"
      "s_expires_at (as_session auth) = u_guest_expires_at user"
    and db': "db' = db3\<lparr>sessions := insert_row (as_session auth) (sessions db3),
       guest_access_codes := update_where (\<lambda>c. gc_id c = gc_id stored)
         (\<lambda>c. c\<lparr>gc_guest_user_id := Some (u_id user)\<rparr>) (guest_access_codes db3),
       guest_access_requests := update_where (\<lambda>r. gr_id r = gr_id request)
         (\<lambda>r. r\<lparr>gr_status := ''consumed''\<rparr>) (guest_access_requests db3)\<rparr>"
    by (rule redeem_body_ok [OF assms])
  obtain ts where db1: "db1 = db\<lparr>guest_trials := ts\<rparr>" using lock_trial_row(5) [OF lock] by blast
  have keep: "guest_access_codes db3 = guest_access_codes ?db2" "guest_policy_state db3 = guest_policy_state ?db2"
    using acc by (auto simp: redeem_account_def Let_def enqueue_registration_def split: option.splits if_splits)
  then show "guest_policy_state db' = guest_policy_state db" using db' db1 by simp
  show "\<exists>c. scalar (\<lambda>c. gc_code_hash c = ge_digest env code) (guest_access_codes db') = Some c
      \<and> gc_consumed_at c \<noteq> None"
    using db' keep db1 stored(1) fresh by (simp add: scalar_update_where)
qed

text \<open>
  C19. A guest code is single-use: after a successful redemption a second redemption of the same code
  fails, at any later time and from any origin.
\<close>

theorem redeem_single_use:
  assumes "redeem env fresh now code ttl client db = (Inr auth, db')"
  shows "\<exists>e. fst (redeem env fresh' now' code ttl' client' db') = Inl e"
proof -
  obtain db0 db1 where prep: "prepare env now db = (Inr (), db0)"
    and ip: "ip_budget env now client True db0 = (Inr (), db1)"
    and body: "redeem_body env fresh now code ttl db1 = Inr (auth, db')"
    using redeem_ok [OF assms] by blast
  obtain bs where "db1 = db0\<lparr>guest_rate_buckets := bs\<rparr>"
    using ip_budget_frame [of env now client True db0] ip by auto
  then have ready: "policy_ready db'"
    using prepare_makes_ready [OF prep] redeem_consumes(2) [OF body] by (simp add: policy_ready_def)
  obtain r2 db2 where ip': "ip_budget env now' client' True db' = (r2, db2)" by fastforce
  then obtain bs' where "db2 = db'\<lparr>guest_rate_buckets := bs'\<rparr>"
    using ip_budget_frame [of env now' client' True db'] by auto
  then have "\<exists>c. scalar (\<lambda>c. gc_code_hash c = ge_digest env code) (guest_access_codes db2) = Some c
      \<and> gc_consumed_at c \<noteq> None"
    using redeem_consumes(1) [OF body] by simp
  then have "redeem_body env fresh' now' code ttl' db2 = Inl InvalidAuthTokenError"
    by (auto simp: redeem_body_def Let_def split: option.splits prod.splits)
  then show ?thesis
    using prepare_ready [OF ready, of env now'] ip'
    by (auto simp: redeem_def split: prod.splits sum.splits)
qed

text \<open>
  Issuing a code invalidates the earlier ones: afterwards the new code is the only unconsumed code
  of that email that has not expired, and it lives no longer than the requested time.
\<close>

theorem issue_leaves_one_code:
  assumes "issue env fresh now (Some email) ttl send ok rid client db = (Inr res, db')"
    and "c \<in> set (guest_access_codes db')"
    and "gc_email_fingerprint c = Some (ge_hmac env (ge_key env) (norm_email email))"
    and "gc_consumed_at c = None" and "now < gc_expires_at c"
  shows "gc_id c = if_code_id fresh \<and> gc_code_hash c = ge_digest env (if_raw_code fresh)
    \<and> gc_expires_at c = gcr_expires_at res \<and> gc_expires_at c \<le> now + ttl"
proof -
  obtain db1 where body: "issue_body env fresh now (norm_email email) ttl send ok rid db1 = Inr (res, db')"
    using assms(1) by (auto simp: issue_def in_transaction_def split: prod.splits sum.splits if_splits)
  show ?thesis
  proof (rule issue_body_ok [OF body])
    fix f db3
    assume f: "guest_fingerprint (ge_hmac env) (norm_email email) (ge_key env) = Inr f"
      and le: "gcr_expires_at res \<le> now + ttl"
      and "\<exists>code. guest_access_codes db' = insert_row code (update_where
         (\<lambda>c. gc_email_fingerprint c = Some f \<and> gc_consumed_at c = None)
         (\<lambda>c. c\<lparr>gc_expires_at := now\<rparr>) (guest_access_codes (db3 :: 'a auth_db_scheme)))
       \<and> gc_id code = if_code_id fresh \<and> gc_email_fingerprint code = Some f
       \<and> gc_expires_at code = gcr_expires_at res
       \<and> gc_code_hash code = ge_digest env (if_raw_code fresh)"
    then obtain code where codes: "guest_access_codes db' = insert_row code (update_where
         (\<lambda>c. gc_email_fingerprint c = Some f \<and> gc_consumed_at c = None)
         (\<lambda>c. c\<lparr>gc_expires_at := now\<rparr>) (guest_access_codes db3))"
       and code: "gc_id code = if_code_id fresh" "gc_expires_at code = gcr_expires_at res"
         "gc_code_hash code = ge_digest env (if_raw_code fresh)" by blast
    have "f = ge_hmac env (ge_key env) (norm_email email)"
      using f by (simp add: guest_fingerprint_def norm_email_def split: if_splits)
    then have "c = code" using assms(2-5) codes by (auto simp: set_update_where split: if_splits)
    then show ?thesis using code le by simp
  qed
qed

section \<open>Sample runs\<close>

definition sample_env :: guest_env where
  "sample_env = \<lparr>ge_hmac = (\<lambda>k m. m), ge_key = replicate 32 CHR ''k'', ge_digest = (\<lambda>s. s),
     ge_request_ip_hourly_limit = 5, ge_login_ip_window_limit = 5,
     ge_code_resend_cooldown_seconds = 60, ge_code_email_daily_limit = 3,
     ge_notification_email = None\<rparr>"

definition sample_redeem_fresh :: redeem_fresh where
  "sample_redeem_fresh = \<lparr>rf_user_id = ''g9'', rf_guest_hex = ''00'', rf_session_id = ''s1'',
     rf_session_token = ''st'', rf_csrf_token = ''ct'', rf_notification_id = ''n1''\<rparr>"

definition sample_open_code :: GuestAccessCodeModel where
  "sample_open_code = \<lparr>gc_id = ''c3'', gc_request_id = Some ''r1'', gc_code_hash = ''code'',
     gc_expires_at = 50, gc_consumed_at = None, gc_email_fingerprint = Some ''a@x'',
     gc_generation = 0, gc_guest_user_id = None, gc_created_at = 3\<rparr>"

definition sample_bound_db :: auth_db where
  "sample_bound_db = sample_guest_db\<lparr>
     guest_access_codes := [sample_code ''c1'' ''g1'', sample_open_code],
     guest_trials := [\<lparr>gt_email_fingerprint = ''a@x'', gt_guest_user_id = Some ''g1'',
       gt_redeemed_at = Some 2, gt_generation = 0, gt_last_sent_at = None, gt_last_reset_at = None,
       gt_created_at = 1\<rparr>],
     guest_policy_state := [\<lparr>gp_id = 1, gp_key_verifier = KEY_VERIFIER, gp_initialized_at = 0\<rparr>]\<rparr>"


theorem redeem_single_use_witness:
  "is_ok (fst (redeem sample_env sample_redeem_fresh 10 ''code'' 100 None sample_bound_db))
   \<and> (\<exists>e. fst (redeem sample_env sample_redeem_fresh 20 ''code'' 100 (Some ''ip'')
        (snd (redeem sample_env sample_redeem_fresh 10 ''code'' 100 None sample_bound_db))) = Inl e)"
proof -
  have ok: "is_ok (fst (redeem sample_env sample_redeem_fresh 10 ''code'' 100 None sample_bound_db))"
    by code_simp
  then obtain auth where run: "redeem sample_env sample_redeem_fresh 10 ''code'' 100 None sample_bound_db
      = (Inr auth, snd (redeem sample_env sample_redeem_fresh 10 ''code'' 100 None sample_bound_db))"
    by (metis is_okE surjective_pairing)
  show ?thesis using ok redeem_single_use [OF run] by blast
qed

definition sample_issue :: "(auth_error, GuestAccessCodeResult) res \<times> auth_db" where
  "sample_issue = issue sample_env \<lparr>if_request_id = ''r2'', if_code_id = ''c4'', if_raw_code = ''new''\<rparr>
     10 (Some ''a@x'') 30 False True None None sample_bound_db"

theorem issue_leaves_one_code_witness:
  "\<exists>res db' c. sample_issue = (Inr res, db') \<and> c \<in> set (guest_access_codes db')
     \<and> gc_id c = ''c4'' \<and> gc_code_hash c = ''new'' \<and> gc_expires_at c \<le> 10 + 30"
proof -
  have ok: "is_ok (fst sample_issue)" by code_simp
  then obtain res where run: "sample_issue = (Inr res, snd sample_issue)"
    by (metis is_okE surjective_pairing)
  have ex: "\<exists>c \<in> set (guest_access_codes (snd sample_issue)).
      gc_email_fingerprint c = Some ''a@x'' \<and> gc_consumed_at c = None \<and> 10 < gc_expires_at c"
    by code_simp
  then obtain c where c: "c \<in> set (guest_access_codes (snd sample_issue))"
    "gc_email_fingerprint c = Some ''a@x''" "gc_consumed_at c = None" "10 < gc_expires_at c" by blast
  have fp: "ge_hmac sample_env (ge_key sample_env) (norm_email ''a@x'') = ''a@x''" by code_simp
  show ?thesis
    using run c(1) fp issue_leaves_one_code [OF run [unfolded sample_issue_def]
        c(1) [unfolded sample_issue_def], unfolded fp, OF c(2-4)]
    by (auto simp: sample_env_def)
qed

end
