(* ===== verification/Auth_Service.thy ===== *)
theory Auth_Service
  imports Guest_Access
begin

text \<open>
  First-party accounts, sessions and one-time tokens (\<open>auth/service.py\<close>). \<open>auth_env\<close> holds
  what the service is built with: the password hasher (Argon2, given by \<open>ae_hash\<close> and
  \<open>ae_verify\<close>; a mismatch is \<open>False\<close>), the digest of tokens, and the guest settings. Each
  operation takes the current time and the identifiers and secrets it would draw, and returns its
  result with the committed database. Mail is sent after the commit and is not part of the state.
\<close>

record auth_env =
  ae_hash :: "string \<Rightarrow> string"
  ae_verify :: "string \<Rightarrow> string \<Rightarrow> bool"
  ae_digest :: "string \<Rightarrow> string"
  ae_guest_access_enabled :: bool
  ae_guest :: guest_env
  ae_notification_email :: "string option"

definition EMAIL_VERIFICATION_TOKEN_TTL :: time where
  "EMAIL_VERIFICATION_TOKEN_TTL = hours 24"

definition PASSWORD_RESET_TOKEN_TTL :: time where
  "PASSWORD_RESET_TOKEN_TTL = hours 1"

datatype AuthTokenPurpose = email_verification | password_reset

primrec token_purpose_value :: "AuthTokenPurpose \<Rightarrow> string" where
  "token_purpose_value email_verification = ''email_verification''"
| "token_purpose_value password_reset = ''password_reset''"

record SignupResult =
  sr_user :: UserModel
  sr_verification_email_sent :: bool

record AccountApprovalResult =
  ar_user :: UserModel
  ar_verification_token :: "string option"
  ar_email_marked_verified :: bool
  ar_was_email_already_verified :: bool

section \<open>Tokens and sessions\<close>

definition normalize_email :: "string \<Rightarrow> string" where
  "normalize_email email = py_casefold (py_strip email)"

definition create_token ::
  "auth_env \<Rightarrow> ident \<Rightarrow> string \<Rightarrow> time \<Rightarrow> ident \<Rightarrow> AuthTokenPurpose \<Rightarrow> time \<Rightarrow> 'a auth_db_scheme
    \<Rightarrow> 'a auth_db_scheme" where
  "create_token env new_id token now user_id purpose ttl db =
     db\<lparr>auth_tokens := insert_row
        \<lparr>t_id = new_id, t_user_id = user_id, t_purpose = token_purpose_value purpose,
         t_token_hash = ae_digest env token, t_expires_at = now + ttl, t_consumed_at = None,
         t_created_at = now\<rparr> (auth_tokens db)\<rparr>"

definition consume_token ::
  "auth_env \<Rightarrow> time \<Rightarrow> string \<Rightarrow> AuthTokenPurpose \<Rightarrow> 'a auth_db_scheme
    \<Rightarrow> (auth_error, AuthTokenModel \<times> 'a auth_db_scheme) res" where
  "consume_token env now token purpose db =
     (if py_strip token = '''' then Inl InvalidAuthTokenError
      else case scalar (\<lambda>t. t_token_hash t = ae_digest env token) (auth_tokens db) of
             None \<Rightarrow> Inl InvalidAuthTokenError
           | Some t \<Rightarrow>
               if t_purpose t \<noteq> token_purpose_value purpose \<or> t_consumed_at t \<noteq> None
                  \<or> t_expires_at t \<le> now
               then Inl InvalidAuthTokenError
               else Inr (t\<lparr>t_consumed_at := Some now\<rparr>,
                     db\<lparr>auth_tokens := update_where (\<lambda>r. t_id r = t_id t)
                        (\<lambda>r. r\<lparr>t_consumed_at := Some now\<rparr>) (auth_tokens db)\<rparr>))"

definition active_session ::
  "auth_env \<Rightarrow> time \<Rightarrow> string option \<Rightarrow> 'a auth_db_scheme \<Rightarrow> (auth_error, SessionModel) res" where
  "active_session env now session_token db =
     (if session_token = None \<or> session_token = Some '''' then Inl InvalidSessionError
      else case scalar (\<lambda>s. s_token_hash s = ae_digest env (the session_token)) (sessions db) of
             None \<Rightarrow> Inl InvalidSessionError
           | Some s \<Rightarrow>
               if s_revoked_at s \<noteq> None
                  \<or> (case s_expires_at s of None \<Rightarrow> False | Some til \<Rightarrow> til \<le> now)
               then Inl InvalidSessionError else Inr s)"

definition revoke_sessions_for_user :: "time \<Rightarrow> ident \<Rightarrow> 'a auth_db_scheme \<Rightarrow> 'a auth_db_scheme" where
  "revoke_sessions_for_user now user_id db =
     db\<lparr>sessions := update_where (\<lambda>s. s_user_id s = user_id \<and> s_revoked_at s = None)
        (\<lambda>s. s\<lparr>s_revoked_at := Some now\<rparr>) (sessions db)\<rparr>"

definition save_user :: "UserModel \<Rightarrow> 'a auth_db_scheme \<Rightarrow> 'a auth_db_scheme" where
  "save_user user db = db\<lparr>users := update_where (\<lambda>u. u_id u = u_id user) (\<lambda>_. user) (users db)\<rparr>"

definition registered_account_for_update :: "ident \<Rightarrow> 'a auth_db_scheme \<Rightarrow> (auth_error, UserModel) res" where
  "registered_account_for_update user_id db =
     (case get_user user_id db of
        None \<Rightarrow> Inl InvalidSessionError
      | Some u \<Rightarrow> if u_account_type u \<noteq> ''registered'' then Inl AccountMutationNotAllowedError else Inr u)"

definition verify_current_password :: "auth_env \<Rightarrow> UserModel \<Rightarrow> string \<Rightarrow> (auth_error, unit) res" where
  "verify_current_password env user current_password =
     (if ae_verify env (u_password_hash user) current_password then Inr () else Inl InvalidCredentialsError)"

section \<open>Accounts\<close>

record signup_fresh =
  sf_user_id :: ident
  sf_token_id :: ident
  sf_token :: string
  sf_notification_id :: ident

definition new_registered_user ::
  "auth_env \<Rightarrow> ident \<Rightarrow> time \<Rightarrow> string \<Rightarrow> string \<Rightarrow> string \<Rightarrow> bool \<Rightarrow> UserModel" where
  "new_registered_user env new_id now email nickname password auto_approve =
     \<lparr>u_id = new_id, u_email = email, u_nickname = nickname, u_password_hash = ae_hash env password,
      u_email_verified_at = None,
      u_approval_status = (if auto_approve then ''approved'' else ''pending''),
      u_approved_at = (if auto_approve then Some now else None), u_rejected_at = None,
      u_account_type = ''registered'', u_assistant_model_preference = None,
      u_document_retrieval_priority = ''automatic'', u_document_ingestion_mode = ''standard'',
      u_summarization_model_preference = None, u_user_type = user_type_value NORMAL,
      u_guest_expires_at = None, u_created_at = now\<rparr>"

definition signup ::
  "auth_env \<Rightarrow> signup_fresh \<Rightarrow> time \<Rightarrow> string \<Rightarrow> string \<Rightarrow> string \<Rightarrow> bool \<Rightarrow> 'a auth_db_scheme
    \<Rightarrow> (auth_error, SignupResult) res \<times> 'a auth_db_scheme" where
  "signup env fresh now email nickname password auto_approve db =
     (let email = normalize_email email
      in case lock_signup_identity (ge_hmac (ae_guest env)) (ae_guest_access_enabled env)
                (ge_key (ae_guest env)) now email db of
           (Inl e, _) \<Rightarrow> (Inl e, db)
         | (Inr _, db0) \<Rightarrow>
             (case find_user_by_email email db0 of
                Some _ \<Rightarrow> (Inl DuplicateEmailError, db)
              | None \<Rightarrow>
                  let user = new_registered_user env (sf_user_id fresh) now email nickname password auto_approve;
                      db1 = enqueue_registration (sf_notification_id fresh) now user
                              (ae_notification_email env) (Some email) registered_signup
                              (db0\<lparr>users := insert_row user (users db0)\<rparr>);
                      db2 = (if auto_approve
                             then create_token env (sf_token_id fresh) (sf_token fresh) now (u_id user)
                                    email_verification EMAIL_VERIFICATION_TOKEN_TTL db1
                             else db1)
                  in (Inr \<lparr>sr_user = user, sr_verification_email_sent = auto_approve\<rparr>, db2)))"

record login_fresh =
  lf_session_id :: ident
  lf_session_token :: string
  lf_csrf_token :: string

definition check_login :: "auth_env \<Rightarrow> string \<Rightarrow> string \<Rightarrow> 'a auth_db_scheme \<Rightarrow> (auth_error, UserModel) res" where
  "check_login env email password db =
     (case find_user_by_email (normalize_email email) db of
        None \<Rightarrow> Inl InvalidCredentialsError
      | Some u \<Rightarrow>
          if u_account_type u \<noteq> ''registered'' then Inl InvalidCredentialsError
          else if \<not> ae_verify env (u_password_hash u) password then Inl InvalidCredentialsError
          else if u_approval_status u = ''pending'' then Inl AccountApprovalRequiredError
          else if u_approval_status u = ''rejected'' then Inl AccountRejectedError
          else if u_approval_status u \<noteq> ''approved'' then Inl InvalidCredentialsError
          else if u_email_verified_at u = None then Inl UnverifiedEmailError
          else Inr u)"

definition login ::
  "auth_env \<Rightarrow> login_fresh \<Rightarrow> time \<Rightarrow> string \<Rightarrow> string \<Rightarrow> 'a auth_db_scheme
    \<Rightarrow> (auth_error, AuthenticatedSession) res \<times> 'a auth_db_scheme" where
  "login env fresh now email password db =
     (case check_login env email password db of
        Inl e \<Rightarrow> (Inl e, db)
      | Inr u \<Rightarrow>
          let session = \<lparr>s_id = lf_session_id fresh, s_user_id = u_id u,
                s_token_hash = ae_digest env (lf_session_token fresh),
                s_csrf_token_hash = ae_digest env (lf_csrf_token fresh), s_created_at = now,
                s_expires_at = None, s_revoked_at = None\<rparr>
          in (Inr \<lparr>as_user = u, as_session = session, as_session_token = lf_session_token fresh,
                   as_csrf_token = lf_csrf_token fresh\<rparr>,
              db\<lparr>sessions := insert_row session (sessions db)\<rparr>))"

definition verify_email ::
  "auth_env \<Rightarrow> time \<Rightarrow> string \<Rightarrow> 'a auth_db_scheme \<Rightarrow> (auth_error, UserModel) res \<times> 'a auth_db_scheme" where
  "verify_email env now token db =
     (case consume_token env now token email_verification db of
        Inl e \<Rightarrow> (Inl e, db)
      | Inr (t, db1) \<Rightarrow>
          (case get_user (t_user_id t) db1 of
             None \<Rightarrow> (Inl InvalidAuthTokenError, db)
           | Some u \<Rightarrow>
               let u' = (if u_email_verified_at u = None then u\<lparr>u_email_verified_at := Some now\<rparr> else u)
               in (Inr u', save_user u' db1)))"

definition request_password_reset ::
  "auth_env \<Rightarrow> ident \<Rightarrow> string \<Rightarrow> time \<Rightarrow> string \<Rightarrow> 'a auth_db_scheme \<Rightarrow> 'a auth_db_scheme" where
  "request_password_reset env new_id token now email db =
     (case find_user_by_email (normalize_email email) db of
        None \<Rightarrow> db
      | Some u \<Rightarrow>
          if u_account_type u \<noteq> ''registered'' \<or> u_approval_status u \<noteq> ''approved'' then db
          else create_token env new_id token now (u_id u) password_reset PASSWORD_RESET_TOKEN_TTL db)"

definition confirm_password_reset ::
  "auth_env \<Rightarrow> time \<Rightarrow> string \<Rightarrow> string \<Rightarrow> 'a auth_db_scheme \<Rightarrow> (auth_error, unit) res \<times> 'a auth_db_scheme" where
  "confirm_password_reset env now token new_password db =
     (case consume_token env now token password_reset db of
        Inl e \<Rightarrow> (Inl e, db)
      | Inr (t, db1) \<Rightarrow>
          (case get_user (t_user_id t) db1 of
             None \<Rightarrow> (Inl InvalidAuthTokenError, db)
           | Some u \<Rightarrow> (Inr (), save_user (u\<lparr>u_password_hash := ae_hash env new_password\<rparr>)
                                 (revoke_sessions_for_user now (u_id u) db1))))"

definition update_nickname ::
  "auth_env \<Rightarrow> ident \<Rightarrow> string \<Rightarrow> string \<Rightarrow> 'a auth_db_scheme \<Rightarrow> (auth_error, UserModel) res \<times> 'a auth_db_scheme" where
  "update_nickname env user_id current_password nickname db =
     (case registered_account_for_update user_id db of
        Inl e \<Rightarrow> (Inl e, db)
      | Inr u \<Rightarrow>
          (case verify_current_password env u current_password of
             Inl e \<Rightarrow> (Inl e, db)
           | Inr _ \<Rightarrow> (Inr (u\<lparr>u_nickname := nickname\<rparr>), save_user (u\<lparr>u_nickname := nickname\<rparr>) db)))"

definition update_password ::
  "auth_env \<Rightarrow> time \<Rightarrow> ident \<Rightarrow> string \<Rightarrow> string \<Rightarrow> 'a auth_db_scheme
    \<Rightarrow> (auth_error, unit) res \<times> 'a auth_db_scheme" where
  "update_password env now user_id current_password new_password db =
     (case registered_account_for_update user_id db of
        Inl e \<Rightarrow> (Inl e, db)
      | Inr u \<Rightarrow>
          (case verify_current_password env u current_password of
             Inl e \<Rightarrow> (Inl e, db)
           | Inr _ \<Rightarrow> (Inr (), save_user (u\<lparr>u_password_hash := ae_hash env new_password\<rparr>)
                                 (revoke_sessions_for_user now (u_id u) db))))"

definition authenticate_session ::
  "auth_env \<Rightarrow> time \<Rightarrow> string option \<Rightarrow> 'a auth_db_scheme \<Rightarrow> (auth_error, Principal) res \<times> 'a auth_db_scheme" where
  "authenticate_session env now session_token db =
     (case active_session env now session_token db of
        Inl e \<Rightarrow> (Inl e, db)
      | Inr s \<Rightarrow>
          (case get_user (s_user_id s) db of
             None \<Rightarrow> (Inl InvalidSessionError, db)
           | Some u \<Rightarrow>
               if u_account_type u = ''guest''
               then (case prepare (ae_guest env) now db of
                       (Inl e, db0) \<Rightarrow> (Inl e, db0)
                     | (Inr _, db0) \<Rightarrow>
                         (case owns_trial (ae_guest env) now (u_id u) db0 of
                            Inl e \<Rightarrow> (Inl e, db0)
                          | Inr False \<Rightarrow> (Inl InvalidSessionError, db0)
                          | Inr True \<Rightarrow>
                              (case get_user (u_id u) db0 of
                                 None \<Rightarrow> (Inl InvalidSessionError, db0)
                               | Some g \<Rightarrow>
                                   if (case u_guest_expires_at g of None \<Rightarrow> True | Some til \<Rightarrow> til \<le> now)
                                   then (Inl InvalidSessionError, db0)
                                   else (Inr \<lparr>p_user_id = s_user_id s, p_session_id = s_id s,
                                              p_is_guest = True,
                                              p_user_type = (if u_user_type g = '''' then user_type_value NORMAL
                                                             else u_user_type g)\<rparr>, db0))))
               else (Inr \<lparr>p_user_id = s_user_id s, p_session_id = s_id s, p_is_guest = False,
                          p_user_type = (if u_user_type u = '''' then user_type_value NORMAL
                                         else u_user_type u)\<rparr>, db)))"

definition logout ::
  "auth_env \<Rightarrow> time \<Rightarrow> string option \<Rightarrow> string option \<Rightarrow> 'a auth_db_scheme
    \<Rightarrow> (auth_error, unit) res \<times> 'a auth_db_scheme" where
  "logout env now session_token csrf_token db =
     (case active_session env now session_token db of
        Inl e \<Rightarrow> (Inl e, db)
      | Inr s \<Rightarrow>
          if csrf_token = None \<or> csrf_token = Some '''' \<or> ae_digest env (the csrf_token) \<noteq> s_csrf_token_hash s
          then (Inl InvalidCsrfTokenError, db)
          else (Inr (), db\<lparr>sessions := update_where (\<lambda>r. s_id r = s_id s)
                   (\<lambda>r. r\<lparr>s_revoked_at := Some now\<rparr>) (sessions db)\<rparr>))"

section \<open>Operator actions\<close>

definition approve_account_signup ::
  "auth_env \<Rightarrow> ident \<Rightarrow> string \<Rightarrow> time \<Rightarrow> string \<Rightarrow> bool \<Rightarrow> 'a auth_db_scheme
    \<Rightarrow> (auth_error, AccountApprovalResult) res \<times> 'a auth_db_scheme" where
  "approve_account_signup env new_id token now email mark_email_verified db =
     (case find_user_by_email (normalize_email email) db of
        None \<Rightarrow> (Inl InvalidAuthTokenError, db)
      | Some u \<Rightarrow>
          if u_account_type u \<noteq> ''registered'' then (Inl InvalidAuthTokenError, db)
          else if u_approval_status u = ''rejected'' then (Inl InvalidAuthTokenError, db)
          else
            let u1 = (if u_approval_status u \<noteq> ''approved''
                      then u\<lparr>u_approval_status := ''approved'', u_approved_at := Some now,
                             u_rejected_at := None\<rparr> else u);
                u2 = (if mark_email_verified \<and> u_email_verified_at u1 = None
                      then u1\<lparr>u_email_verified_at := Some now\<rparr> else u1);
                db1 = (if mark_email_verified then db
                       else create_token env new_id token now (u_id u) email_verification
                              EMAIL_VERIFICATION_TOKEN_TTL db)
            in (Inr \<lparr>ar_user = u2, ar_verification_token = (if mark_email_verified then None else Some token),
                     ar_email_marked_verified = mark_email_verified,
                     ar_was_email_already_verified = (u_email_verified_at u1 \<noteq> None)\<rparr>,
                save_user u2 db1))"

definition resend_account_verification ::
  "auth_env \<Rightarrow> ident \<Rightarrow> string \<Rightarrow> time \<Rightarrow> string \<Rightarrow> 'a auth_db_scheme
    \<Rightarrow> (auth_error, AccountApprovalResult) res \<times> 'a auth_db_scheme" where
  "resend_account_verification env new_id token now email db =
     (case find_user_by_email (normalize_email email) db of
        None \<Rightarrow> (Inl InvalidAuthTokenError, db)
      | Some u \<Rightarrow>
          if u_account_type u \<noteq> ''registered'' then (Inl InvalidAuthTokenError, db)
          else if u_approval_status u = ''pending'' then (Inl AccountApprovalRequiredError, db)
          else if u_approval_status u = ''rejected'' then (Inl AccountRejectedError, db)
          else if u_approval_status u \<noteq> ''approved'' \<or> u_email_verified_at u \<noteq> None
          then (Inl InvalidAuthTokenError, db)
          else (Inr \<lparr>ar_user = u, ar_verification_token = Some token, ar_email_marked_verified = False,
                     ar_was_email_already_verified = False\<rparr>,
                create_token env new_id token now (u_id u) email_verification
                  EMAIL_VERIFICATION_TOKEN_TTL db))"

definition reject_account_signup ::
  "time \<Rightarrow> string \<Rightarrow> 'a auth_db_scheme \<Rightarrow> (auth_error, UserModel) res \<times> 'a auth_db_scheme" where
  "reject_account_signup now email db =
     (case find_user_by_email (normalize_email email) db of
        None \<Rightarrow> (Inl InvalidAuthTokenError, db)
      | Some u \<Rightarrow>
          if u_account_type u \<noteq> ''registered'' then (Inl InvalidAuthTokenError, db)
          else let u' = u\<lparr>u_approval_status := ''rejected'', u_rejected_at := Some now\<rparr>
               in (Inr u', save_user u' db))"

section \<open>Signing in and out\<close>

lemma scalar_insert_row:
  "scalar p (insert_row r rs) = (case scalar p rs of Some s \<Rightarrow> Some s | None \<Rightarrow> if p r then Some r else None)"
  by (induction rs) (auto simp: scalar_def insert_row_def)

text \<open>
  C8. Login succeeds exactly for a registered, approved, email-verified account whose password
  verifies; it then adds one unrevoked session of that account and changes nothing else, and a
  refused login changes nothing at all.
\<close>

theorem login_correct:
  "case login env fresh now email password db of
     (Inr auth, db') \<Rightarrow>
       find_user_by_email (normalize_email email) db = Some (as_user auth)
       \<and> u_account_type (as_user auth) = ''registered'' \<and> u_approval_status (as_user auth) = ''approved''
       \<and> u_email_verified_at (as_user auth) \<noteq> None
       \<and> ae_verify env (u_password_hash (as_user auth)) password
       \<and> s_user_id (as_session auth) = u_id (as_user auth) \<and> s_revoked_at (as_session auth) = None
       \<and> db' = db\<lparr>sessions := sessions db @ [as_session auth]\<rparr>
   | (Inl e, db') \<Rightarrow> db' = db
       \<and> \<not> (\<exists>u. find_user_by_email (normalize_email email) db = Some u
            \<and> u_account_type u = ''registered'' \<and> u_approval_status u = ''approved''
            \<and> u_email_verified_at u \<noteq> None \<and> ae_verify env (u_password_hash u) password)"
  by (auto simp: login_def check_login_def Let_def insert_row_def split: option.splits)

lemma login_ok:
  assumes "login env fresh now email password db = (Inr auth, db')"
  shows "find_user_by_email (normalize_email email) db = Some (as_user auth)"
    and "u_account_type (as_user auth) = ''registered''"
    and "as_session_token auth = lf_session_token fresh"
    and "db' = db\<lparr>sessions := insert_row (as_session auth) (sessions db)\<rparr>"
    and "s_id (as_session auth) = lf_session_id fresh" "s_user_id (as_session auth) = u_id (as_user auth)"
    and "s_token_hash (as_session auth) = ae_digest env (lf_session_token fresh)"
    and "s_expires_at (as_session auth) = None" "s_revoked_at (as_session auth) = None"
  using assms by (auto simp: login_def check_login_def Let_def split: option.splits if_splits)

text \<open>
  The cookie of a fresh login authenticates as the account that logged in, as a non-guest, at
  every later time, and the check itself changes nothing.
\<close>

theorem login_authenticates:
  assumes "login env fresh now email password db = (Inr auth, db')"
    and "unique_on u_id (users db)"
    and "lf_session_token fresh \<noteq> ''''"
    and "ae_digest env (lf_session_token fresh) \<notin> s_token_hash ` set (sessions db)"
  shows "\<exists>p. authenticate_session env now' (Some (as_session_token auth)) db' = (Inr p, db')
    \<and> p_user_id p = u_id (as_user auth) \<and> p_session_id p = lf_session_id fresh \<and> \<not> p_is_guest p"
proof -
  note ok = login_ok [OF assms(1)]
  have none: "scalar (\<lambda>s. s_token_hash s = ae_digest env (lf_session_token fresh)) (sessions db) = None"
    using assms(4) unfolding scalar_None_iff by (auto simp: image_iff)
  have "active_session env now' (Some (as_session_token auth)) db' = Inr (as_session auth)"
    using ok assms(3) none by (simp add: active_session_def scalar_insert_row)
  moreover have "get_user (s_user_id (as_session auth)) db' = Some (as_user auth)"
    using ok find_user_by_email_SomeD [OF ok(1)] get_row_unique [OF assms(2)] by (simp add: get_user_def)
  ultimately show ?thesis using ok by (simp add: authenticate_session_def)
qed

lemma authenticate_session_revoked:
  assumes "\<And>s. scalar (\<lambda>s. s_token_hash s = ae_digest env tok) (sessions db) = Some s \<Longrightarrow> s_revoked_at s \<noteq> None"
  shows "authenticate_session env now (Some tok) db = (Inl InvalidSessionError, db)"
  using assms by (auto simp: authenticate_session_def active_session_def split: option.splits)

text \<open>
  Logging out with the right CSRF token ends the session: the same cookie never authenticates
  again.
\<close>

theorem logout_ends_session:
  assumes "logout env now (Some tok) csrf db = (Inr (), db')"
  shows "authenticate_session env now' (Some tok) db' = (Inl InvalidSessionError, db')"
proof -
  obtain s where s: "scalar (\<lambda>s. s_token_hash s = ae_digest env tok) (sessions db) = Some s"
    and db': "db' = db\<lparr>sessions := update_where (\<lambda>r. s_id r = s_id s)
      (\<lambda>r. r\<lparr>s_revoked_at := Some now\<rparr>) (sessions db)\<rparr>"
    using assms by (auto simp: logout_def active_session_def split: option.splits sum.splits if_splits)
  show ?thesis
    by (rule authenticate_session_revoked) (use s db' in \<open>auto simp: scalar_update_where\<close>)
qed

lemma revoked_for_user:
  assumes "scalar (\<lambda>s. s_token_hash s = h) (sessions db) = Some s" and "s_user_id s = uid"
    and "scalar (\<lambda>s. s_token_hash s = h) (sessions (revoke_sessions_for_user now uid db)) = Some s'"
  shows "s_revoked_at s' \<noteq> None"
  using assms by (auto simp: revoke_sessions_for_user_def scalar_update_where)

text \<open>
  C16. Changing a password ends every session of the account: a cookie that belonged to it before the
  change does not authenticate afterwards.
\<close>

theorem password_change_revokes:
  assumes "update_password env now uid current new db = (Inr (), db')"
    and "scalar (\<lambda>s. s_token_hash s = ae_digest env tok) (sessions db) = Some s" and "s_user_id s = uid"
  shows "authenticate_session env now' (Some tok) db' = (Inl InvalidSessionError, db')"
proof -
  obtain u where "sessions db' = sessions (revoke_sessions_for_user now uid db)"
    using assms(1)
    by (auto simp: update_password_def registered_account_for_update_def save_user_def
        split: sum.splits option.splits if_splits dest!: get_user_SomeD)
  then show ?thesis
    using revoked_for_user [OF assms(2,3)] by (intro authenticate_session_revoked) simp
qed

lemma consume_token_ok:
  assumes "consume_token env now token purpose db = Inr (t, db1)"
  shows "\<exists>r. scalar (\<lambda>t. t_token_hash t = ae_digest env token) (auth_tokens db1) = Some r
      \<and> t_consumed_at r \<noteq> None"
    and "sessions db1 = sessions db" "users db1 = users db"
  using assms
  by (auto simp: consume_token_def scalar_update_where split: if_splits option.splits)

lemma consume_token_consumed:
  "scalar (\<lambda>t. t_token_hash t = ae_digest env token) (auth_tokens db) = Some r \<Longrightarrow> t_consumed_at r \<noteq> None
    \<Longrightarrow> consume_token env now token purpose db = Inl InvalidAuthTokenError"
  by (simp add: consume_token_def)

text \<open>
  C9. A password-reset token is single-use and a reset ends all sessions: after a successful reset the
  token resets nothing and verifies nothing any more, and no earlier cookie of that account works.
\<close>

theorem password_reset_single_use:
  assumes "confirm_password_reset env now token new db = (Inr (), db')"
  shows "confirm_password_reset env now' token new' db' = (Inl InvalidAuthTokenError, db')
    \<and> verify_email env now' token db' = (Inl InvalidAuthTokenError, db')
    \<and> (\<forall>tok s. scalar (\<lambda>s. s_token_hash s = ae_digest env tok) (sessions db) = Some s
         \<longrightarrow> s_user_id s \<in> t_user_id ` {t \<in> set (auth_tokens db). t_token_hash t = ae_digest env token}
         \<longrightarrow> unique_on t_token_hash (auth_tokens db)
         \<longrightarrow> fst (authenticate_session env now' (Some tok) db') = Inl InvalidSessionError)"
proof -
  obtain t db1 u where ct: "consume_token env now token password_reset db = Inr (t, db1)"
    and u: "get_user (t_user_id t) db1 = Some u"
    and db': "db' = save_user (u\<lparr>u_password_hash := ae_hash env new\<rparr>) (revoke_sessions_for_user now (u_id u) db1)"
    using assms by (auto simp: confirm_password_reset_def split: sum.splits option.splits prod.splits)
  obtain r where "scalar (\<lambda>t. t_token_hash t = ae_digest env token) (auth_tokens db') = Some r" "t_consumed_at r \<noteq> None"
    using consume_token_ok(1) [OF ct] db' by (auto simp: save_user_def revoke_sessions_for_user_def)
  then have again: "consume_token env now' token p db' = Inl InvalidAuthTokenError" for p
    by (rule consume_token_consumed)
  have "fst (authenticate_session env now' (Some tok) db') = Inl InvalidSessionError"
    if s: "scalar (\<lambda>s. s_token_hash s = ae_digest env tok) (sessions db) = Some s"
      and own: "s_user_id s \<in> t_user_id ` {t \<in> set (auth_tokens db). t_token_hash t = ae_digest env token}"
      and uniq: "unique_on t_token_hash (auth_tokens db)" for tok s
  proof -
    obtain t0 where t0: "t0 \<in> set (auth_tokens db)" "t_token_hash t0 = ae_digest env token"
        "t_user_id t = t_user_id t0"
      using ct by (auto simp: consume_token_def split: if_splits option.splits dest!: scalar_SomeD)
    then have "s_user_id s = u_id u"
      using own unique_onD [OF uniq] get_user_SomeD [OF u] by force
    moreover have "sessions db' = sessions (revoke_sessions_for_user now (u_id u) db1)"
      by (simp add: db' save_user_def)
    ultimately show ?thesis
      using revoked_for_user [of "ae_digest env tok" db1 s "u_id u" now] s consume_token_ok(2) [OF ct]
      by (subst authenticate_session_revoked) auto
  qed
  then show ?thesis using again by (auto simp: confirm_password_reset_def verify_email_def)
qed

section \<open>The keys of the account tables\<close>

definition account_keys :: "'a auth_db_scheme \<Rightarrow> bool" where
  "account_keys db \<longleftrightarrow> unique_on u_id (users db) \<and> unique_on u_email (users db)
     \<and> unique_on s_id (sessions db) \<and> unique_on s_token_hash (sessions db)
     \<and> unique_on t_id (auth_tokens db) \<and> unique_on t_token_hash (auth_tokens db)
     \<and> (\<forall>u \<in> set (users db). u_account_type u = ''registered'' \<longrightarrow> normalize_email (u_email u) = u_email u)
     \<and> s_user_id ` set (sessions db) \<subseteq> u_id ` set (users db)
     \<and> t_user_id ` set (auth_tokens db) \<subseteq> u_id ` set (users db)"

lemma normalize_email_idem [simp]: "normalize_email (normalize_email e) = normalize_email e"
  by (simp add: normalize_email_def)

text \<open>The identifying columns, the whole token table and every table outside the account tables are as
  they were.\<close>

definition account_cols :: "UserModel \<Rightarrow> ident \<times> string \<times> string" where
  "account_cols u = (u_id u, u_email u, u_account_type u)"

definition same_keys :: "'a auth_db_scheme \<Rightarrow> 'a auth_db_scheme \<Rightarrow> bool" where
  "same_keys db db' \<longleftrightarrow> map account_cols (users db') = map account_cols (users db)
     \<and> map s_id (sessions db') = map s_id (sessions db)
     \<and> map s_token_hash (sessions db') = map s_token_hash (sessions db)
     \<and> map s_user_id (sessions db') = map s_user_id (sessions db)
     \<and> auth_tokens db' = auth_tokens db \<and> auth_db.more db' = auth_db.more db"

lemma same_cols:
  assumes "map account_cols us' = map account_cols us"
  shows "map u_id us' = map u_id us" "map u_email us' = map u_email us"
    "u_id ` set us' = u_id ` set us" "u' \<in> set us' \<Longrightarrow> \<exists>u \<in> set us. account_cols u = account_cols u'"
proof -
  have id: "map u_id us = map fst (map account_cols us)" and em: "map u_email us = map (fst \<circ> snd) (map account_cols us)" for us
    by (simp_all add: account_cols_def comp_def)
  show ids: "map u_id us' = map u_id us" "map u_email us' = map u_email us"
    unfolding id em assms by simp_all
  show "u_id ` set us' = u_id ` set us" using ids(1) by (metis list.set_map)
  show "u' \<in> set us' \<Longrightarrow> \<exists>u \<in> set us. account_cols u = account_cols u'"
    using arg_cong [OF assms, of set] by (metis image_iff list.set_map)
qed

lemma same_keys_account:
  assumes "same_keys db db'" and "account_keys db"
  shows "account_keys db'"
proof -
  have cols: "map account_cols (users db') = map account_cols (users db)" using assms(1) by (simp add: same_keys_def)
  have "normalize_email (u_email u) = u_email u"
    if "u \<in> set (users db')" "u_account_type u = ''registered''" for u
    using same_cols(4) [OF cols that(1)] that(2) assms(2) by (force simp: account_keys_def account_cols_def)
  moreover have "s_user_id ` set (sessions db') = s_user_id ` set (sessions db)"
    using assms(1) unfolding same_keys_def by (metis list.set_map)
  ultimately show ?thesis
    using assms same_cols(1-3) [OF cols] unfolding account_keys_def unique_on_def same_keys_def by auto
qed

lemma same_keys_refl [simp]: "same_keys db db"
  by (simp add: same_keys_def)

lemma same_keys_trans: "same_keys a b \<Longrightarrow> same_keys b c \<Longrightarrow> same_keys a c"
  by (simp add: same_keys_def)

lemma same_keys_backfill: "same_keys db (backfill hmac key now db)"
proof -
  let ?f = "\<lambda>e. backfill_email now (hmac key (norm_email e)) e"
  have step: "same_keys (fst st) (fst (?f e st))" for e and st :: "'a auth_db_scheme \<times> (string \<times> time) list"
    by (cases st) (simp add: backfill_email_def Let_def retire_guests_def same_keys_def map_update_where account_cols_def)
  have fold: "same_keys (fst st) (fst (fold ?f es st))" for es and st :: "'a auth_db_scheme \<times> (string \<times> time) list"
  proof (induction es arbitrary: st)
    case Nil
    show ?case by simp
  next
    case (Cons e es)
    have "same_keys (fst (?f e st)) (fst (fold ?f es (?f e st)))" by (rule Cons.IH)
    then show ?case using same_keys_trans [OF step [of st e]] by (simp only: fold_simps)
  qed
  obtain d a where st: "fold ?f (dict_fromkeys (map (norm_email \<circ> gr_email) (guest_access_requests db)))
      (db, backfill_audits (guest_deletion_audits db) []) = (d, a)" by fastforce
  have "same_keys db d"
    using fold [of "(db, backfill_audits (guest_deletion_audits db) [])"
        "dict_fromkeys (map (norm_email \<circ> gr_email) (guest_access_requests db))"]
    unfolding st by simp
  then show ?thesis using st by (simp add: backfill_def Let_def same_keys_def)
qed

lemma same_keys_initialize: "same_keys db (snd (initialize_guest_policy hmac key now db))"
proof -
  have "same_keys db (backfill hmac key now (db\<lparr>guest_policy_state := ps\<rparr>))" for ps
    using same_keys_backfill [of "db\<lparr>guest_policy_state := ps\<rparr>"] by (simp add: same_keys_def)
  then show ?thesis by (simp add: initialize_guest_policy_def split: sum.split option.split)
qed

lemma same_keys_lock_signup: "same_keys db (snd (lock_signup_identity hmac enabled key now email db))"
proof -
  have "same_keys d (snd (lock_trial now fp d))" for fp and d :: "'a auth_db_scheme"
    by (simp add: lock_trial_def Let_def same_keys_def split: option.split)
  then show ?thesis
    using same_keys_trans same_keys_initialize [of db hmac key now]
    by (fastforce simp: lock_signup_identity_def split: prod.split sum.split)
qed

lemma account_keys_save:
  assumes "account_keys db" and "u \<in> set (users db)" and "account_cols u' = account_cols u"
  shows "account_keys (save_user u' db)"
proof -
  have "account_cols x = account_cols u" if "x \<in> set (users db)" "u_id x = u_id u" for x
    using unique_onD [of u_id "users db" x u] that assms(1,2) by (simp add: account_keys_def)
  then have "map account_cols (users (save_user u' db)) = map account_cols (users db)"
    using assms(3) by (auto simp: save_user_def update_where_def account_cols_def)
  then have "same_keys db (save_user u' db)" by (simp add: same_keys_def save_user_def)
  then show ?thesis using assms(1) by (rule same_keys_account)
qed

lemma account_keys_create_token:
  "account_keys db \<Longrightarrow> i \<notin> t_id ` set (auth_tokens db) \<Longrightarrow> ae_digest env tok \<notin> t_token_hash ` set (auth_tokens db)
    \<Longrightarrow> u \<in> set (users db) \<Longrightarrow> account_keys (create_token env i tok now (u_id u) p ttl db)"
  by (simp add: account_keys_def create_token_def)

lemma account_keys_consume:
  "consume_token env now token p db = Inr (t, db1) \<Longrightarrow> account_keys db \<Longrightarrow> account_keys db1"
  by (auto simp: consume_token_def account_keys_def unique_on_update_where set_update_where image_subset_iff
      split: if_splits option.splits)

lemma account_keys_revoke: "account_keys db \<Longrightarrow> account_keys (revoke_sessions_for_user now uid db)"
  by (auto simp: account_keys_def revoke_sessions_for_user_def unique_on_update_where set_update_where image_subset_iff)

lemma users_frame [simp]:
  "users (revoke_sessions_for_user now uid db) = users db"
  "users (create_token env i tok now uid p ttl db) = users db"
  by (simp_all add: revoke_sessions_for_user_def create_token_def)

lemma get_user_in: "get_user uid db = Some u \<Longrightarrow> u \<in> set (users db)"
  using get_user_SomeD by blast

lemma find_user_in: "find_user_by_email e db = Some u \<Longrightarrow> u \<in> set (users db)"
  using find_user_by_email_SomeD by blast

text \<open>Identifiers and token digests an operation draws are new to the tables.\<close>

definition fresh_token :: "auth_env \<Rightarrow> ident \<Rightarrow> string \<Rightarrow> 'a auth_db_scheme \<Rightarrow> bool" where
  "fresh_token env i tok db \<longleftrightarrow> i \<notin> t_id ` set (auth_tokens db)
     \<and> ae_digest env tok \<notin> t_token_hash ` set (auth_tokens db)"

definition fresh_session :: "auth_env \<Rightarrow> ident \<Rightarrow> string \<Rightarrow> 'a auth_db_scheme \<Rightarrow> bool" where
  "fresh_session env i tok db \<longleftrightarrow> i \<notin> s_id ` set (sessions db)
     \<and> ae_digest env tok \<notin> s_token_hash ` set (sessions db)"

lemma account_keys_signup:
  assumes "account_keys db" and "sf_user_id fresh \<notin> u_id ` set (users db)"
    and "fresh_token env (sf_token_id fresh) (sf_token fresh) db"
  shows "account_keys (snd (signup env fresh now email nick pw auto db))"
proof -
  obtain r db0 where lock: "lock_signup_identity (ge_hmac (ae_guest env)) (ae_guest_access_enabled env)
      (ge_key (ae_guest env)) now (normalize_email email) db = (r, db0)" by fastforce
  then have same: "same_keys db db0" using same_keys_lock_signup by (metis snd_conv)
  then have "map account_cols (users db0) = map account_cols (users db)" by (simp add: same_keys_def)
  then have id: "sf_user_id fresh \<notin> u_id ` set (users db0)" using same_cols(3) assms(2) by metis
  have tok: "auth_tokens db0 = auth_tokens db" using same by (simp add: same_keys_def)
  have keys: "account_keys db0" using same_keys_account [OF same assms(1)] .
  show ?thesis
  proof (cases "\<exists>x. r = Inr x \<and> find_user_by_email (normalize_email email) db0 = None")
    case False
    then show ?thesis using lock assms(1)
      by (cases r; cases "find_user_by_email (normalize_email email) db0") (auto simp: signup_def Let_def)
  next
    case True
    then have "normalize_email email \<notin> u_email ` set (users db0)"
      by (auto simp: find_user_by_email_def scalar_None_iff)
    then show ?thesis
      using True lock keys id tok assms(3)
      by (auto simp: signup_def Let_def account_keys_def enqueue_registration_def create_token_def
          new_registered_user_def fresh_token_def image_iff)
  qed
qed

inductive account_step :: "auth_env \<Rightarrow> 'a auth_db_scheme \<Rightarrow> 'a auth_db_scheme \<Rightarrow> bool" for env where
  signup: "sf_user_id fr \<notin> u_id ` set (users db) \<Longrightarrow> fresh_token env (sf_token_id fr) (sf_token fr) db
    \<Longrightarrow> account_step env db (snd (signup env fr now email nick pw auto db))"
| login: "fresh_session env (lf_session_id fr') (lf_session_token fr') db
    \<Longrightarrow> account_step env db (snd (login env fr' now email pw db))"
| verify: "account_step env db (snd (verify_email env now tok db))"
| reset_request: "fresh_token env i tok db \<Longrightarrow> account_step env db (request_password_reset env i tok now email db)"
| reset_confirm: "account_step env db (snd (confirm_password_reset env now tok pw db))"
| nickname: "account_step env db (snd (update_nickname env uid cur nick db))"
| password: "account_step env db (snd (update_password env now uid cur pw db))"
| logout: "account_step env db (snd (logout env now stok ctok db))"
| approve: "fresh_token env i tok db \<Longrightarrow> account_step env db (snd (approve_account_signup env i tok now email mark db))"
| resend: "fresh_token env i tok db \<Longrightarrow> account_step env db (snd (resend_account_verification env i tok now email db))"
| reject: "account_step env db (snd (reject_account_signup now email db))"

lemma account_step_keys: "account_step env db db' \<Longrightarrow> account_keys db \<Longrightarrow> account_keys db'"
proof (induction rule: account_step.induct)
  case signup
  then show ?case by (simp add: account_keys_signup)
next
  case (login fr' db now email pw)
  then show ?case
    by (auto simp: login_def check_login_def Let_def account_keys_def fresh_session_def split: option.splits
        dest: find_user_in)
next
  case (verify db now tok)
  then show ?case
    by (auto simp: verify_email_def Let_def split: sum.splits option.splits prod.splits
        intro!: account_keys_save simp: account_cols_def dest: get_user_in elim: account_keys_consume)
next
  case (reset_request i tok db now email)
  then show ?case
    by (auto simp: request_password_reset_def fresh_token_def split: option.splits
        intro!: account_keys_create_token dest: find_user_in)
next
  case (reset_confirm db now tok pw)
  then show ?case
    by (auto simp: confirm_password_reset_def split: sum.splits option.splits prod.splits
        intro!: account_keys_save account_keys_revoke simp: account_cols_def dest: get_user_in elim: account_keys_consume)
next
  case (nickname db uid cur nick)
  then show ?case
    by (auto simp: update_nickname_def registered_account_for_update_def
        split: sum.splits option.splits if_splits intro!: account_keys_save simp: account_cols_def dest: get_user_in)
next
  case (password db now uid cur pw)
  then show ?case
    by (auto simp: update_password_def registered_account_for_update_def
        split: sum.splits option.splits if_splits intro!: account_keys_save account_keys_revoke simp: account_cols_def dest: get_user_in)
next
  case (logout db now stok ctok)
  then show ?case
    by (auto simp: logout_def account_keys_def unique_on_update_where set_update_where image_subset_iff split: sum.splits)
next
  case (approve i tok db now email mark)
  then show ?case
    by (auto simp: approve_account_signup_def Let_def fresh_token_def split: option.splits
        intro!: account_keys_save account_keys_create_token simp: account_cols_def dest: find_user_in)
next
  case (resend i tok db now email)
  then show ?case
    by (auto simp: resend_account_verification_def fresh_token_def split: option.splits
        intro!: account_keys_create_token dest: find_user_in)
next
  case (reject db now email)
  then show ?case
    by (auto simp: reject_account_signup_def Let_def split: option.splits
        intro!: account_keys_save simp: account_cols_def dest: find_user_in)
qed

definition no_accounts :: "'a auth_db_scheme \<Rightarrow> bool" where
  "no_accounts db \<longleftrightarrow> users db = [] \<and> sessions db = [] \<and> auth_tokens db = []"

interpretation account_sys: invariant_system no_accounts "account_step env" account_keys for env
proof unfold_locales
  show "account_keys db" if "no_accounts db" for db :: "'a auth_db_scheme"
    using that by (simp add: no_accounts_def account_keys_def unique_on_def)
  show "account_keys t" if "account_keys s" "account_step env s t" for s t :: "'a auth_db_scheme"
    using that account_step_keys by blast
qed

text \<open>
  C17. Whatever sequence of account operations runs from empty tables, as long as drawn identifiers
  and secrets do not repeat: no two accounts share an identifier or an email, no two sessions a
  cookie digest, no two one-time tokens a digest; every stored address is in its normal form, so
  login finds it however it is typed; and every session and token belongs to an account.
\<close>

theorem account_tables_sound:
  assumes "reachable no_accounts (account_step env) db"
  shows "account_keys db"
  using assms by (rule account_sys.reachable_inv)

section \<open>From signup to the first login\<close>

lemma signup_ok:
  assumes "signup env fr now email nick pw auto db = (Inr res, db1)"
    and "sf_user_id fr \<notin> u_id ` set (users db)"
  shows "sr_user res = new_registered_user env (sf_user_id fr) now (normalize_email email) nick pw auto"
    and "find_user_by_email (normalize_email email) db1 = Some (sr_user res)"
    and "u_id x = sf_user_id fr \<Longrightarrow> x \<in> set (users db1) \<Longrightarrow> x = sr_user res"
proof -
  let ?u = "new_registered_user env (sf_user_id fr) now (normalize_email email) nick pw auto"
  obtain r db0 where lock: "lock_signup_identity (ge_hmac (ae_guest env)) (ae_guest_access_enabled env)
      (ge_key (ae_guest env)) now (normalize_email email) db = (r, db0)" by fastforce
  then have "same_keys db db0" using same_keys_lock_signup by (metis snd_conv)
  then have "map account_cols (users db0) = map account_cols (users db)" by (simp add: same_keys_def)
  then have id: "sf_user_id fr \<notin> u_id ` set (users db0)" using same_cols(3) assms(2) by metis
  have res: "sr_user res = ?u" and us: "users db1 = insert_row ?u (users db0)"
    and free: "find_user_by_email (normalize_email email) db0 = None"
    using assms(1) lock
    by (auto simp: signup_def Let_def enqueue_registration_def create_token_def split: sum.splits option.splits if_splits)
  show "sr_user res = ?u" by (rule res)
  show "find_user_by_email (normalize_email email) db1 = Some (sr_user res)"
    using free us res by (simp add: find_user_by_email_def scalar_insert_row new_registered_user_def)
  show "u_id x = sf_user_id fr \<Longrightarrow> x \<in> set (users db1) \<Longrightarrow> x = sr_user res"
    using us id res by (auto simp: image_iff)
qed

lemma scalar_swap_row:
  "scalar p rs = Some r \<Longrightarrow> p r' \<Longrightarrow> scalar p (map (\<lambda>x. if x = r then r' else x) rs) = Some r'"
  by (induction rs) (auto simp: scalar_def split: if_splits)

text \<open>
  A signup that is not auto-approved cannot log in until an operator approves it, and once it is
  approved with its address marked verified the same credentials log in, as the account that signed
  up (for a hasher that verifies what it hashed).
\<close>

theorem signup_approval_login:
  assumes "signup env fr now email nick pw False db = (Inr res, db1)"
    and "sf_user_id fr \<notin> u_id ` set (users db)"
    and "\<And>p. ae_verify env (ae_hash env p) p"
  shows "login env lf now1 email pw db1 = (Inl AccountApprovalRequiredError, db1)
    \<and> (\<exists>auth db3. login env lf now3 email pw (snd (approve_account_signup env i tok now2 email True db1))
          = (Inr auth, db3) \<and> u_id (as_user auth) = u_id (sr_user res))"
proof -
  note ok = signup_ok [OF assms(1,2)]
  let ?u = "(sr_user res)\<lparr>u_approval_status := ''approved'', u_approved_at := Some now2,
      u_rejected_at := None, u_email_verified_at := Some now2\<rparr>"
  have "snd (approve_account_signup env i tok now2 email True db1) = save_user ?u db1"
    using ok(1,2) by (simp add: approve_account_signup_def new_registered_user_def Let_def)
  moreover have "find_user_by_email (normalize_email email) (save_user ?u db1) = Some ?u"
  proof -
    have "scalar (\<lambda>u. u_email u = normalize_email email) (update_where (\<lambda>u. u_id u = u_id ?u) (\<lambda>_. ?u) (users db1))
      = scalar (\<lambda>u. u_email u = normalize_email email) (map (\<lambda>x. if x = sr_user res then ?u else x) (users db1))"
      using ok(1,3) unfolding update_where_def by (intro arg_cong2 [of _ _ _ _ scalar] map_cong) (auto simp: new_registered_user_def)
    also have "\<dots> = Some ?u"
      using ok(1,2) unfolding find_user_by_email_def by (intro scalar_swap_row) (auto simp: new_registered_user_def)
    finally show ?thesis by (simp add: find_user_by_email_def save_user_def)
  qed
  ultimately show ?thesis
    using ok(1,2) assms(3) by (simp add: login_def check_login_def new_registered_user_def Let_def)
qed

text \<open>
  Rejecting an account does not end its sessions: the cookie of a registered account that was
  authenticated before the rejection, whatever its approval status was, authenticates the same
  principal afterwards, while a new login is refused.
\<close>

theorem reject_keeps_sessions:
  assumes "reject_account_signup now email db = (Inr u, db')"
    and "unique_on u_id (users db)"
    and "authenticate_session env now' tok db = (Inr p, db)" and "p_user_id p = u_id u"
  shows "authenticate_session env now' tok db' = (Inr p, db')
    \<and> (\<exists>e. fst (login env lf now'' email pw db') = Inl e)"
proof -
  obtain v where v: "find_user_by_email (normalize_email email) db = Some v" "u_account_type v = ''registered''"
    and u: "u = v\<lparr>u_approval_status := ''rejected'', u_rejected_at := Some now\<rparr>" and db': "db' = save_user u db"
    using assms(1) by (auto simp: reject_account_signup_def Let_def split: option.splits if_splits)
  have in_v: "v \<in> set (users db)" using find_user_in [OF v(1)] .
  then have old: "get_user (u_id u) db = Some v"
    using get_row_unique [OF assms(2) in_v] u by (simp add: get_user_def)
  have new: "get_user (u_id u) db' = Some u"
    using old u unfolding get_user_def db' save_user_def by (simp add: get_row_update_where)
  obtain s where s: "active_session env now' tok db = Inr s" "s_user_id s = u_id u"
    and p: "p = \<lparr>p_user_id = s_user_id s, p_session_id = s_id s, p_is_guest = False,
      p_user_type = (if u_user_type v = '''' then user_type_value NORMAL else u_user_type v)\<rparr>"
    using assms(3,4) old v(2)
    by (auto simp: authenticate_session_def split: sum.splits option.splits if_splits prod.splits bool.splits)
  have "active_session env now' tok db' = active_session env now' tok db"
    by (simp add: active_session_def db' save_user_def)
  then have keep: "authenticate_session env now' tok db' = (Inr p, db')"
    using new s p u v(2) by (simp add: authenticate_session_def)
  have same: "x = v" if "x \<in> set (users db)" "u_id x = u_id u" for x
    using unique_onD [OF assms(2) that(1) in_v] that(2) u by simp
  have "users db' = map (\<lambda>x. if x = v then u else x) (users db)"
    using same u unfolding db' save_user_def update_where_def by auto
  then have "find_user_by_email (normalize_email email) db' = Some u"
    using v(1) u find_user_by_email_SomeD [OF v(1)] by (simp add: find_user_by_email_def scalar_swap_row)
  then have "\<exists>e. fst (login env lf now'' email pw db') = Inl e"
    using u by (simp add: login_def check_login_def split: if_splits)
  with keep show ?thesis by blast
qed

section \<open>Instances\<close>

definition sample_auth :: auth_env where
  "sample_auth = \<lparr>ae_hash = (\<lambda>p. CHR ''#'' # p), ae_verify = (\<lambda>h p. h = CHR ''#'' # p), ae_digest = (\<lambda>s. s),
     ae_guest_access_enabled = False, ae_guest = sample_env, ae_notification_email = None\<rparr>"

definition empty_db :: auth_db where
  "empty_db = \<lparr>users = [], sessions = [], auth_tokens = [], guest_access_requests = [], guest_access_codes = [],
     registration_notifications = [], guest_deletion_audits = [], guest_trials = [], guest_policy_state = [],
     guest_rate_buckets = []\<rparr>"

definition sample_signup_fresh :: signup_fresh where
  "sample_signup_fresh = \<lparr>sf_user_id = ''u1'', sf_token_id = ''t1'', sf_token = ''tok1'', sf_notification_id = ''n1''\<rparr>"

definition sample_login_fresh :: login_fresh where
  "sample_login_fresh = \<lparr>lf_session_id = ''s1'', lf_session_token = ''cookie'', lf_csrf_token = ''csrf''\<rparr>"

definition sample_signup :: "(auth_error, SignupResult) res \<times> auth_db" where
  "sample_signup = signup sample_auth sample_signup_fresh 1 '' Ann@X '' ''Ann'' ''pw'' False empty_db"

definition sample_approved :: auth_db where
  "sample_approved = snd (approve_account_signup sample_auth ''t2'' ''tok2'' 2 ''ann@x'' True (snd sample_signup))"

definition sample_login :: "(auth_error, AuthenticatedSession) res \<times> auth_db" where
  "sample_login = login sample_auth sample_login_fresh 3 ''ann@x'' ''pw'' sample_approved"

definition sample_reset :: auth_db where
  "sample_reset = request_password_reset sample_auth ''t3'' ''reset'' 4 ''ann@x'' (snd sample_login)"

lemma is_ok_pair: "is_ok (fst r) \<Longrightarrow> \<exists>x. r = (Inr x, snd r)"
  by (cases r) (auto elim: is_okE)

lemma sample_runs:
  "is_ok (fst sample_signup)" "is_ok (fst sample_login)"
  "is_ok (fst (logout sample_auth 5 (Some ''cookie'') (Some ''csrf'') (snd sample_login)))"
  "is_ok (fst (update_password sample_auth 5 ''u1'' ''pw'' ''new'' (snd sample_login)))"
  "is_ok (fst (confirm_password_reset sample_auth 5 ''reset'' ''new'' sample_reset))"
  "is_ok (fst (reject_account_signup 5 ''ann@x'' (snd sample_login)))"
  by code_simp+

theorem login_authenticates_witness:
  "\<exists>auth db' p. login sample_auth sample_login_fresh 3 ''ann@x'' ''pw'' sample_approved = (Inr auth, db')
     \<and> authenticate_session sample_auth 99 (Some (as_session_token auth)) db' = (Inr p, db') \<and> \<not> p_is_guest p"
proof -
  obtain auth where run: "login sample_auth sample_login_fresh 3 ''ann@x'' ''pw'' sample_approved
      = (Inr auth, snd sample_login)"
    using is_ok_pair [OF sample_runs(2)] unfolding sample_login_def by blast
  have "unique_on u_id (users sample_approved)" "lf_session_token sample_login_fresh \<noteq> ''''"
    "ae_digest sample_auth (lf_session_token sample_login_fresh) \<notin> s_token_hash ` set (sessions sample_approved)"
    by code_simp+
  from login_authenticates [OF run this, of 99] run show ?thesis by blast
qed

theorem logout_ends_session_witness:
  "\<exists>db'. logout sample_auth 5 (Some ''cookie'') (Some ''csrf'') (snd sample_login) = (Inr (), db')
     \<and> authenticate_session sample_auth 6 (Some ''cookie'') db' = (Inl InvalidSessionError, db')"
  using is_ok_pair [OF sample_runs(3)] logout_ends_session by (metis old.unit.exhaust)

theorem password_change_revokes_witness:
  "\<exists>db'. update_password sample_auth 5 ''u1'' ''pw'' ''new'' (snd sample_login) = (Inr (), db')
     \<and> authenticate_session sample_auth 6 (Some ''cookie'') db' = (Inl InvalidSessionError, db')"
proof -
  obtain db' where run: "update_password sample_auth 5 ''u1'' ''pw'' ''new'' (snd sample_login) = (Inr (), db')"
    using is_ok_pair [OF sample_runs(4)] by (metis old.unit.exhaust)
  have "\<exists>s. scalar (\<lambda>s. s_token_hash s = ae_digest sample_auth ''cookie'') (sessions (snd sample_login)) = Some s
      \<and> s_user_id s = ''u1''" by (rule exI [of _ "hd (sessions (snd sample_login))"]) code_simp
  then show ?thesis using run password_change_revokes [OF run] by blast
qed

theorem password_reset_single_use_witness:
  "\<exists>db'. confirm_password_reset sample_auth 5 ''reset'' ''new'' sample_reset = (Inr (), db')
     \<and> confirm_password_reset sample_auth 6 ''reset'' ''newer'' db' = (Inl InvalidAuthTokenError, db')
     \<and> fst (authenticate_session sample_auth 6 (Some ''cookie'') db') = Inl InvalidSessionError"
proof -
  obtain db' where run: "confirm_password_reset sample_auth 5 ''reset'' ''new'' sample_reset = (Inr (), db')"
    using is_ok_pair [OF sample_runs(5)] by (metis old.unit.exhaust)
  have "scalar (\<lambda>s. s_token_hash s = ae_digest sample_auth ''cookie'') (sessions sample_reset)
      = Some (hd (sessions sample_reset))" by code_simp
  moreover have "s_user_id (hd (sessions sample_reset))
      \<in> t_user_id ` {t \<in> set (auth_tokens sample_reset). t_token_hash t = ae_digest sample_auth ''reset''}"
    by code_simp
  moreover have "unique_on t_token_hash (auth_tokens sample_reset)" by code_simp
  ultimately show ?thesis using run password_reset_single_use [OF run] by blast
qed

theorem account_tables_sound_witness:
  "account_keys (snd (login sample_auth sample_login_fresh 3 ''ann@x'' ''pw''
     (snd (signup sample_auth sample_signup_fresh 1 '' Ann@X '' ''Ann'' ''pw'' False empty_db))))"
proof -
  have "reachable no_accounts (account_step sample_auth) empty_db"
    by (rule reachable.start) (simp add: no_accounts_def empty_db_def)
  then have "reachable no_accounts (account_step sample_auth)
      (snd (signup sample_auth sample_signup_fresh 1 '' Ann@X '' ''Ann'' ''pw'' False empty_db))"
    by (rule reachable.next_state) (rule account_step.signup, auto simp: empty_db_def fresh_token_def)
  then have "reachable no_accounts (account_step sample_auth) (snd (login sample_auth sample_login_fresh 3 ''ann@x'' ''pw''
     (snd (signup sample_auth sample_signup_fresh 1 '' Ann@X '' ''Ann'' ''pw'' False empty_db))))"
    by (rule reachable.next_state) (rule account_step.login, code_simp)
  then show ?thesis by (rule account_tables_sound)
qed

theorem signup_approval_login_witness:
  "\<exists>res db1. signup sample_auth sample_signup_fresh 1 '' Ann@X '' ''Ann'' ''pw'' False empty_db = (Inr res, db1)
     \<and> login sample_auth sample_login_fresh 2 '' Ann@X '' ''pw'' db1 = (Inl AccountApprovalRequiredError, db1)"
proof -
  obtain res where run: "signup sample_auth sample_signup_fresh 1 '' Ann@X '' ''Ann'' ''pw'' False empty_db
      = (Inr res, snd sample_signup)"
    using is_ok_pair [OF sample_runs(1)] unfolding sample_signup_def by blast
  have "sf_user_id sample_signup_fresh \<notin> u_id ` set (users empty_db)" by (simp add: empty_db_def)
  moreover have "ae_verify sample_auth (ae_hash sample_auth p) p" for p by (simp add: sample_auth_def)
  ultimately show ?thesis using run signup_approval_login [OF run] by blast
qed

theorem reject_keeps_sessions_witness:
  "\<exists>u db' p. reject_account_signup 5 ''ann@x'' (snd sample_login) = (Inr u, db')
     \<and> authenticate_session sample_auth 6 (Some ''cookie'') db' = (Inr p, db')"
proof -
  let ?p = "\<lparr>p_user_id = ''u1'', p_session_id = ''s1'', p_is_guest = False, p_user_type = ''normal''\<rparr>"
  obtain u db' where run: "reject_account_signup 5 ''ann@x'' (snd sample_login) = (Inr u, db')"
    using is_ok_pair [OF sample_runs(6)] by blast
  have "case fst (reject_account_signup 5 ''ann@x'' (snd sample_login)) of Inl _ \<Rightarrow> False | Inr u \<Rightarrow> u_id u = ''u1''"
    by code_simp
  then have "p_user_id ?p = u_id u" using run by simp
  moreover have "authenticate_session sample_auth 6 (Some ''cookie'') (snd sample_login) = (Inr ?p, snd sample_login)"
    by (rule prod_eqI) code_simp+
  moreover have "unique_on u_id (users (snd sample_login))" by code_simp
  ultimately show ?thesis using run reject_keeps_sessions [OF run] by blast
qed

end
