(* ===== verification/Knowledge_Models.thy ===== *)
theory Knowledge_Models
  imports Agents_Prelude
begin

text \<open>
  The rows of the knowledge tables that authorization and sharing read and write
  (\<open>knowledge/models.py\<close>), as records with the models' columns, and the enumerations whose values
  those columns hold. The embedding vector column is excluded from the mapper and has no field.
\<close>

datatype KnowledgeBaseScope = PERSONAL | GROUP | SYSTEM_SCOPE

primrec scope_value :: "KnowledgeBaseScope \<Rightarrow> string" where
  "scope_value PERSONAL = ''personal''"
| "scope_value GROUP = ''group''"
| "scope_value SYSTEM_SCOPE = ''system''"

datatype KnowledgeBasePurpose = STANDARD | TEAM_UPLOAD_STAGING

primrec purpose_value :: "KnowledgeBasePurpose \<Rightarrow> string" where
  "purpose_value STANDARD = ''standard''"
| "purpose_value TEAM_UPLOAD_STAGING = ''team_upload_staging''"

record KnowledgeBaseModel =
  kb_id :: ident
  kb_name :: string
  kb_scope :: string
  kb_owner_user_id :: ident
  kb_group_id :: "ident option"
  kb_purpose :: string
  kb_created_at :: time

record DocumentModel =
  d_id :: ident
  d_title :: string
  d_content :: string
  d_source_type :: string
  d_source_filename :: "string option"
  d_source_content_type :: "string option"
  d_source_byte_size :: "int option"
  d_source_sha256 :: "string option"
  d_source_page_count :: "int option"
  d_parser_name :: "string option"
  d_original_file_id :: "ident option"
  d_ingestion_mode :: string
  d_processing_provenance_json :: "string option"
  d_processed_at :: "time option"
  d_owner_user_id :: ident
  d_group_id :: "ident option"
  d_knowledge_base_id :: ident
  d_created_at :: time

record DocumentPermissionModel =
  dp_id :: ident
  dp_document_id :: ident
  dp_user_id :: ident
  dp_can_read :: bool
  dp_can_write :: bool
  dp_can_manage :: bool
  dp_can_ingest :: bool
  dp_created_at :: time

record DocumentMetadataProfileModel =
  mp_id :: ident
  mp_document_id :: ident
  mp_extraction_run_id :: ident
  mp_generated_title :: string
  mp_description :: string
  mp_summary :: string
  mp_keywords_json :: string
  mp_topics_json :: string
  mp_entities_json :: string
  mp_language :: string
  mp_confidence :: string
  mp_generator :: string
  mp_model :: string
  mp_prompt_version :: string
  mp_search_text :: string
  mp_embedding_index_id :: "ident option"
  mp_embedding_json :: string
  mp_created_at :: time

record DocumentChunkModel =
  ch_id :: ident
  ch_document_id :: ident
  ch_extraction_run_id :: ident
  ch_ordinal :: int
  ch_content :: string
  ch_start_offset :: int
  ch_end_offset :: int
  ch_source_page :: "int option"
  ch_source_location_json :: "string option"
  ch_embedding_index_id :: "ident option"
  ch_embedding_json :: string

record EntityMentionModel =
  em_id :: ident
  em_entity_id :: ident
  em_chunk_id :: ident
  em_document_id :: ident
  em_extraction_run_id :: ident
  em_confidence :: string

record StructuredKnowledgeEntityModel =
  se_id :: ident
  se_document_id :: ident
  se_chunk_id :: ident
  se_extraction_run_id :: ident
  se_entity_type :: string
  se_label :: string
  se_attributes_json :: string
  se_source_page :: "int option"
  se_source_location_json :: "string option"
  se_start_offset :: int
  se_end_offset :: int
  se_confidence :: string
  se_created_at :: time

text \<open>
  A refused request: the status and detail of the \<open>HTTPException\<close>, or an exception the route does
  not handle.
\<close>

datatype http_error = HTTPException nat string | UncaughtError

end
