(* ===== verification/Group_Invitations.thy ===== *)
theory Group_Invitations
  imports Auth_Service Knowledge_Models
begin

text \<open>
  Groups, memberships and email invitations (\<open>groups/models.py\<close>, \<open>groups/service.py\<close>),
  with the two routes of \<open>api/groups.py\<close> that write memberships directly. The group tables extend
  the account tables, since accepting an invitation may create an account; creating a group also
  creates its knowledge base.
  \<open>flush\<close> checks the constraints the models declare: a violated one is an \<open>IntegrityError\<close>,
  which the operations translate. Sending the invitation mail happens before the commit, so a failing
  sender (\<open>gi_send_ok\<close> false) rolls the operation back.
\<close>

section \<open>Models\<close>

datatype MembershipRole = OWNER | ADMIN | EDITOR | VIEWER

primrec role_value :: "MembershipRole \<Rightarrow> string" where
  "role_value OWNER = ''owner''"
| "role_value ADMIN = ''admin''"
| "role_value EDITOR = ''editor''"
| "role_value VIEWER = ''viewer''"

datatype GroupInvitationStatus = PENDING | ACCEPTED | CANCELLED | EXPIRED

primrec invitation_status_value :: "GroupInvitationStatus \<Rightarrow> string" where
  "invitation_status_value PENDING = ''pending''"
| "invitation_status_value ACCEPTED = ''accepted''"
| "invitation_status_value CANCELLED = ''cancelled''"
| "invitation_status_value EXPIRED = ''expired''"

record GroupModel =
  g_id :: ident
  g_name :: string
  g_created_by_user_id :: ident
  g_created_at :: time

record MembershipModel =
  m_id :: ident
  m_group_id :: ident
  m_user_id :: ident
  m_role :: string
  m_created_at :: time

record GroupInvitationModel =
  i_id :: ident
  i_group_id :: ident
  i_invited_email_normalized :: string
  i_role :: string
  i_status :: string
  i_token_hash :: string
  i_created_by_user_id :: ident
  i_accepted_by_user_id :: "ident option"
  i_created_at :: time
  i_expires_at :: time
  i_accepted_at :: "time option"
  i_cancelled_at :: "time option"
  i_resent_at :: "time option"

record groups_db = auth_db +
  groups :: "GroupModel list"
  memberships :: "MembershipModel list"
  group_invitations :: "GroupInvitationModel list"
  knowledge_bases :: "KnowledgeBaseModel list"

definition pending :: "GroupInvitationModel \<Rightarrow> bool" where
  "pending i \<longleftrightarrow> i_status i = invitation_status_value PENDING"

definition invitation_keys :: "GroupInvitationModel list \<Rightarrow> bool" where
  "invitation_keys rs \<longleftrightarrow> unique_on i_id rs \<and> unique_on i_token_hash rs
     \<and> unique_on (\<lambda>i. (i_group_id i, i_invited_email_normalized i)) (filter pending rs)"

definition membership_keys :: "MembershipModel list \<Rightarrow> bool" where
  "membership_keys rs \<longleftrightarrow> unique_on m_id rs \<and> unique_on (\<lambda>m. (m_group_id m, m_user_id m)) rs"

datatype group_error =
    PendingInvitationExistsError
  | InvitationNotFoundError
  | InvitationNotPendingError
  | InvalidInvitationTokenError
  | InvitationAccountExistsError
  | GroupMembershipPermissionError
  | BlankEmailError
  | IntegrityError
  | MultipleResultsFound
  | InvitationSendError
  | SignupIdentityError auth_error

record group_env =
  gi_auth :: auth_env
  gi_ttl :: time
  gi_send_ok :: "string \<Rightarrow> string \<Rightarrow> bool"

definition DEFAULT_GROUP_INVITATION_TTL :: time where
  "DEFAULT_GROUP_INVITATION_TTL = days 7"

record GroupMemberDisplay =
  gm_membership :: MembershipModel
  gm_nickname :: string

record GroupInvitationSignupResult =
  gs_authenticated :: AuthenticatedSession
  gs_member :: GroupMemberDisplay

section \<open>Shared lookups and guards\<close>

definition normalize_invitation_email :: "string \<Rightarrow> (group_error, string) res" where
  "normalize_invitation_email email =
     (let normalized = py_casefold (py_strip email)
      in if normalized = '''' then Inl BlankEmailError else Inr normalized)"

definition get_group_and_membership ::
  "ident \<Rightarrow> ident \<Rightarrow> 'a groups_db_scheme \<Rightarrow> (group_error, GroupModel \<times> MembershipModel) res" where
  "get_group_and_membership group_id user_id db =
     (case concat (map (\<lambda>g. map (Pair g) (filter (\<lambda>m. m_group_id m = g_id g \<and> m_user_id m = user_id) (memberships db)))
             (filter (\<lambda>g. g_id g = group_id) (groups db))) of
        [] \<Rightarrow> Inl InvitationNotFoundError
      | [row] \<Rightarrow> Inr row
      | _ \<Rightarrow> Inl MultipleResultsFound)"

definition require_group_manager ::
  "ident \<Rightarrow> ident \<Rightarrow> 'a groups_db_scheme \<Rightarrow> (group_error, MembershipModel) res" where
  "require_group_manager group_id user_id db =
     (case get_group_and_membership group_id user_id db of
        Inl e \<Rightarrow> Inl e
      | Inr (g, m) \<Rightarrow>
          if m_role m \<in> {role_value OWNER, role_value ADMIN} then Inr m
          else Inl GroupMembershipPermissionError)"

definition get_invitation ::
  "ident \<Rightarrow> ident \<Rightarrow> 'a groups_db_scheme \<Rightarrow> (group_error, GroupInvitationModel) res" where
  "get_invitation group_id invitation_id db =
     (case get_row i_id invitation_id (group_invitations db) of
        None \<Rightarrow> Inl InvitationNotFoundError
      | Some i \<Rightarrow> if i_group_id i \<noteq> group_id then Inl InvitationNotFoundError else Inr i)"

definition require_pending :: "GroupInvitationModel \<Rightarrow> (group_error, unit) res" where
  "require_pending i = (if pending i then Inr () else Inl InvitationNotPendingError)"

text \<open>The three guards that open every managing operation on one invitation.\<close>

definition managed_invitation ::
  "ident \<Rightarrow> ident \<Rightarrow> ident \<Rightarrow> 'a groups_db_scheme \<Rightarrow> (group_error, GroupInvitationModel) res" where
  "managed_invitation group_id invitation_id actor db =
     (case require_group_manager group_id actor db of
        Inl e \<Rightarrow> Inl e
      | Inr _ \<Rightarrow>
          (case get_invitation group_id invitation_id db of
             Inl e \<Rightarrow> Inl e
           | Inr i \<Rightarrow> (case require_pending i of Inl e \<Rightarrow> Inl e | Inr _ \<Rightarrow> Inr i)))"

definition save_invitation :: "GroupInvitationModel \<Rightarrow> 'a groups_db_scheme \<Rightarrow> 'a groups_db_scheme" where
  "save_invitation i db =
     db\<lparr>group_invitations := update_where (\<lambda>r. i_id r = i_id i) (\<lambda>_. i) (group_invitations db)\<rparr>"

definition invitation_for_token ::
  "group_env \<Rightarrow> string \<Rightarrow> 'a groups_db_scheme \<Rightarrow> GroupInvitationModel option" where
  "invitation_for_token env token db =
     (let stripped = py_strip token
      in if stripped = '''' then None
         else scalar (\<lambda>i. i_token_hash i = ae_digest (gi_auth env) stripped) (group_invitations db))"

text \<open>A pending invitation found past its expiry is committed as expired before the refusal.\<close>

definition pending_invitation_for_token ::
  "group_env \<Rightarrow> time \<Rightarrow> string \<Rightarrow> 'a groups_db_scheme
    \<Rightarrow> (group_error, GroupInvitationModel) res \<times> 'a groups_db_scheme" where
  "pending_invitation_for_token env now token db =
     (case invitation_for_token env token db of
        None \<Rightarrow> (Inl InvalidInvitationTokenError, db)
      | Some i \<Rightarrow>
          if \<not> pending i then (Inl InvalidInvitationTokenError, db)
          else if i_expires_at i \<le> now
          then (Inl InvalidInvitationTokenError,
                save_invitation (i\<lparr>i_status := invitation_status_value EXPIRED\<rparr>) db)
          else (Inr i, db))"

section \<open>Managing invitations\<close>

definition new_pending_invitation ::
  "group_env \<Rightarrow> ident \<Rightarrow> string \<Rightarrow> time \<Rightarrow> ident \<Rightarrow> string \<Rightarrow> MembershipRole \<Rightarrow> ident \<Rightarrow> GroupInvitationModel" where
  "new_pending_invitation env new_id token now group_id email role created_by =
     \<lparr>i_id = new_id, i_group_id = group_id, i_invited_email_normalized = email, i_role = role_value role,
      i_status = invitation_status_value PENDING, i_token_hash = ae_digest (gi_auth env) token,
      i_created_by_user_id = created_by, i_accepted_by_user_id = None, i_created_at = now,
      i_expires_at = now + gi_ttl env, i_accepted_at = None, i_cancelled_at = None, i_resent_at = None\<rparr>"

definition assert_no_pending_invitation ::
  "ident \<Rightarrow> string \<Rightarrow> 'a groups_db_scheme \<Rightarrow> (group_error, unit) res" where
  "assert_no_pending_invitation group_id email db =
     (case scalar (\<lambda>i. i_group_id i = group_id \<and> i_invited_email_normalized i = email \<and> pending i)
             (group_invitations db) of
        Some _ \<Rightarrow> Inl PendingInvitationExistsError
      | None \<Rightarrow> Inr ())"

definition create_invitation ::
  "group_env \<Rightarrow> ident \<Rightarrow> string \<Rightarrow> time \<Rightarrow> ident \<Rightarrow> string \<Rightarrow> MembershipRole \<Rightarrow> ident \<Rightarrow> 'a groups_db_scheme
    \<Rightarrow> (group_error, GroupInvitationModel) res \<times> 'a groups_db_scheme" where
  "create_invitation env new_id token now group_id invited_email role actor db =
     (case require_group_manager group_id actor db of
        Inl e \<Rightarrow> (Inl e, db)
      | Inr _ \<Rightarrow>
          (case normalize_invitation_email invited_email of
             Inl e \<Rightarrow> (Inl e, db)
           | Inr email \<Rightarrow>
               (case assert_no_pending_invitation group_id email db of
                  Inl e \<Rightarrow> (Inl e, db)
                | Inr _ \<Rightarrow>
                    let i = new_pending_invitation env new_id token now group_id email role actor;
                        rows = insert_row i (group_invitations db)
                    in if \<not> invitation_keys rows then (Inl PendingInvitationExistsError, db)
                       else if \<not> gi_send_ok env email token then (Inl InvitationSendError, db)
                       else (Inr i, db\<lparr>group_invitations := rows\<rparr>))))"

definition list_group_invitations ::
  "ident \<Rightarrow> ident \<Rightarrow> 'a groups_db_scheme \<Rightarrow> (group_error, GroupInvitationModel list) res" where
  "list_group_invitations group_id actor db =
     (case require_group_manager group_id actor db of
        Inl e \<Rightarrow> Inl e
      | Inr _ \<Rightarrow> Inr (rev (sort_key (\<lambda>i. (i_created_at i, i_id i))
                  (scalars (\<lambda>i. i_group_id i = group_id) (group_invitations db)))))"

definition update_pending_invitation_role ::
  "ident \<Rightarrow> ident \<Rightarrow> MembershipRole \<Rightarrow> ident \<Rightarrow> 'a groups_db_scheme
    \<Rightarrow> (group_error, GroupInvitationModel) res \<times> 'a groups_db_scheme" where
  "update_pending_invitation_role group_id invitation_id role actor db =
     (case managed_invitation group_id invitation_id actor db of
        Inl e \<Rightarrow> (Inl e, db)
      | Inr i \<Rightarrow> let i' = i\<lparr>i_role := role_value role\<rparr> in (Inr i', save_invitation i' db))"

definition resend_pending_invitation ::
  "group_env \<Rightarrow> string \<Rightarrow> time \<Rightarrow> ident \<Rightarrow> ident \<Rightarrow> ident \<Rightarrow> 'a groups_db_scheme
    \<Rightarrow> (group_error, GroupInvitationModel) res \<times> 'a groups_db_scheme" where
  "resend_pending_invitation env token now group_id invitation_id actor db =
     (case managed_invitation group_id invitation_id actor db of
        Inl e \<Rightarrow> (Inl e, db)
      | Inr i \<Rightarrow>
          let i' = i\<lparr>i_token_hash := ae_digest (gi_auth env) token, i_expires_at := now + gi_ttl env,
                     i_resent_at := Some now\<rparr>;
              db' = save_invitation i' db
          in if \<not> invitation_keys (group_invitations db') then (Inl IntegrityError, db)
             else if \<not> gi_send_ok env (i_invited_email_normalized i) token then (Inl InvitationSendError, db)
             else (Inr i', db'))"

definition cancel_pending_invitation ::
  "time \<Rightarrow> ident \<Rightarrow> ident \<Rightarrow> ident \<Rightarrow> 'a groups_db_scheme
    \<Rightarrow> (group_error, GroupInvitationModel) res \<times> 'a groups_db_scheme" where
  "cancel_pending_invitation now group_id invitation_id actor db =
     (case managed_invitation group_id invitation_id actor db of
        Inl e \<Rightarrow> (Inl e, db)
      | Inr i \<Rightarrow>
          let i' = i\<lparr>i_status := invitation_status_value CANCELLED, i_cancelled_at := Some now\<rparr>
          in (Inr i', save_invitation i' db))"

definition list_group_members ::
  "ident \<Rightarrow> ident \<Rightarrow> 'a groups_db_scheme \<Rightarrow> (group_error, GroupMemberDisplay list) res" where
  "list_group_members group_id actor db =
     (case require_group_manager group_id actor db of
        Inl e \<Rightarrow> Inl e
      | Inr _ \<Rightarrow>
          Inr (concat (map (\<lambda>m. map (\<lambda>u. \<lparr>gm_membership = m, gm_nickname = u_nickname u\<rparr>)
                                   (filter (\<lambda>u. u_id u = m_user_id m) (users db)))
                 (sort_key (\<lambda>m. (m_created_at m, m_id m))
                    (scalars (\<lambda>m. m_group_id m = group_id) (memberships db))))))"

section \<open>Accepting invitations\<close>

text \<open>Joining the group; \<open>None\<close> when the new membership violates a constraint.\<close>

definition accept_pending_invitation ::
  "ident \<Rightarrow> time \<Rightarrow> GroupInvitationModel \<Rightarrow> UserModel \<Rightarrow> 'a groups_db_scheme
    \<Rightarrow> (GroupMemberDisplay \<times> 'a groups_db_scheme) option" where
  "accept_pending_invitation new_id now i user db =
     (let accepted = i\<lparr>i_status := invitation_status_value ACCEPTED, i_accepted_by_user_id := Some (u_id user),
                       i_accepted_at := Some now\<rparr>
      in case scalar (\<lambda>m. m_group_id m = i_group_id i \<and> m_user_id m = u_id user) (memberships db) of
           Some m \<Rightarrow> Some (\<lparr>gm_membership = m, gm_nickname = u_nickname user\<rparr>, save_invitation accepted db)
         | None \<Rightarrow>
             let m = \<lparr>m_id = new_id, m_group_id = i_group_id i, m_user_id = u_id user, m_role = i_role i,
                      m_created_at = now\<rparr>;
                 rows = insert_row m (memberships db)
             in if \<not> membership_keys rows then None
                else Some (\<lparr>gm_membership = m, gm_nickname = u_nickname user\<rparr>,
                           save_invitation accepted (db\<lparr>memberships := rows\<rparr>)))"

definition accept_invitation ::
  "group_env \<Rightarrow> ident \<Rightarrow> time \<Rightarrow> string \<Rightarrow> ident \<Rightarrow> 'a groups_db_scheme
    \<Rightarrow> (group_error, GroupMemberDisplay) res \<times> 'a groups_db_scheme" where
  "accept_invitation env new_id now token actor db =
     (case pending_invitation_for_token env now token db of
        (Inl e, db0) \<Rightarrow> (Inl e, db0)
      | (Inr i, db0) \<Rightarrow>
          (case get_user actor db0 of
             None \<Rightarrow> (Inl InvalidInvitationTokenError, db0)
           | Some user \<Rightarrow>
               if u_email_verified_at user = None then (Inl InvalidInvitationTokenError, db0)
               else
                 (case normalize_invitation_email (u_email user) of
                    Inl e \<Rightarrow> (Inl e, db0)
                  | Inr email \<Rightarrow>
                      if email \<noteq> i_invited_email_normalized i then (Inl InvalidInvitationTokenError, db0)
                      else (case accept_pending_invitation new_id now i user db0 of
                              None \<Rightarrow> (Inl InvalidInvitationTokenError, db0)
                            | Some (member, db1) \<Rightarrow> (Inr member, db1)))))"

record invitation_signup_fresh =
  is_user_id :: ident
  is_session_id :: ident
  is_session_token :: string
  is_csrf_token :: string
  is_membership_id :: ident
  is_notification_id :: ident

definition invited_user :: "auth_env \<Rightarrow> ident \<Rightarrow> time \<Rightarrow> string \<Rightarrow> string \<Rightarrow> string \<Rightarrow> UserModel" where
  "invited_user env new_id now email nickname password =
     \<lparr>u_id = new_id, u_email = email, u_nickname = nickname, u_password_hash = ae_hash env password,
      u_email_verified_at = Some now, u_approval_status = ''approved'', u_approved_at = Some now,
      u_rejected_at = None, u_account_type = ''registered'', u_assistant_model_preference = None,
      u_document_retrieval_priority = ''automatic'', u_document_ingestion_mode = ''standard'',
      u_summarization_model_preference = None, u_user_type = user_type_value NORMAL,
      u_guest_expires_at = None, u_created_at = now\<rparr>"

text \<open>The constraints on the account rows the new-user acceptance writes.\<close>

definition account_constraints :: "'a auth_db_scheme \<Rightarrow> bool" where
  "account_constraints db \<longleftrightarrow> unique_on u_id (users db) \<and> unique_on u_email (users db)
     \<and> unique_on s_id (sessions db) \<and> unique_on s_token_hash (sessions db)
     \<and> unique_on n_id (registration_notifications db) \<and> unique_on n_user_id (registration_notifications db)"

definition accept_invitation_with_new_user ::
  "group_env \<Rightarrow> invitation_signup_fresh \<Rightarrow> time \<Rightarrow> string \<Rightarrow> string \<Rightarrow> string \<Rightarrow> 'a groups_db_scheme
    \<Rightarrow> (group_error, GroupInvitationSignupResult) res \<times> 'a groups_db_scheme" where
  "accept_invitation_with_new_user env fresh now token nickname password db =
     (case pending_invitation_for_token env now token db of
        (Inl e, db0) \<Rightarrow> (Inl e, db0)
      | (Inr i, db0) \<Rightarrow>
          let auth = gi_auth env
          in case lock_signup_identity (ge_hmac (ae_guest auth)) (ae_guest_access_enabled auth)
                    (ge_key (ae_guest auth)) now (i_invited_email_normalized i) db0 of
               (Inl e, _) \<Rightarrow> (Inl (SignupIdentityError e), db0)
             | (Inr _, db1) \<Rightarrow>
                 (case find_user_by_email (i_invited_email_normalized i) db1 of
                    Some _ \<Rightarrow> (Inl InvitationAccountExistsError, db0)
                  | None \<Rightarrow>
                      let user = invited_user auth (is_user_id fresh) now (i_invited_email_normalized i) nickname password;
                          session = \<lparr>s_id = is_session_id fresh, s_user_id = u_id user,
                            s_token_hash = ae_digest auth (is_session_token fresh),
                            s_csrf_token_hash = ae_digest auth (is_csrf_token fresh), s_created_at = now,
                            s_expires_at = None, s_revoked_at = None\<rparr>
                      in case accept_pending_invitation (is_membership_id fresh) now i user
                                (db1\<lparr>users := insert_row user (users db1)\<rparr>) of
                           None \<Rightarrow> (Inl InvalidInvitationTokenError, db0)
                         | Some (member, db2) \<Rightarrow>
                             let db3 = enqueue_registration (is_notification_id fresh) now user
                                         (ae_notification_email auth) (Some (u_email user)) invitation_signup
                                         (db2\<lparr>sessions := insert_row session (sessions db2)\<rparr>)
                             in if \<not> account_constraints db3 then (Inl InvalidInvitationTokenError, db0)
                                else (Inr \<lparr>gs_authenticated = \<lparr>as_user = user, as_session = session,
                                             as_session_token = is_session_token fresh,
                                             as_csrf_token = is_csrf_token fresh\<rparr>,
                                           gs_member = member\<rparr>, db3)))"

section \<open>Routes that write memberships\<close>

record group_fresh =
  gf_group_id :: ident
  gf_membership_id :: ident
  gf_knowledge_base_id :: ident

definition default_group_knowledge_base_name :: "string \<Rightarrow> string" where
  "default_group_knowledge_base_name group_name = group_name @ '' Knowledge''"

definition create_group ::
  "group_fresh \<Rightarrow> time \<Rightarrow> string \<Rightarrow> Principal \<Rightarrow> 'a groups_db_scheme
    \<Rightarrow> (http_error, GroupModel) res \<times> 'a groups_db_scheme" where
  "create_group fresh now name actor db =
     (let group_name = py_strip name;
          group = \<lparr>g_id = gf_group_id fresh, g_name = group_name, g_created_by_user_id = p_user_id actor,
                   g_created_at = now\<rparr>;
          membership = \<lparr>m_id = gf_membership_id fresh, m_group_id = g_id group, m_user_id = p_user_id actor,
                        m_role = role_value OWNER, m_created_at = now\<rparr>;
          kb = \<lparr>kb_id = gf_knowledge_base_id fresh, kb_name = default_group_knowledge_base_name group_name,
                kb_scope = scope_value GROUP, kb_owner_user_id = p_user_id actor,
                kb_group_id = Some (g_id group), kb_purpose = purpose_value STANDARD, kb_created_at = now\<rparr>;
          db' = db\<lparr>groups := insert_row group (groups db), memberships := insert_row membership (memberships db),
                   knowledge_bases := insert_row kb (knowledge_bases db)\<rparr>
      in if unique_on g_id (groups db') \<and> membership_keys (memberships db') \<and> unique_on kb_id (knowledge_bases db')
         then (Inr group, db') else (Inl UncaughtError, db))"

definition api_require_group_manager ::
  "ident \<Rightarrow> ident \<Rightarrow> 'a groups_db_scheme \<Rightarrow> (http_error, MembershipModel) res" where
  "api_require_group_manager group_id user_id db =
     (case get_group_and_membership group_id user_id db of
        Inl InvitationNotFoundError \<Rightarrow> Inl (HTTPException 404 ''group not found'')
      | Inl _ \<Rightarrow> Inl UncaughtError
      | Inr (g, m) \<Rightarrow>
          if m_role m \<in> {role_value OWNER, role_value ADMIN} then Inr m
          else Inl (HTTPException 403 ''not allowed''))"

definition update_member ::
  "ident \<Rightarrow> ident \<Rightarrow> MembershipRole \<Rightarrow> Principal \<Rightarrow> 'a groups_db_scheme
    \<Rightarrow> (http_error, unit) res \<times> 'a groups_db_scheme" where
  "update_member group_id user_id role actor db =
     (case api_require_group_manager group_id (p_user_id actor) db of
        Inl e \<Rightarrow> (Inl e, db)
      | Inr _ \<Rightarrow>
          (case scalar (\<lambda>m. m_group_id m = group_id \<and> m_user_id m = user_id) (memberships db) of
             None \<Rightarrow> (Inl (HTTPException 404 ''member not found''), db)
           | Some m \<Rightarrow> (Inr (), db\<lparr>memberships := update_where (\<lambda>r. m_id r = m_id m)
                                  (\<lambda>r. r\<lparr>m_role := role_value role\<rparr>) (memberships db)\<rparr>)))"

section \<open>What the guards establish\<close>

definition is_manager :: "ident \<Rightarrow> ident \<Rightarrow> 'a groups_db_scheme \<Rightarrow> bool" where
  "is_manager group_id user_id db \<longleftrightarrow>
     (\<exists>m \<in> set (memberships db). m_group_id m = group_id \<and> m_user_id m = user_id
        \<and> m_role m \<in> {role_value OWNER, role_value ADMIN})"

lemma get_group_and_membership_ok:
  "get_group_and_membership gid uid db = Inr (g, m)
    \<Longrightarrow> g \<in> set (groups db) \<and> g_id g = gid \<and> m \<in> set (memberships db) \<and> m_group_id m = gid \<and> m_user_id m = uid"
proof -
  let ?rows = "concat (map (\<lambda>g. map (Pair g) (filter (\<lambda>m. m_group_id m = g_id g \<and> m_user_id m = uid) (memberships db)))
             (filter (\<lambda>g. g_id g = gid) (groups db)))"
  assume "get_group_and_membership gid uid db = Inr (g, m)"
  then have "?rows = [(g, m)]" by (auto simp: get_group_and_membership_def split: list.splits)
  then have "(g, m) \<in> set ?rows" by (simp only: list.set_intros)
  then show ?thesis by auto
qed

lemma require_group_manager_ok: "require_group_manager gid uid db = Inr m \<Longrightarrow> is_manager gid uid db"
  by (auto simp: require_group_manager_def is_manager_def split: sum.splits prod.splits if_splits
      dest!: get_group_and_membership_ok)

lemma managed_invitation_ok:
  assumes "managed_invitation gid iid actor db = Inr i"
  shows "i \<in> set (group_invitations db)" and "i_id i = iid" and "i_group_id i = gid" and "pending i"
    and "is_manager gid actor db"
  using assms
  by (auto simp: managed_invitation_def get_invitation_def require_pending_def
      split: sum.splits option.splits if_splits dest!: require_group_manager_ok get_row_SomeD)

lemma pending_invitation_ok:
  assumes "pending_invitation_for_token env now token db = (Inr i, db0)"
  shows "db0 = db" and "i \<in> set (group_invitations db)" and "pending i" and "now < i_expires_at i"
    and "i_token_hash i = ae_digest (gi_auth env) (py_strip token)"
    and "invitation_for_token env token db = Some i"
  using assms
  by (auto simp: pending_invitation_for_token_def invitation_for_token_def Let_def
      split: option.splits if_splits dest!: scalar_SomeD)

lemma pending_invitation_failed:
  assumes "pending_invitation_for_token env now token db = (Inl e, db0)"
  shows "db0 = db \<or> (\<exists>i \<in> set (group_invitations db). pending i \<and> i_expires_at i \<le> now
    \<and> db0 = save_invitation (i\<lparr>i_status := invitation_status_value EXPIRED\<rparr>) db)"
  using assms
  by (auto simp: pending_invitation_for_token_def invitation_for_token_def Let_def
      split: option.splits if_splits dest!: scalar_SomeD)

lemma groups_more:
  fixes a b :: "'a groups_db_scheme"
  assumes "auth_db.more a = auth_db.more b"
  shows "groups a = groups b" "memberships a = memberships b" "group_invitations a = group_invitations b"
    "knowledge_bases a = knowledge_bases b"
  using assms by (cases a; cases b; simp)+

lemma lock_signup_groups:
  fixes db db' :: "'a groups_db_scheme"
  assumes "lock_signup_identity hmac en key now email db = (r, db')"
  shows "groups db' = groups db" "memberships db' = memberships db" "group_invitations db' = group_invitations db"
proof -
  have "auth_db.more db' = auth_db.more db"
    using same_keys_lock_signup [of db hmac en key now email] assms by (simp add: same_keys_def)
  then show "groups db' = groups db" "memberships db' = memberships db" "group_invitations db' = group_invitations db"
    by (rule groups_more)+
qed

lemma enqueue_registration_groups:
  fixes db :: "'a groups_db_scheme"
  shows "memberships (enqueue_registration i now u r e k db) = memberships db"
    "group_invitations (enqueue_registration i now u r e k db) = group_invitations db"
    "groups (enqueue_registration i now u r e k db) = groups db"
    "users (enqueue_registration i now u r e k db) = users db"
  by (auto simp: enqueue_registration_def split: option.splits)

section \<open>Invariants of the invitation lifecycle\<close>

definition accepted_are_members :: "'a groups_db_scheme \<Rightarrow> bool" where
  "accepted_are_members db \<longleftrightarrow>
     (\<forall>i \<in> set (group_invitations db). i_status i = invitation_status_value ACCEPTED \<longrightarrow>
        (\<exists>m \<in> set (memberships db). m_group_id m = i_group_id i \<and> Some (m_user_id m) = i_accepted_by_user_id i))"

definition invited_normal :: "GroupInvitationModel \<Rightarrow> bool" where
  "invited_normal i \<longleftrightarrow>
     normalize_invitation_email (i_invited_email_normalized i) = Inr (i_invited_email_normalized i)"

definition groups_inv :: "'a groups_db_scheme \<Rightarrow> bool" where
  "groups_inv db \<longleftrightarrow> invitation_keys (group_invitations db) \<and> membership_keys (memberships db)
     \<and> accepted_are_members db \<and> (\<forall>i \<in> set (group_invitations db). invited_normal i)"

lemma normalize_invitation_idem:
  "normalize_invitation_email e = Inr n \<Longrightarrow> normalize_invitation_email n = Inr n"
  by (auto simp: normalize_invitation_email_def Let_def split: if_splits)

lemma invited_normal_same:
  "i_invited_email_normalized i' = i_invited_email_normalized i \<Longrightarrow> invited_normal i' = invited_normal i"
  by (simp add: invited_normal_def)

lemma distinct_filter_map:
  assumes "\<And>r. r \<in> set rs \<Longrightarrow> P (f r) \<Longrightarrow> P r \<and> key (f r) = key r"
    and "distinct (map key (filter P rs))"
  shows "distinct (map key (filter P (map f rs)))"
  using assms
proof (induction rs)
  case Nil
  show ?case by simp
next
  case (Cons r rs)
  have "key ` {x \<in> f ` set rs. P x} \<subseteq> key ` {x \<in> set rs. P x}"
  proof
    fix k assume "k \<in> key ` {x \<in> f ` set rs. P x}"
    then obtain x where x: "x \<in> set rs" "P (f x)" "k = key (f x)" by blast
    then have "P x" "key (f x) = key x" using Cons.prems(1) [of x] by auto
    then show "k \<in> key ` {x \<in> set rs. P x}" using x by auto
  qed
  then show ?case using Cons.IH Cons.prems by (auto split: if_splits)
qed

lemma update_where_id:
  assumes "unique_on i_id rs" and "i \<in> set rs"
  shows "update_where (\<lambda>r. i_id r = i_id i) f rs = map (\<lambda>r. if r = i then f r else r) rs"
  unfolding update_where_def using assms by (intro map_cong) (auto dest: unique_onD)

lemma invitation_keys_save:
  assumes "invitation_keys rs" and "i \<in> set rs" and "i_id i' = i_id i" and "i_token_hash i' = i_token_hash i"
    and "i_group_id i' = i_group_id i" and "i_invited_email_normalized i' = i_invited_email_normalized i" and "pending i"
  shows "invitation_keys (update_where (\<lambda>r. i_id r = i_id i) (\<lambda>_. i') rs)"
proof -
  let ?f = "\<lambda>r. if r = i then i' else r"
  have up: "update_where (\<lambda>r. i_id r = i_id i) (\<lambda>_. i') rs = map ?f rs"
    using update_where_id [of rs i "\<lambda>_. i'"] assms(1,2) by (simp add: invitation_keys_def)
  have "map i_id (map ?f rs) = map i_id rs" "map i_token_hash (map ?f rs) = map i_token_hash rs"
    using assms(3,4) by simp_all
  moreover have "distinct (map (\<lambda>i. (i_group_id i, i_invited_email_normalized i)) (filter pending (map ?f rs)))"
    using assms by (intro distinct_filter_map) (auto simp: invitation_keys_def unique_on_def split: if_splits)
  ultimately show ?thesis using assms(1) unfolding up invitation_keys_def unique_on_def by (simp del: map_map)
qed

lemma accepted_are_members_save:
  assumes "accepted_are_members db" and "memberships db' = memberships db"
    and "set (group_invitations db') \<subseteq> insert i' (set (group_invitations db))"
    and "i_status i' \<noteq> invitation_status_value ACCEPTED"
  shows "accepted_are_members db'"
  using assms unfolding accepted_are_members_def by auto

lemma save_invitation_frame [simp]:
  "memberships (save_invitation i db) = memberships db" "groups (save_invitation i db) = groups db"
  "users (save_invitation i db) = users db" "sessions (save_invitation i db) = sessions db"
  "group_invitations (save_invitation i db)
     = update_where (\<lambda>r. i_id r = i_id i) (\<lambda>_. i) (group_invitations db)"
  by (simp_all add: save_invitation_def)

lemma set_save: "set (update_where p (\<lambda>_. i) rs) \<subseteq> insert i (set rs)"
  by (auto simp: set_update_where)

lemma groups_inv_save:
  assumes "groups_inv db" and "i \<in> set (group_invitations db)" and "pending i" and "i_id i' = i_id i"
    and "i_token_hash i' = i_token_hash i" and "i_group_id i' = i_group_id i"
    and "i_invited_email_normalized i' = i_invited_email_normalized i"
    and "i_status i' \<noteq> invitation_status_value ACCEPTED"
  shows "groups_inv (save_invitation i' db)"
  using assms invitation_keys_save [of "group_invitations db" i i'] set_save [of _ i' "group_invitations db"]
    accepted_are_members_save [of db "save_invitation i' db" i'] invited_normal_same [of i' i]
  by (auto simp: groups_inv_def)

lemma accept_pending_ok:
  assumes "accept_pending_invitation new_id now i user db = Some (member, db')"
  shows "m_group_id (gm_membership member) = i_group_id i" and "m_user_id (gm_membership member) = u_id user"
    and "gm_membership member \<in> set (memberships db')"
    and "memberships db' = memberships db
      \<or> (memberships db' = insert_row (gm_membership member) (memberships db) \<and> membership_keys (memberships db')
          \<and> m_role (gm_membership member) = i_role i)"
    and "group_invitations db' = update_where (\<lambda>r. i_id r = i_id i)
      (\<lambda>_. i\<lparr>i_status := invitation_status_value ACCEPTED, i_accepted_by_user_id := Some (u_id user),
             i_accepted_at := Some now\<rparr>) (group_invitations db)"
    and "users db' = users db" and "sessions db' = sessions db" and "groups db' = groups db"
  using assms
  by (auto simp: accept_pending_invitation_def Let_def split: option.splits if_splits dest: scalar_SomeD)

lemma groups_inv_accept:
  assumes "groups_inv db" and "i \<in> set (group_invitations db)" and "pending i"
    and "accept_pending_invitation new_id now i user db = Some (member, db')"
  shows "groups_inv db'"
proof -
  let ?a = "i\<lparr>i_status := invitation_status_value ACCEPTED, i_accepted_by_user_id := Some (u_id user),
             i_accepted_at := Some now\<rparr>"
  note ok = accept_pending_ok [OF assms(4)]
  have "invitation_keys (group_invitations db')"
    using invitation_keys_save [of "group_invitations db" i ?a] assms(1-3) ok(5) by (simp add: groups_inv_def)
  moreover have "membership_keys (memberships db')" using ok(4) assms(1) by (auto simp: groups_inv_def)
  moreover have "\<forall>j \<in> set (group_invitations db'). invited_normal j"
    using ok(5) set_save [of _ ?a "group_invitations db"] invited_normal_same [of ?a i] assms(1,2)
    by (auto simp: groups_inv_def)
  moreover have "accepted_are_members db'"
    unfolding accepted_are_members_def
  proof (intro ballI impI)
    fix j assume j: "j \<in> set (group_invitations db')" "i_status j = invitation_status_value ACCEPTED"
    have sub: "set (memberships db) \<subseteq> set (memberships db')" using ok(4) by auto
    have "j = ?a \<or> j \<in> set (group_invitations db)" using j(1) ok(5) set_save [of _ ?a "group_invitations db"] by auto
    then show "\<exists>m \<in> set (memberships db'). m_group_id m = i_group_id j \<and> Some (m_user_id m) = i_accepted_by_user_id j"
    proof
      assume "j = ?a"
      then show ?thesis using ok(1-3) by (intro bexI [of _ "gm_membership member"]) auto
    next
      assume "j \<in> set (group_invitations db)"
      then show ?thesis using j(2) sub assms(1) unfolding groups_inv_def accepted_are_members_def by blast
    qed
  qed
  ultimately show ?thesis by (simp add: groups_inv_def)
qed

section \<open>The operations, step by step\<close>

inductive invitation_step :: "group_env \<Rightarrow> 'a groups_db_scheme \<Rightarrow> 'a groups_db_scheme \<Rightarrow> bool" for env where
  create_step: "invitation_step env db (snd (create_invitation env nid token now gid email role actor db))"
| role_step: "invitation_step env db (snd (update_pending_invitation_role gid iid role actor db))"
| resend_step: "invitation_step env db (snd (resend_pending_invitation env token now gid iid actor db))"
| cancel_step: "invitation_step env db (snd (cancel_pending_invitation now gid iid actor db))"
| accept_step: "invitation_step env db (snd (accept_invitation env nid now token actor db))"
| signup_step: "invitation_step env db (snd (accept_invitation_with_new_user env fr now token nick pw db))"

inductive group_step :: "group_env \<Rightarrow> 'a groups_db_scheme \<Rightarrow> 'a groups_db_scheme \<Rightarrow> bool" for env where
  invitation: "invitation_step env db db' \<Longrightarrow> group_step env db db'"
| new_group: "group_step env db (snd (create_group gf now name who db))"
| member_role: "group_step env db (snd (update_member gid uid role who db))"

inductive_cases group_stepE: "group_step env db db'"

lemma accept_invitation_ok:
  assumes "accept_invitation env nid now token actor db = (Inr member, db')"
  shows "\<exists>i user. pending_invitation_for_token env now token db = (Inr i, db) \<and> get_user actor db = Some user
    \<and> u_email_verified_at user \<noteq> None
    \<and> normalize_invitation_email (u_email user) = Inr (i_invited_email_normalized i)
    \<and> accept_pending_invitation nid now i user db = Some (member, db')"
proof -
  obtain r db0 where p: "pending_invitation_for_token env now token db = (r, db0)" by fastforce
  then obtain i where i: "r = Inr i" using assms by (cases r) (auto simp: accept_invitation_def)
  have "db0 = db" using pending_invitation_ok(1) p i by blast
  then show ?thesis using assms p i by (auto simp: accept_invitation_def split: option.splits sum.splits if_splits)
qed

lemma accept_invitation_failed:
  assumes "accept_invitation env nid now token actor db = (Inl e, db')"
  shows "db' = snd (pending_invitation_for_token env now token db)"
  using assms by (auto simp: accept_invitation_def split: prod.splits option.splits sum.splits if_splits)

lemma accept_new_user_ok:
  fixes db db' :: "'a groups_db_scheme"
  assumes "accept_invitation_with_new_user env fr now token nick pw db = (Inr res, db')"
  obtains i and db1 db2 :: "'a groups_db_scheme" where "pending_invitation_for_token env now token db = (Inr i, db)"
    and "memberships db1 = memberships db" and "group_invitations db1 = group_invitations db" and "groups db1 = groups db"
    and "accept_pending_invitation (is_membership_id fr) now i
      (invited_user (gi_auth env) (is_user_id fr) now (i_invited_email_normalized i) nick pw) db1 = Some (gs_member res, db2)"
    and "memberships db' = memberships db2" and "group_invitations db' = group_invitations db2" and "groups db' = groups db2"
    and "invited_user (gi_auth env) (is_user_id fr) now (i_invited_email_normalized i) nick pw \<in> set (users db')"
proof -
  obtain r db0 where p: "pending_invitation_for_token env now token db = (r, db0)" by fastforce
  then obtain i where i: "r = Inr i" using assms by (cases r) (auto simp: accept_invitation_with_new_user_def)
  have db0: "db0 = db" using pending_invitation_ok(1) p i by blast
  let ?auth = "gi_auth env"
  let ?u = "invited_user ?auth (is_user_id fr) now (i_invited_email_normalized i) nick pw"
  obtain r1 db1 where lock: "lock_signup_identity (ge_hmac (ae_guest ?auth)) (ae_guest_access_enabled ?auth)
      (ge_key (ae_guest ?auth)) now (i_invited_email_normalized i) db = (r1, db1)" by fastforce
  note frame = lock_signup_groups [OF lock]
  obtain m db2 where acc: "accept_pending_invitation (is_membership_id fr) now i ?u
        (db1\<lparr>users := insert_row ?u (users db1)\<rparr>) = Some (m, db2)"
    and res: "gs_member res = m" and mem: "memberships db' = memberships db2" "group_invitations db' = group_invitations db2"
      "groups db' = groups db2" "users db' = users db2"
    using assms p lock unfolding i db0
    by (auto simp: accept_invitation_with_new_user_def Let_def enqueue_registration_groups
        split: sum.splits option.splits if_splits prod.splits)
  have "?u \<in> set (users db')" using accept_pending_ok(6) [OF acc] mem(4) by simp
  then show ?thesis
    using that [of i "db1\<lparr>users := insert_row ?u (users db1)\<rparr>" db2] p frame acc mem res unfolding i db0 by simp
qed

lemma accept_new_user_failed:
  assumes "accept_invitation_with_new_user env fr now token nick pw db = (Inl e, db')"
  shows "db' = snd (pending_invitation_for_token env now token db)"
  using assms
  by (auto simp: accept_invitation_with_new_user_def Let_def split: prod.splits option.splits sum.splits if_splits)

lemma groups_inv_frame:
  assumes "memberships db' = memberships db" and "group_invitations db' = group_invitations db"
  shows "groups_inv db' = groups_inv db"
  using assms by (simp add: groups_inv_def accepted_are_members_def)

lemma groups_inv_pending:
  assumes "groups_inv db"
  shows "groups_inv (snd (pending_invitation_for_token env now token db))"
proof (cases "fst (pending_invitation_for_token env now token db)")
  case (Inr i)
  then show ?thesis using assms pending_invitation_ok(1) by (metis surjective_pairing)
next
  case (Inl e)
  have "groups_inv (save_invitation (i\<lparr>i_status := invitation_status_value EXPIRED\<rparr>) db)"
    if "i \<in> set (group_invitations db)" "pending i" for i
    by (rule groups_inv_save [OF assms that]) simp_all
  then show ?thesis
    using assms Inl pending_invitation_failed [of env now token db e "snd (pending_invitation_for_token env now token db)"]
    by (metis surjective_pairing)
qed

lemma groups_inv_insert:
  assumes "groups_inv db" and "invitation_keys (insert_row i (group_invitations db))" and "pending i" and "invited_normal i"
  shows "groups_inv (db\<lparr>group_invitations := insert_row i (group_invitations db)\<rparr>)"
  using assms by (auto simp: groups_inv_def accepted_are_members_def pending_def)

lemma groups_inv_resend:
  assumes "groups_inv db" and "i \<in> set (group_invitations db)" and "pending i" and "i_status i' = i_status i"
    and "i_invited_email_normalized i' = i_invited_email_normalized i"
    and "invitation_keys (group_invitations (save_invitation i' db))"
  shows "groups_inv (save_invitation i' db)"
  using assms accepted_are_members_save [of db "save_invitation i' db" i'] set_save [of _ i' "group_invitations db"]
    invited_normal_same [of i' i]
  by (auto simp: groups_inv_def pending_def)

lemma invitation_step_inv:
  fixes db db' :: "'a groups_db_scheme"
  assumes "invitation_step env db db'" and "groups_inv db"
  shows "groups_inv db'"
  using assms
proof (induction rule: invitation_step.induct)
  case (create_step db nid token now gid email role actor)
  then show ?case
    by (auto simp: create_invitation_def Let_def new_pending_invitation_def pending_def invited_normal_def
        split: sum.splits intro!: groups_inv_insert dest: normalize_invitation_idem)
next
  case (role_step db gid iid role actor)
  then show ?case
    by (auto simp: update_pending_invitation_role_def Let_def pending_def split: sum.splits
        intro!: groups_inv_save dest: managed_invitation_ok)
next
  case (resend_step db token now gid iid actor)
  then show ?case
    by (auto simp: resend_pending_invitation_def Let_def split: sum.splits
        intro!: groups_inv_resend dest: managed_invitation_ok)
next
  case (cancel_step db now gid iid actor)
  then show ?case
    by (auto simp: cancel_pending_invitation_def Let_def split: sum.splits
        intro!: groups_inv_save dest: managed_invitation_ok)
next
  case (accept_step db nid now token actor)
  show ?case
  proof (cases "accept_invitation env nid now token actor db")
    case (Pair r db1)
    then show ?thesis
    proof (cases r)
      case (Inl e)
      then show ?thesis using accept_invitation_failed Pair groups_inv_pending [OF accept_step] by (metis snd_conv)
    next
      case (Inr m)
      then show ?thesis
        using accept_invitation_ok [of env nid now token actor db m db1] Pair accept_step
          pending_invitation_ok(2,3) groups_inv_accept by (metis snd_conv)
    qed
  qed
next
  case (signup_step db fr now token nick pw)
  show ?case
  proof (cases "accept_invitation_with_new_user env fr now token nick pw db")
    case (Pair r db')
    then show ?thesis
    proof (cases r)
      case (Inl e)
      then show ?thesis using accept_new_user_failed Pair groups_inv_pending [OF signup_step] by (metis snd_conv)
    next
      case (Inr res)
      obtain i and db1 db2 :: "'a groups_db_scheme" where acc: "pending_invitation_for_token env now token db = (Inr i, db)"
        "memberships db1 = memberships db" "group_invitations db1 = group_invitations db" "groups db1 = groups db"
        "accept_pending_invitation (is_membership_id fr) now i
          (invited_user (gi_auth env) (is_user_id fr) now (i_invited_email_normalized i) nick pw) db1 = Some (gs_member res, db2)"
        and out: "memberships db' = memberships db2" "group_invitations db' = group_invitations db2" "groups db' = groups db2"
          "invited_user (gi_auth env) (is_user_id fr) now (i_invited_email_normalized i) nick pw \<in> set (users db')"
        by (rule accept_new_user_ok [OF Pair [unfolded Inr]])
      have "groups_inv db1" using groups_inv_frame [OF acc(2,3)] signup_step by simp
      then have "groups_inv db2"
        using groups_inv_accept [OF _ _ _ acc(5)] pending_invitation_ok(2,3) [OF acc(1)] acc(3) by simp
      then show ?thesis using groups_inv_frame [OF out(1,2)] Pair by simp
    qed
  qed
qed

lemma membership_keys_role:
  "membership_keys (update_where p (\<lambda>r. r\<lparr>m_role := v\<rparr>) rs) = membership_keys rs"
  by (simp add: membership_keys_def unique_on_update_where)

lemma accepted_are_members_image:
  "accepted_are_members db \<longleftrightarrow>
     (\<forall>i \<in> set (group_invitations db). i_status i = invitation_status_value ACCEPTED \<longrightarrow>
        (i_group_id i, i_accepted_by_user_id i) \<in> (\<lambda>m. (m_group_id m, Some (m_user_id m))) ` set (memberships db))"
  unfolding accepted_are_members_def image_iff prod.inject by (intro ball_cong refl imp_cong bex_cong) auto

lemma group_step_inv: "group_step env db db' \<Longrightarrow> groups_inv db \<Longrightarrow> groups_inv db'"
proof (induction rule: group_step.induct)
  case (invitation db db')
  then show ?case by (rule invitation_step_inv)
next
  case (new_group db gf now name who)
  then show ?case by (auto simp: create_group_def Let_def groups_inv_def accepted_are_members_def)
next
  case (member_role db gid uid role who)
  have "accepted_are_members (db\<lparr>memberships := update_where p (\<lambda>r. r\<lparr>m_role := v\<rparr>) (memberships db)\<rparr>)"
    if "accepted_are_members db" for p v
    using that unfolding accepted_are_members_image by (simp add: image_update_where)
  with member_role show ?case
    by (auto simp: update_member_def groups_inv_def membership_keys_role split: sum.splits option.splits)
qed

definition no_groups :: "'a groups_db_scheme \<Rightarrow> bool" where
  "no_groups db \<longleftrightarrow> memberships db = [] \<and> group_invitations db = []"

interpretation group_sys: invariant_system no_groups "group_step env" groups_inv for env
proof unfold_locales
  show "groups_inv db" if "no_groups db" for db :: "'a groups_db_scheme"
    using that by (simp add: no_groups_def groups_inv_def invitation_keys_def membership_keys_def unique_on_def
        accepted_are_members_def)
  show "groups_inv t" if "groups_inv s" "group_step env s t" for s t :: "'a groups_db_scheme"
    using that group_step_inv by blast
qed

text \<open>
  C25. Whatever sequence of group and invitation operations runs from empty tables: a group has at most
  one membership per user and at most one pending invitation per address, no two invitations share a
  token digest, every invited address is in its normal form, and whoever accepted an invitation is a
  member of its group.
\<close>

theorem group_tables_sound:
  assumes "reachable no_groups (group_step env) db"
  shows "groups_inv db"
  using assms by (rule group_sys.reachable_inv)

section \<open>Who becomes a member\<close>

definition joined_by ::
  "GroupInvitationModel \<Rightarrow> MembershipModel \<Rightarrow> 'a groups_db_scheme \<Rightarrow> bool" where
  "joined_by i m db \<longleftrightarrow> m_group_id m = i_group_id i \<and> m_role m = i_role i
     \<and> (\<exists>u \<in> set (users db). u_id u = m_user_id m \<and> u_email_verified_at u \<noteq> None
          \<and> normalize_invitation_email (u_email u) = Inr (i_invited_email_normalized i))
     \<and> (\<exists>j \<in> set (group_invitations db). i_id j = i_id i \<and> i_status j = invitation_status_value ACCEPTED
          \<and> i_accepted_by_user_id j = Some (m_user_id m))"

lemma accept_pending_joined:
  assumes "accept_pending_invitation nid now i user db = Some (member, db1)" and "i \<in> set (group_invitations db)"
    and "m \<in> set (memberships db1)" and "m \<notin> set (memberships db)"
    and "user \<in> set (users db')" and "u_email_verified_at user \<noteq> None"
    and "normalize_invitation_email (u_email user) = Inr (i_invited_email_normalized i)"
    and "group_invitations db' = group_invitations db1"
  shows "joined_by i m db'"
proof -
  note ok = accept_pending_ok [OF assms(1)]
  have m: "m = gm_membership member" "m_role m = i_role i" using ok(4) assms(3,4) by auto
  moreover have "\<exists>j \<in> set (group_invitations db'). i_id j = i_id i \<and> i_status j = invitation_status_value ACCEPTED
      \<and> i_accepted_by_user_id j = Some (u_id user)"
    unfolding assms(8) ok(5) set_update_where
    by (rule bexI [OF _ imageI [OF assms(2)]]) simp
  ultimately show ?thesis using ok(1,2) assms(5-7) unfolding joined_by_def by auto
qed

lemma pending_memberships [simp]:
  "memberships (snd (pending_invitation_for_token env now token db)) = memberships db"
  by (simp add: pending_invitation_for_token_def split: option.split)

text \<open>
  C23. Nobody joins a group through the invitation service without an invitation: in a reachable state,
  a membership that an operation adds belongs to a user whose verified address is the invited one,
  carries the invited role, and the pending invitation it came from is accepted by that user.
\<close>

theorem membership_only_by_invitation:
  fixes db db' :: "'a groups_db_scheme"
  assumes "reachable no_groups (group_step env) db" and "invitation_step env db db'"
    and "m \<in> set (memberships db')" and "m \<notin> set (memberships db)"
  shows "\<exists>i \<in> set (group_invitations db). pending i \<and> joined_by i m db'"
  using assms(2)
proof (cases rule: invitation_step.cases)
  case (accept_step nid now token actor)
  obtain r where run: "accept_invitation env nid now token actor db = (r, db')"
    using accept_step by (metis surjective_pairing)
  then obtain mem where r: "r = Inr mem"
    using accept_invitation_failed [of env nid now token actor db _ db'] assms(3,4) by (cases r) auto
  obtain i user where i: "pending_invitation_for_token env now token db = (Inr i, db)" "get_user actor db = Some user"
    "u_email_verified_at user \<noteq> None" "normalize_invitation_email (u_email user) = Inr (i_invited_email_normalized i)"
    "accept_pending_invitation nid now i user db = Some (mem, db')"
    using accept_invitation_ok run r by blast
  have "user \<in> set (users db')" using get_user_in [OF i(2)] accept_pending_ok(6) [OF i(5)] by simp
  then have "joined_by i m db'"
    using accept_pending_joined [OF i(5) pending_invitation_ok(2) [OF i(1)] assms(3,4) _ i(3,4) refl] by blast
  then show ?thesis using pending_invitation_ok(2,3) [OF i(1)] by blast
next
  case (signup_step fr now token nick pw)
  obtain r where run: "accept_invitation_with_new_user env fr now token nick pw db = (r, db')"
    using signup_step by (metis surjective_pairing)
  then obtain res where r: "r = Inr res"
    using accept_new_user_failed [of env fr now token nick pw db _ db'] assms(3,4) by (cases r) auto
  obtain i and db1 db2 :: "'a groups_db_scheme" where i: "pending_invitation_for_token env now token db = (Inr i, db)"
    "memberships db1 = memberships db" "group_invitations db1 = group_invitations db" "groups db1 = groups db"
    "accept_pending_invitation (is_membership_id fr) now i
      (invited_user (gi_auth env) (is_user_id fr) now (i_invited_email_normalized i) nick pw) db1 = Some (gs_member res, db2)"
    "memberships db' = memberships db2" "group_invitations db' = group_invitations db2" "groups db' = groups db2"
    "invited_user (gi_auth env) (is_user_id fr) now (i_invited_email_normalized i) nick pw \<in> set (users db')"
    by (rule accept_new_user_ok [OF run [unfolded r]])
  let ?u = "invited_user (gi_auth env) (is_user_id fr) now (i_invited_email_normalized i) nick pw"
  have inv: "i \<in> set (group_invitations db)" "pending i" using pending_invitation_ok(2,3) [OF i(1)] .
  have "normalize_invitation_email (u_email ?u) = Inr (i_invited_email_normalized i)"
    using group_sys.reachable_inv [OF assms(1)] inv(1) by (simp add: groups_inv_def invited_normal_def invited_user_def)
  then have "joined_by i m db'"
    using accept_pending_joined [OF i(5), of m db'] inv(1) assms(3,4) i by (simp add: invited_user_def)
  then show ?thesis using inv by blast
qed (use assms(3,4) in \<open>auto simp: create_invitation_def update_pending_invitation_role_def
    resend_pending_invitation_def cancel_pending_invitation_def Let_def split: sum.splits if_splits\<close>)

section \<open>Closed invitations stay closed\<close>

definition closed_invitation :: "GroupInvitationModel \<Rightarrow> 'a groups_db_scheme \<Rightarrow> bool" where
  "closed_invitation i db \<longleftrightarrow> groups_inv db \<and> i \<in> set (group_invitations db) \<and> \<not> pending i"

lemma closed_kept:
  assumes "closed_invitation i db" and "j \<in> set (group_invitations db)" and "pending j" and "i_id j' = i_id j"
  shows "i \<in> set (group_invitations (save_invitation j' db))"
proof -
  have "i_id i \<noteq> i_id j"
    using assms(1-3) unique_onD [of i_id "group_invitations db" i j]
    by (auto simp: closed_invitation_def groups_inv_def invitation_keys_def)
  then show ?thesis using assms(1,4) by (force simp: closed_invitation_def set_update_where)
qed

lemma closed_kept_managed:
  "closed_invitation i db \<Longrightarrow> managed_invitation gid iid actor db = Inr j \<Longrightarrow> i_id j' = i_id j
    \<Longrightarrow> i \<in> set (group_invitations (save_invitation j' db))"
  using closed_kept [of i db j j'] managed_invitation_ok(1,4) [of gid iid actor db j] by simp

lemma closed_kept_pending:
  assumes "closed_invitation i db"
  shows "i \<in> set (group_invitations (snd (pending_invitation_for_token env now token db)))"
  using assms closed_kept [OF assms]
  by (auto simp: pending_invitation_for_token_def invitation_for_token_def Let_def closed_invitation_def
      split: option.splits dest!: scalar_SomeD)

lemma closed_kept_accept:
  assumes "closed_invitation i db" and "accept_pending_invitation nid now j user db1 = Some (m, db2)"
    and "group_invitations db1 = group_invitations db" and "j \<in> set (group_invitations db)" and "pending j"
  shows "i \<in> set (group_invitations db2)"
  using closed_kept [OF assms(1,4,5), of "j\<lparr>i_status := invitation_status_value ACCEPTED,
      i_accepted_by_user_id := Some (u_id user), i_accepted_at := Some now\<rparr>"]
    accept_pending_ok(5) [OF assms(2)] assms(3) by simp

lemma closed_invitation_step:
  fixes db db' :: "'a groups_db_scheme"
  assumes "invitation_step env db db'" and "closed_invitation i db"
  shows "i \<in> set (group_invitations db')"
  using assms(1)
proof (cases rule: invitation_step.cases)
  case (accept_step nid now token actor)
  obtain r where run: "accept_invitation env nid now token actor db = (r, db')"
    using accept_step by (metis surjective_pairing)
  then show ?thesis
  proof (cases r)
    case (Inl e)
    then show ?thesis
      using closed_kept_pending [OF assms(2), of env now token] accept_invitation_failed [of env nid now token actor db e db']
        run by simp
  next
    case (Inr m)
    obtain j user where j: "pending_invitation_for_token env now token db = (Inr j, db)"
      "accept_pending_invitation nid now j user db = Some (m, db')"
      using accept_invitation_ok [OF run [unfolded Inr]] by blast
    show ?thesis using closed_kept_accept [OF assms(2) j(2) refl pending_invitation_ok(2,3) [OF j(1)]] .
  qed
next
  case (signup_step fr now token nick pw)
  obtain r where run: "accept_invitation_with_new_user env fr now token nick pw db = (r, db')"
    using signup_step by (metis surjective_pairing)
  then show ?thesis
  proof (cases r)
    case (Inl e)
    then show ?thesis using closed_kept_pending [OF assms(2)] accept_new_user_failed run by metis
  next
    case (Inr res)
    obtain j and db1 db2 :: "'a groups_db_scheme" where j: "pending_invitation_for_token env now token db = (Inr j, db)"
      "memberships db1 = memberships db" "group_invitations db1 = group_invitations db" "groups db1 = groups db"
      "accept_pending_invitation (is_membership_id fr) now j
        (invited_user (gi_auth env) (is_user_id fr) now (i_invited_email_normalized j) nick pw) db1 = Some (gs_member res, db2)"
      "memberships db' = memberships db2" "group_invitations db' = group_invitations db2" "groups db' = groups db2"
      "invited_user (gi_auth env) (is_user_id fr) now (i_invited_email_normalized j) nick pw \<in> set (users db')"
      by (rule accept_new_user_ok [OF run [unfolded Inr]])
    then show ?thesis using closed_kept_accept [OF assms(2) j(5,3) pending_invitation_ok(2,3) [OF j(1)]] by simp
  qed
next
  case (create_step nid token now gid email role actor)
  then show ?thesis using assms(2)
    by (auto simp: create_invitation_def closed_invitation_def Let_def split: sum.splits)
next
  case (role_step gid iid role actor)
  then show ?thesis using assms(2)
    by (auto simp: update_pending_invitation_role_def Let_def closed_invitation_def simp del: save_invitation_frame
        split: sum.splits intro: closed_kept_managed [OF assms(2)])
next
  case (resend_step token now gid iid actor)
  then show ?thesis using assms(2)
    by (auto simp: resend_pending_invitation_def Let_def closed_invitation_def simp del: save_invitation_frame
        split: sum.splits intro: closed_kept_managed [OF assms(2)])
next
  case (cancel_step now gid iid actor)
  then show ?thesis using assms(2)
    by (auto simp: cancel_pending_invitation_def Let_def closed_invitation_def simp del: save_invitation_frame
        split: sum.splits intro: closed_kept_managed [OF assms(2)])
qed

lemma closed_group_step:
  assumes "group_step env db db'" and "closed_invitation i db"
  shows "closed_invitation i db'"
proof -
  have "groups_inv db'" using group_step_inv [OF assms(1)] assms(2) by (simp add: closed_invitation_def)
  moreover have "i \<in> set (group_invitations db')"
    using assms(1)
  proof (cases rule: group_step.cases)
    case invitation
    then show ?thesis using closed_invitation_step assms(2) by blast
  qed (use assms(2) in \<open>auto simp: create_group_def update_member_def closed_invitation_def Let_def
      split: sum.splits option.splits\<close>)
  ultimately show ?thesis using assms(2) by (simp add: closed_invitation_def)
qed

interpretation closed_sys: invariant_system "closed_invitation i" "group_step env" "closed_invitation i" for i env
proof unfold_locales
  show "closed_invitation i t" if "closed_invitation i s" "group_step env s t" for s t :: "'a groups_db_scheme"
    using that closed_group_step by blast
qed

lemma closed_token_invalid:
  assumes "closed_invitation i db" and "i_token_hash i = ae_digest (gi_auth env) (py_strip token)"
  shows "pending_invitation_for_token env now token db = (Inl InvalidInvitationTokenError, db)"
proof -
  have "j = i" if "scalar (\<lambda>i. i_token_hash i = ae_digest (gi_auth env) (py_strip token)) (group_invitations db) = Some j" for j
    using scalar_SomeD [OF that] assms unique_onD [of i_token_hash "group_invitations db" j i]
    by (auto simp: closed_invitation_def groups_inv_def invitation_keys_def)
  then show ?thesis
    using assms(1)
    by (auto simp: pending_invitation_for_token_def invitation_for_token_def Let_def closed_invitation_def split: option.splits)
qed

text \<open>
  C24. An invitation that was accepted, cancelled or found expired stays exactly as it is through every
  later operation, and its token is refused by both ways of accepting, without any change.
\<close>

theorem closed_invitation_final:
  assumes "reachable (closed_invitation i) (group_step env) db"
    and "i_token_hash i = ae_digest (gi_auth env) (py_strip token)"
  shows "i \<in> set (group_invitations db)
    \<and> accept_invitation env nid now token actor db = (Inl InvalidInvitationTokenError, db)
    \<and> accept_invitation_with_new_user env fr now token nick pw db = (Inl InvalidInvitationTokenError, db)"
proof -
  have closed: "closed_invitation i db" using closed_sys.reachable_inv [OF assms(1)] .
  show ?thesis
    using closed closed_token_invalid [OF closed assms(2), of now]
    by (simp add: accept_invitation_def accept_invitation_with_new_user_def closed_invitation_def)
qed

section \<open>Managers only\<close>

text \<open>
  C27. A user who is not an owner or admin of the group can neither read its invitations and roster nor
  change anything through the managing operations: each is refused and leaves the database as it was.
\<close>

theorem only_managers_manage:
  assumes "\<not> is_manager gid actor db"
  shows "(\<exists>e. create_invitation env nid token now gid email role actor db = (Inl e, db))
    \<and> (\<exists>e. update_pending_invitation_role gid iid role actor db = (Inl e, db))
    \<and> (\<exists>e. resend_pending_invitation env token now gid iid actor db = (Inl e, db))
    \<and> (\<exists>e. cancel_pending_invitation now gid iid actor db = (Inl e, db))
    \<and> (\<exists>e. list_group_invitations gid actor db = Inl e) \<and> (\<exists>e. list_group_members gid actor db = Inl e)
    \<and> (\<exists>e. update_member gid uid role \<lparr>p_user_id = actor, p_session_id = sid, p_is_guest = g, p_user_type = ut\<rparr> db
         = (Inl e, db))"
proof -
  obtain e where e: "require_group_manager gid actor db = Inl e"
    using require_group_manager_ok [of gid actor db] assms by (cases "require_group_manager gid actor db") auto
  have api: "\<exists>e. api_require_group_manager gid actor db = Inl e"
    using e by (auto simp: require_group_manager_def api_require_group_manager_def
        split: sum.splits prod.splits if_splits group_error.splits)
  show ?thesis
    using e api
    by (auto simp: create_invitation_def update_pending_invitation_role_def resend_pending_invitation_def
        cancel_pending_invitation_def managed_invitation_def list_group_invitations_def list_group_members_def
        update_member_def)
qed

section \<open>Instances\<close>

definition sample_group_env :: group_env where
  "sample_group_env = \<lparr>gi_auth = sample_auth, gi_ttl = days 7, gi_send_ok = (\<lambda>_ _. True)\<rparr>"

definition empty_groups_db :: groups_db where
  "empty_groups_db = auth_db.extend empty_db
     \<lparr>groups = [], memberships = [], group_invitations = [], knowledge_bases = []\<rparr>"

definition sample_owner :: Principal where
  "sample_owner = \<lparr>p_user_id = ''u1'', p_session_id = ''s1'', p_is_guest = False, p_user_type = ''normal''\<rparr>"

definition sample_group :: groups_db where
  "sample_group = snd (create_group \<lparr>gf_group_id = ''g1'', gf_membership_id = ''m1'', gf_knowledge_base_id = ''k1''\<rparr>
     1 ''Team'' sample_owner empty_groups_db)"

definition sample_invited :: groups_db where
  "sample_invited = snd (create_invitation sample_group_env ''i1'' ''secret'' 2 ''g1'' ''Bob@X'' EDITOR ''u1'' sample_group)"

definition sample_invite_fresh :: invitation_signup_fresh where
  "sample_invite_fresh = \<lparr>is_user_id = ''u2'', is_session_id = ''s2'', is_session_token = ''c2'', is_csrf_token = ''x2'',
     is_membership_id = ''m2'', is_notification_id = ''n2''\<rparr>"

definition sample_joined :: groups_db where
  "sample_joined = snd (accept_invitation_with_new_user sample_group_env sample_invite_fresh 3 ''secret'' ''Bob'' ''pw'' sample_invited)"

lemma sample_invited_reachable: "reachable no_groups (group_step sample_group_env) sample_invited"
proof -
  have "reachable no_groups (group_step sample_group_env) empty_groups_db"
    by (rule reachable.start) (simp add: no_groups_def empty_groups_db_def auth_db.defs)
  then have "reachable no_groups (group_step sample_group_env) sample_group"
    unfolding sample_group_def by (rule reachable.next_state) (rule group_step.new_group)
  then show ?thesis
    unfolding sample_invited_def
    by (rule reachable.next_state) (rule group_step.invitation, rule invitation_step.create_step)
qed

lemma sample_joined_step: "invitation_step sample_group_env sample_invited sample_joined"
  unfolding sample_joined_def by (rule invitation_step.signup_step)

lemma sample_joined_rows:
  "last (memberships sample_joined) \<in> set (memberships sample_joined)"
  "last (memberships sample_joined) \<notin> set (memberships sample_invited)"
  "m_user_id (last (memberships sample_joined)) = ''u2''"
  "last (group_invitations sample_joined) \<in> set (group_invitations sample_joined)"
  "\<not> pending (last (group_invitations sample_joined))"
  "i_token_hash (last (group_invitations sample_joined)) = ae_digest (gi_auth sample_group_env) (py_strip '' secret '')"
  by code_simp+

theorem group_tables_sound_witness: "groups_inv sample_joined"
  by (rule group_tables_sound, rule reachable.next_state [OF sample_invited_reachable],
      rule group_step.invitation, rule sample_joined_step)

theorem membership_only_by_invitation_witness:
  "\<exists>m. m_user_id m = ''u2'' \<and> (\<exists>i \<in> set (group_invitations sample_invited). pending i \<and> joined_by i m sample_joined)"
  using membership_only_by_invitation [OF sample_invited_reachable sample_joined_step sample_joined_rows(1,2)]
    sample_joined_rows(3) by blast

theorem closed_invitation_final_witness:
  "accept_invitation sample_group_env ''m9'' 4 '' secret '' ''u1'' sample_joined = (Inl InvalidInvitationTokenError, sample_joined)"
proof -
  have "groups_inv sample_joined"
    using invitation_step_inv [OF sample_joined_step] group_sys.reachable_inv [OF sample_invited_reachable] by blast
  then have "reachable (closed_invitation (last (group_invitations sample_joined))) (group_step sample_group_env) sample_joined"
    using sample_joined_rows(4,5) by (intro reachable.start) (simp add: closed_invitation_def)
  from closed_invitation_final [OF this sample_joined_rows(6)] show ?thesis by blast
qed

theorem only_managers_manage_witness:
  "\<exists>e. cancel_pending_invitation 4 ''g1'' ''i1'' ''u2'' sample_joined = (Inl e, sample_joined)"
proof -
  have "\<not> is_manager ''g1'' ''u2'' sample_joined" by code_simp
  from only_managers_manage [OF this] show ?thesis by blast
qed

end
