(* ===== verification/Context_Fusion.thy ===== *)
theory Context_Fusion
  imports Knowledge_Models "HOL-Library.AList" "HOL-Library.Option_ord"
begin

text \<open>
  Reciprocal rank fusion of retrieval candidates (\<open>agents/context_forge/fusion.py\<close>, with the value
  objects of \<open>knowledge/retrieval.py\<close> and \<open>agents/context_forge/contracts.py\<close>). Scores are floats:
  the model keeps them in any linear order \<open>'s\<close> and takes the two arithmetic operations the code
  applies to them, addition and the reciprocal of a positive integer, from \<open>score_ops\<close>, so nothing
  below depends on exact arithmetic. A Python dictionary is an association list in insertion order,
  where updating a key keeps its place.
\<close>

section \<open>Descending keys\<close>

text \<open>Sorting by a negated score sorts in the dual order.\<close>

datatype 'a desc = Desc (undesc: 'a)

instantiation desc :: (linorder) linorder
begin

definition less_eq_desc :: "'a desc \<Rightarrow> 'a desc \<Rightarrow> bool" where
  "less_eq_desc x y \<longleftrightarrow> undesc y \<le> undesc x"

definition less_desc :: "'a desc \<Rightarrow> 'a desc \<Rightarrow> bool" where
  "less_desc x y \<longleftrightarrow> undesc y < undesc x"

instance
  by standard (auto simp: less_eq_desc_def less_desc_def desc.expand)

end

section \<open>Models\<close>

record 's RetrievedChunk =
  rc_chunk :: DocumentChunkModel
  rc_document :: DocumentModel
  rc_score :: 's
  rc_source :: string

record 's RetrievalCandidate =
  cd_chunk :: "'s RetrievedChunk"
  cd_sources :: "string list"
  cd_score :: 's
  cd_rerank_score :: "'s option"
  cd_reasons :: "string list"

record 's score_ops =
  so_add :: "'s \<Rightarrow> 's \<Rightarrow> 's"
  so_recip :: "nat \<Rightarrow> 's"

definition chunk_id :: "'s RetrievedChunk \<Rightarrow> ident" where
  "chunk_id c = ch_id (rc_chunk c)"

definition candidate_id :: "'s RetrievalCandidate \<Rightarrow> ident" where
  "candidate_id c = chunk_id (cd_chunk c)"

section \<open>Fusion\<close>

definition RRF_RANK_CONSTANT :: nat where
  "RRF_RANK_CONSTANT = 60"

definition source_priority :: "string \<Rightarrow> int" where
  "source_priority source =
     (if take 18 source = ''structured_entity:'' then 50
      else if source = ''document_metadata'' then 40
      else if source = ''graph_expansion'' then 30
      else if source = ''semantic_vector'' then 20
      else if source = ''document_metadata_profile'' then 15
      else 10)"

definition preferred_chunk :: "'s::linorder RetrievedChunk \<Rightarrow> 's RetrievedChunk \<Rightarrow> 's RetrievedChunk" where
  "preferred_chunk candidate existing =
     (if source_priority (rc_source candidate) > source_priority (rc_source existing) then candidate
      else if source_priority (rc_source candidate) = source_priority (rc_source existing)
              \<and> rc_score candidate > rc_score existing then candidate
      else existing)"

type_synonym 's source_table = "(string \<times> (ident \<times> 's RetrievedChunk) list) list"

definition collect_chunk :: "'s::linorder RetrievedChunk \<Rightarrow> 's source_table \<Rightarrow> 's source_table" where
  "collect_chunk c table =
     (let ranked = (case map_of table (rc_source c) of None \<Rightarrow> [] | Some m \<Rightarrow> m)
      in case map_of ranked (chunk_id c) of
           None \<Rightarrow> AList.update (rc_source c) (AList.update (chunk_id c) c ranked) table
         | Some existing \<Rightarrow>
             if rc_score c > rc_score existing
             then AList.update (rc_source c) (AList.update (chunk_id c) c ranked) table
             else table)"

definition ranked_by_source :: "'s::linorder RetrievedChunk list \<Rightarrow> 's source_table" where
  "ranked_by_source chunks = fold collect_chunk chunks []"

definition rank_key :: "'s::linorder RetrievedChunk \<Rightarrow> 's desc \<times> int \<times> ident" where
  "rank_key c = (Desc (rc_score c), ch_ordinal (rc_chunk c), chunk_id c)"

definition rank_source :: "(ident \<times> 's::linorder RetrievedChunk) list \<Rightarrow> 's RetrievedChunk list" where
  "rank_source ranked = sort_key rank_key (map snd ranked)"

definition rrf_reason :: "string \<Rightarrow> nat \<Rightarrow> string" where
  "rrf_reason source rank = ''rrf:'' @ source @ '':rank='' @ py_str_int (int rank)"

type_synonym 's fused_state = "(ident \<times> 's RetrievalCandidate) list \<times> (ident \<times> 's) list"

definition fuse_ranked ::
  "'s::linorder score_ops \<Rightarrow> string \<times> nat \<times> 's RetrievedChunk \<Rightarrow> 's fused_state \<Rightarrow> 's fused_state" where
  "fuse_ranked ops entry state =
     (let (source, rank, c) = entry; (by_chunk_id, best_original_score) = state;
          rrf_score = so_recip ops (RRF_RANK_CONSTANT + rank)
      in case map_of by_chunk_id (chunk_id c) of
           None \<Rightarrow>
             (AList.update (chunk_id c) \<lparr>cd_chunk = c, cd_sources = [source], cd_score = rrf_score,
                cd_rerank_score = None, cd_reasons = [''matched:'' @ source, rrf_reason source rank]\<rparr> by_chunk_id,
              AList.update (chunk_id c) (rc_score c) best_original_score)
         | Some existing \<Rightarrow>
             (AList.update (chunk_id c) \<lparr>cd_chunk = preferred_chunk c (cd_chunk existing),
                cd_sources = dict_fromkeys (cd_sources existing @ [source]),
                cd_score = so_add ops (cd_score existing) rrf_score,
                cd_rerank_score = cd_rerank_score existing,
                cd_reasons = dict_fromkeys (cd_reasons existing @ [''matched:'' @ source, rrf_reason source rank])\<rparr> by_chunk_id,
              AList.update (chunk_id c)
                (max (case map_of best_original_score (chunk_id c) of None \<Rightarrow> rc_score c | Some s \<Rightarrow> s) (rc_score c))
                best_original_score))"

definition rank_entries :: "'s::linorder source_table \<Rightarrow> (string \<times> nat \<times> 's RetrievedChunk) list" where
  "rank_entries table = concat (map (\<lambda>(source, ranked). map (Pair source) (enumerate 1 (rank_source ranked))) table)"

definition fusion_key ::
  "(ident \<times> 's::linorder) list \<Rightarrow> 's RetrievalCandidate
    \<Rightarrow> 's desc \<times> int \<times> int \<times> 's desc \<times> int \<times> ident" where
  "fusion_key best c =
     (Desc (cd_score c), - int (length (cd_sources c)), - source_priority (rc_source (cd_chunk c)),
      Desc (case map_of best (candidate_id c) of None \<Rightarrow> cd_score c | Some s \<Rightarrow> s),
      ch_ordinal (rc_chunk (cd_chunk c)), candidate_id c)"

definition fuse_candidates :: "'s::linorder score_ops \<Rightarrow> 's RetrievedChunk list \<Rightarrow> 's RetrievalCandidate list" where
  "fuse_candidates ops chunks =
     (let (by_chunk_id, best_original_score) = fold (fuse_ranked ops) (rank_entries (ranked_by_source chunks)) ([], [])
      in sort_key (fusion_key best_original_score) (map snd by_chunk_id))"

section \<open>What fusion computes\<close>

text \<open>
  The reference: the sources in order of first appearance, the best chunk of an identifier within a
  source (the first one of the highest score), its rank among the best chunks of that source, and the
  sum of the reciprocal ranks in source order.
\<close>

definition source_order :: "'s RetrievedChunk list \<Rightarrow> string list" where
  "source_order chunks = dict_fromkeys (map rc_source chunks)"

definition better :: "'s::linorder RetrievedChunk \<Rightarrow> 's RetrievedChunk \<Rightarrow> 's RetrievedChunk" where
  "better m c = (if rc_score c > rc_score m then c else m)"

definition best_match :: "string \<Rightarrow> ident \<Rightarrow> 's::linorder RetrievedChunk list \<Rightarrow> 's RetrievedChunk option" where
  "best_match s i chunks =
     (case filter (\<lambda>c. rc_source c = s \<and> chunk_id c = i) chunks of [] \<Rightarrow> None | c # cs \<Rightarrow> Some (foldl better c cs))"

definition matched_by :: "'s RetrievedChunk list \<Rightarrow> ident \<Rightarrow> string list" where
  "matched_by chunks i = filter (\<lambda>s. \<exists>c \<in> set chunks. rc_source c = s \<and> chunk_id c = i) (source_order chunks)"

definition source_ids :: "string \<Rightarrow> 's RetrievedChunk list \<Rightarrow> ident list" where
  "source_ids s chunks = dict_fromkeys (map chunk_id (filter (\<lambda>c. rc_source c = s) chunks))"

definition rrf_rank :: "'s::linorder RetrievedChunk list \<Rightarrow> string \<Rightarrow> ident \<Rightarrow> nat" where
  "rrf_rank chunks s i =
     Suc (length (filter (\<lambda>j. map_option rank_key (best_match s j chunks) < map_option rank_key (best_match s i chunks))
       (source_ids s chunks)))"

fun sum_ranks :: "'s score_ops \<Rightarrow> 's list \<Rightarrow> 's option" where
  "sum_ranks ops [] = None"
| "sum_ranks ops (x # xs) = Some (foldl (so_add ops) x xs)"

definition rrf_score :: "'s::linorder score_ops \<Rightarrow> 's RetrievedChunk list \<Rightarrow> ident \<Rightarrow> 's option" where
  "rrf_score ops chunks i =
     sum_ranks ops (map (\<lambda>s. so_recip ops (RRF_RANK_CONSTANT + rrf_rank chunks s i)) (matched_by chunks i))"

section \<open>Collecting by source\<close>

definition look :: "'s source_table \<Rightarrow> string \<Rightarrow> ident \<Rightarrow> 's RetrievedChunk option" where
  "look table s i = (case map_of table s of None \<Rightarrow> None | Some m \<Rightarrow> map_of m i)"

lemma map_of_update: "map_of (AList.update k v al) x = (if x = k then Some v else map_of al x)"
  by (simp add: update_conv)

lemma map_fst_update:
  "map fst (AList.update k v al) = (if k \<in> set (map fst al) then map fst al else map fst al @ [k])"
  by (rule update_keys)

lemma look_collect:
  "look (collect_chunk c table) s i = (if s = rc_source c \<and> i = chunk_id c
     then Some (case look table s i of None \<Rightarrow> c | Some e \<Rightarrow> better e c) else look table s i)"
  by (auto simp: look_def collect_chunk_def Let_def map_of_update better_def split: option.split)

lemma best_match_append:
  "best_match s i (cs @ [c]) = (if rc_source c = s \<and> chunk_id c = i
     then Some (case best_match s i cs of None \<Rightarrow> c | Some e \<Rightarrow> better e c) else best_match s i cs)"
  by (auto simp: best_match_def split: list.split)

lemma ranked_append: "ranked_by_source (cs @ [c]) = collect_chunk c (ranked_by_source cs)"
  by (simp add: ranked_by_source_def)

lemma ranked_look: "look (ranked_by_source cs) s i = best_match s i cs"
proof (induction cs rule: rev_induct)
  case Nil
  show ?case by (simp add: ranked_by_source_def look_def best_match_def)
next
  case (snoc c cs)
  then show ?case by (simp add: ranked_append look_collect best_match_append)
qed

lemma collect_keys: "map fst (collect_chunk c table)
    = (if rc_source c \<in> set (map fst table) then map fst table else map fst table @ [rc_source c])"
proof (cases "map_of table (rc_source c)")
  case None
  moreover from this have "rc_source c \<notin> set (map fst table)" by (simp add: map_of_eq_None_iff)
  ultimately show ?thesis by (simp add: collect_chunk_def Let_def map_fst_update)
next
  case (Some m)
  then have "rc_source c \<in> set (map fst table)" by (metis map_of_eq_None_iff option.distinct(1) list.set_map)
  then show ?thesis using Some by (simp add: collect_chunk_def Let_def map_fst_update split: option.split)
qed

lemma ranked_keys: "map fst (ranked_by_source cs) = source_order cs"
proof (induction cs rule: rev_induct)
  case Nil
  show ?case by (simp add: ranked_by_source_def source_order_def)
next
  case (snoc c cs)
  then have "set (map fst (ranked_by_source cs)) = rc_source ` set cs" by (simp add: source_order_def)
  then show ?case
    using snoc unfolding ranked_append collect_keys by (auto simp: source_order_def dict_fromkeys_append)
qed

lemma collect_inner:
  assumes "map_of (collect_chunk c table) s = Some m" and "\<And>m. map_of table s = Some m \<Longrightarrow> map fst m = ids"
    and "map_of table s = None \<Longrightarrow> ids = []"
  shows "map fst m = (if s = rc_source c \<and> chunk_id c \<notin> set ids then ids @ [chunk_id c] else ids)"
proof (cases "map_of table (rc_source c)")
  case None
  then show ?thesis
    using assms by (auto simp: collect_chunk_def Let_def map_of_update map_fst_update split: if_splits)
next
  case (Some r)
  show ?thesis
  proof (cases "s = rc_source c")
    case False
    then show ?thesis
      using assms Some by (auto simp: collect_chunk_def Let_def map_of_update split: option.splits if_splits)
  next
    case True
    then have ids: "map fst r = ids" using assms(2) Some by simp
    have "m = r \<and> chunk_id c \<in> set ids \<or> m = AList.update (chunk_id c) c r"
      using assms(1) Some True ids
      by (auto simp: collect_chunk_def Let_def map_of_update split: option.splits if_splits dest!: map_of_SomeD)
        (metis fst_conv image_eqI list.set_map)+
    then show ?thesis using ids True by (auto simp: map_fst_update)
  qed
qed

lemma ranked_inner:
  "map_of (ranked_by_source cs) s = Some m \<Longrightarrow> map fst m = source_ids s cs"
proof (induction cs arbitrary: m rule: rev_induct)
  case Nil
  then show ?case by (simp add: ranked_by_source_def)
next
  case (snoc c cs)
  have none: "source_ids s cs = []" if "map_of (ranked_by_source cs) s = None"
  proof -
    have "s \<notin> set (source_order cs)" using that ranked_keys [of cs] by (metis map_of_eq_None_iff list.set_map)
    then have "filter (\<lambda>c. rc_source c = s) cs = []" by (auto simp: source_order_def filter_empty_conv)
    then show ?thesis by (simp add: source_ids_def)
  qed
  have "map fst m = (if s = rc_source c \<and> chunk_id c \<notin> set (source_ids s cs) then source_ids s cs @ [chunk_id c] else source_ids s cs)"
    using collect_inner [OF snoc.prems [unfolded ranked_append] snoc.IH none] .
  then show ?case by (auto simp: source_ids_def dict_fromkeys_append)
qed

section \<open>Ranks\<close>

lemma rank_key_inj: "rank_key c = rank_key d \<Longrightarrow> chunk_id c = chunk_id d"
  by (simp add: rank_key_def)

lemma index_is_count:
  fixes f :: "'a \<Rightarrow> 'b::linorder"
  assumes "sorted (map f xs)" and "distinct (map f xs)" and "n < length xs"
  shows "n = length (filter (\<lambda>x. f x < f (xs ! n)) xs)"
proof -
  have strict: "f (xs ! i) < f (xs ! j)" if "i < j" "j < length xs" for i j
    using assms(1,2) that sorted_nth_mono [of "map f xs" i j] nth_eq_iff_index_eq [of "map f xs" i j]
    by (simp add: order_less_le)
  have "{i. i < length xs \<and> f (xs ! i) < f (xs ! n)} = {..<n}"
  proof (intro set_eqI iffI)
    fix i assume "i \<in> {i. i < length xs \<and> f (xs ! i) < f (xs ! n)}"
    then have "i < length xs" "f (xs ! i) < f (xs ! n)" by auto
    then have "\<not> n \<le> i" using strict [of n i] by (cases "n = i") (auto simp: not_less_iff_gr_or_eq)
    then show "i \<in> {..<n}" by simp
  next
    fix i assume "i \<in> {..<n}"
    then show "i \<in> {i. i < length xs \<and> f (xs ! i) < f (xs ! n)}" using strict [of i n] assms(3) by auto
  qed
  then show ?thesis by (simp add: length_filter_conv_card)
qed

lemma filter_enumerate_none:
  "(\<forall>x \<in> set xs. g x \<noteq> k) \<Longrightarrow> filter (\<lambda>(r, x). g x = k) (enumerate m xs) = []"
  by (induction xs arbitrary: m) auto

lemma filter_enumerate_one:
  assumes "distinct (map g xs)" and "n < length xs" and "g (xs ! n) = k"
  shows "filter (\<lambda>(r, x). g x = k) (enumerate m xs) = [(m + n, xs ! n)]"
  using assms
proof (induction xs arbitrary: m n)
  case Nil
  then show ?case by simp
next
  case (Cons x xs)
  show ?case
  proof (cases n)
    case 0
    then have "\<forall>y \<in> set xs. g y \<noteq> k" using Cons.prems by (auto simp: image_iff)
    then show ?thesis using 0 Cons.prems filter_enumerate_none [of xs g k "Suc m"] by simp
  next
    case (Suc n')
    then have "xs ! n' \<in> set xs" using Cons.prems(2) by simp
    then have "g x \<noteq> k" using Cons.prems(1,3) Suc by auto
    then show ?thesis using Suc Cons.IH [of n' "Suc m"] Cons.prems by simp
  qed
qed

lemma best_match_SomeD:
  assumes "best_match s i cs = Some c"
  shows "c \<in> set cs" and "rc_source c = s" and "chunk_id c = i"
proof -
  have "foldl better a as \<in> insert a (set as)" for a :: "'a RetrievedChunk" and as
  proof (induction as arbitrary: a)
    case (Cons x as)
    then show ?case using Cons.IH [of "better a x"] by (cases "rc_score a < rc_score x") (auto simp: better_def)
  qed simp
  moreover obtain a as where f: "filter (\<lambda>c. rc_source c = s \<and> chunk_id c = i) cs = a # as" "c = foldl better a as"
    using assms by (auto simp: best_match_def split: list.splits)
  ultimately have "c \<in> set (filter (\<lambda>c. rc_source c = s \<and> chunk_id c = i) cs)" by simp
  then show "c \<in> set cs" "rc_source c = s" "chunk_id c = i" by auto
qed

lemma best_match_Some: "(\<exists>c. best_match s i cs = Some c) \<longleftrightarrow> (\<exists>c \<in> set cs. rc_source c = s \<and> chunk_id c = i)"
  by (auto simp: best_match_def filter_empty_conv split: list.split)
    (metis (mono_tags, lifting) list.set_intros(1) mem_Collect_eq set_filter)

lemma source_entries:
  assumes "map_of (ranked_by_source cs) s = Some m"
  shows "map snd m = map (\<lambda>j. the (best_match s j cs)) (source_ids s cs)"
    and "j \<in> set (source_ids s cs) \<Longrightarrow> \<exists>c. best_match s j cs = Some c"
proof -
  have keys: "map fst m = source_ids s cs" by (rule ranked_inner [OF assms])
  then have dist: "distinct (map fst m)" by (simp add: source_ids_def)
  have val: "best_match s j cs = Some c" if "(j, c) \<in> set m" for j c
    using that dist assms ranked_look [of cs s j] by (simp add: look_def)
  have "map snd m = map (\<lambda>x. the (best_match s (fst x) cs)) m"
    using val by (auto intro!: map_cong)
  also have "\<dots> = map (\<lambda>j. the (best_match s j cs)) (map fst m)" by simp
  finally show "map snd m = map (\<lambda>j. the (best_match s j cs)) (source_ids s cs)" using keys by simp
  show "\<exists>c. best_match s j cs = Some c" if "j \<in> set (source_ids s cs)"
  proof -
    have "j \<in> set (map fst m)" using that keys by simp
    then show ?thesis using val by auto
  qed
qed

lemma rank_in_source:
  assumes m: "map_of (ranked_by_source cs) s = Some m"
  shows "filter (\<lambda>(r, x). chunk_id x = i) (enumerate 1 (rank_source m))
    = (case best_match s i cs of None \<Rightarrow> [] | Some c \<Rightarrow> [(rrf_rank cs s i, c)])"
proof -
  let ?xs = "rank_source m" and ?ids = "source_ids s cs" and ?best = "\<lambda>j. the (best_match s j cs)"
  note snds = source_entries(1) [OF m] and some = source_entries(2) [OF m]
  have id_best: "chunk_id (?best j) = j" if "j \<in> set ?ids" for j
    using some [OF that] best_match_SomeD(3) [of s j cs] by auto
  have "map chunk_id (map snd m) = ?ids" unfolding snds using id_best by (simp add: map_idI)
  then have dist_ids: "distinct (map chunk_id (map snd m))" by (simp add: source_ids_def)
  have perm: "mset ?xs = mset (map snd m)" by (simp add: rank_source_def)
  have "mset (map chunk_id ?xs) = mset (map chunk_id (map snd m))" using perm by (metis mset_map)
  then have dist: "distinct (map chunk_id ?xs)" using dist_ids by (metis mset_eq_imp_distinct_iff)
  then have dist_key: "distinct (map rank_key ?xs)"
    by (auto simp: distinct_map inj_on_def dest: rank_key_inj)
  have sorted: "sorted (map rank_key ?xs)" by (simp add: rank_source_def)
  have set_xs: "set ?xs = ?best ` set ?ids" 
  proof -
    have "set ?xs = set (map snd m)" by (simp only: rank_source_def set_sort)
    then show ?thesis unfolding snds by (simp only: set_map)
  qed
  show ?thesis
  proof (cases "best_match s i cs")
    case None
    have "chunk_id (?best j) \<noteq> i" if "j \<in> set ?ids" for j
      using some [OF that] id_best [OF that] None by auto
    then have "\<forall>x \<in> set ?xs. chunk_id x \<noteq> i" unfolding set_xs by blast
    then show ?thesis using None filter_enumerate_none [of ?xs chunk_id i 1] by simp
  next
    case (Some c)
    note c = best_match_SomeD [OF Some]
    then have "i \<in> set ?ids" by (auto simp: source_ids_def)
    then have "c \<in> set ?xs" unfolding set_xs using Some by (metis image_eqI option.sel)
    then obtain n where n: "n < length ?xs" "?xs ! n = c" by (auto simp: in_set_conv_nth)
    have "n = length (filter (\<lambda>x. rank_key x < rank_key c) ?xs)"
      using index_is_count [OF sorted dist_key n(1)] n(2) by simp
    also have "\<dots> = size (filter_mset (\<lambda>x. rank_key x < rank_key c) (mset ?xs))" by (simp flip: size_mset mset_filter)
    also have "\<dots> = length (filter (\<lambda>x. rank_key x < rank_key c) (map snd m))" unfolding perm by (metis mset_filter size_mset)
    also have "\<dots> = length (filter (\<lambda>j. rank_key (?best j) < rank_key c) ?ids)" unfolding snds by (simp add: filter_map comp_def)
    also have "\<dots> = length (filter (\<lambda>j. map_option rank_key (best_match s j cs) < map_option rank_key (best_match s i cs)) ?ids)"
    proof -
      have "rank_key (?best j) < rank_key c \<longleftrightarrow> map_option rank_key (best_match s j cs) < map_option rank_key (best_match s i cs)"
        if "j \<in> set ?ids" for j
        using some [OF that] Some by auto
      then show ?thesis by (simp cong: filter_cong)
    qed
    finally have "1 + n = rrf_rank cs s i" by (simp add: rrf_rank_def)
    then show ?thesis using filter_enumerate_one [OF dist n(1), of i 1] n(2) c(3) Some by simp
  qed
qed

definition contrib :: "ident \<Rightarrow> (string \<times> nat \<times> 's RetrievedChunk) list \<Rightarrow> (string \<times> nat \<times> 's RetrievedChunk) list" where
  "contrib i ts = filter (\<lambda>t. chunk_id (snd (snd t)) = i) ts"

lemma concat_map_filter: "concat (map (\<lambda>x. if p x then [f x] else []) xs) = map f (filter p xs)"
  by (induction xs) auto

lemma contrib_entries:
  "contrib i (rank_entries (ranked_by_source cs))
    = map (\<lambda>s. (s, rrf_rank cs s i, the (best_match s i cs))) (matched_by cs i)"
proof -
  let ?table = "ranked_by_source cs"
  let ?p = "\<lambda>s. \<exists>c \<in> set cs. rc_source c = s \<and> chunk_id c = i" and ?f = "\<lambda>s. (s, rrf_rank cs s i, the (best_match s i cs))"
  have dist: "distinct (map fst ?table)" unfolding ranked_keys by (simp add: source_order_def)
  have one: "filter (\<lambda>t. chunk_id (snd (snd t)) = i) (map (Pair s) (enumerate 1 (rank_source m))) = (if ?p s then [?f s] else [])"
    if "(s, m) \<in> set ?table" for s m
  proof -
    have m: "map_of ?table s = Some m" using that dist by simp
    have "filter (\<lambda>t. chunk_id (snd (snd t)) = i) (map (Pair s) (enumerate 1 (rank_source m)))
        = map (Pair s) (filter (\<lambda>(r, x). chunk_id x = i) (enumerate 1 (rank_source m)))"
      by (simp add: filter_map comp_def case_prod_beta')
    then show ?thesis
      using rank_in_source [OF m, of i] best_match_Some [of s i cs] by (cases "best_match s i cs") auto
  qed
  have "contrib i (rank_entries ?table) = concat (map (\<lambda>(s, m). filter (\<lambda>t. chunk_id (snd (snd t)) = i)
      (map (Pair s) (enumerate 1 (rank_source m)))) ?table)"
    by (simp add: contrib_def rank_entries_def filter_concat comp_def case_prod_beta')
  also have "\<dots> = concat (map (\<lambda>(s, m). if ?p s then [?f s] else []) ?table)"
    using one by (intro arg_cong [of _ _ concat] map_cong) auto
  also have "\<dots> = concat (map (\<lambda>s. if ?p s then [?f s] else []) (map fst ?table))"
    by (simp add: comp_def case_prod_beta')
  finally show ?thesis unfolding ranked_keys concat_map_filter by (simp add: matched_by_def)
qed

section \<open>Summing the contributions\<close>

definition fused :: "'s::linorder score_ops \<Rightarrow> (string \<times> nat \<times> 's RetrievedChunk) list \<Rightarrow> ident \<Rightarrow> 's RetrievalCandidate \<Rightarrow> bool" where
  "fused ops ts i cd \<longleftrightarrow> cd_sources cd = dict_fromkeys (map fst (contrib i ts))
     \<and> Some (cd_score cd) = sum_ranks ops (map (\<lambda>t. so_recip ops (RRF_RANK_CONSTANT + fst (snd t))) (contrib i ts))
     \<and> cd_chunk cd \<in> set (map (\<lambda>t. snd (snd t)) (contrib i ts))"

lemma sum_ranks_snoc: "sum_ranks ops xs = Some v \<Longrightarrow> sum_ranks ops (xs @ [x]) = Some (so_add ops v x)"
  by (cases xs) auto

lemma dict_fromkeys_absorb: "dict_fromkeys (dict_fromkeys xs @ [x]) = dict_fromkeys (xs @ [x])"
  by (simp add: dict_fromkeys_append)

lemma fuse_state:
  "map fst (fst (fold (fuse_ranked ops) ts ([], []))) = dict_fromkeys (map (\<lambda>t. chunk_id (snd (snd t))) ts)
   \<and> (\<forall>i cd. map_of (fst (fold (fuse_ranked ops) ts ([], []))) i = Some cd \<longrightarrow> fused ops ts i cd)"
proof (induction ts rule: rev_induct)
  case Nil
  then show ?case by simp
next
  case (snoc t ts)
  obtain source rank c where t: "t = (source, rank, c)" by (cases t)
  obtain A B where state: "fold (fuse_ranked ops) ts ([], []) = (A, B)" by fastforce
  have keys: "map fst A = dict_fromkeys (map (\<lambda>t. chunk_id (snd (snd t))) ts)" and vals: "\<And>i cd. map_of A i = Some cd \<Longrightarrow> fused ops ts i cd"
    using snoc state by auto
  let ?r = "so_recip ops (RRF_RANK_CONSTANT + rank)"
  have other: "contrib i (ts @ [t]) = contrib i ts" if "i \<noteq> chunk_id c" for i using that t by (simp add: contrib_def)
  have same: "contrib (chunk_id c) (ts @ [t]) = contrib (chunk_id c) ts @ [t]" using t by (simp add: contrib_def)
  have mem: "chunk_id c \<in> set (map fst A) \<longleftrightarrow> contrib (chunk_id c) ts \<noteq> []"
    unfolding keys contrib_def filter_empty_conv set_dict_fromkeys set_map image_iff by metis
  define cd' where "cd' = (case map_of A (chunk_id c) of
      None \<Rightarrow> \<lparr>cd_chunk = c, cd_sources = [source], cd_score = ?r,
                cd_rerank_score = None, cd_reasons = [''matched:'' @ source, rrf_reason source rank]\<rparr>
    | Some e \<Rightarrow> \<lparr>cd_chunk = preferred_chunk c (cd_chunk e), cd_sources = dict_fromkeys (cd_sources e @ [source]),
                cd_score = so_add ops (cd_score e) ?r, cd_rerank_score = cd_rerank_score e,
                cd_reasons = dict_fromkeys (cd_reasons e @ [''matched:'' @ source, rrf_reason source rank])\<rparr>)"
  have A': "fst (fold (fuse_ranked ops) (ts @ [t]) ([], [])) = AList.update (chunk_id c) cd' A"
    using state by (simp add: t fuse_ranked_def Let_def cd'_def split: option.split)
  have "fused ops (ts @ [t]) (chunk_id c) cd'"
  proof (cases "map_of A (chunk_id c)")
    case None
    then have "contrib (chunk_id c) ts = []" using mem by (simp add: map_of_eq_None_iff)
    then show ?thesis using None same t by (simp add: fused_def cd'_def)
  next
    case (Some e)
    have "preferred_chunk c (cd_chunk e) \<in> {c, cd_chunk e}" by (simp add: preferred_chunk_def)
    moreover note e = vals [OF Some, unfolded fused_def]
    moreover have "sum_ranks ops (map (\<lambda>t. so_recip ops (RRF_RANK_CONSTANT + fst (snd t))) (contrib (chunk_id c) ts) @ [?r])
        = Some (so_add ops (cd_score e) ?r)"
      using e by (intro sum_ranks_snoc) simp
    ultimately show ?thesis
      using Some same t by (simp add: fused_def cd'_def dict_fromkeys_absorb) (metis (no_types, lifting))
  qed
  moreover have "fused ops (ts @ [t]) i cd" if "fused ops ts i cd" "i \<noteq> chunk_id c" for i cd
    using that other by (simp add: fused_def)
  ultimately have "\<forall>i cd. map_of (AList.update (chunk_id c) cd' A) i = Some cd \<longrightarrow> fused ops (ts @ [t]) i cd"
    using vals by (simp add: map_of_update)
  moreover have "map fst (AList.update (chunk_id c) cd' A) = dict_fromkeys (map (\<lambda>t. chunk_id (snd (snd t))) (ts @ [t]))"
    using keys by (simp add: map_fst_update dict_fromkeys_append t)
  ultimately show ?case unfolding A' by blast
qed

lemma matched_by_nonempty: "matched_by cs i \<noteq> [] \<longleftrightarrow> i \<in> chunk_id ` set cs"
  by (auto simp: matched_by_def filter_empty_conv source_order_def)

lemma distinct_matched_by: "distinct (matched_by cs i)"
  by (simp add: matched_by_def source_order_def)

lemma fused_entries:
  assumes "fused ops (rank_entries (ranked_by_source cs)) i cd"
  shows "candidate_id cd = i" and "cd_chunk cd \<in> set cs" and "cd_sources cd = matched_by cs i"
    and "Some (cd_score cd) = rrf_score ops cs i"
proof -
  note f = assms [unfolded fused_def contrib_entries]
  obtain s where s: "s \<in> set (matched_by cs i)" "cd_chunk cd = the (best_match s i cs)" using f by auto
  then obtain c where "best_match s i cs = Some c" using best_match_Some [of s i cs] by (auto simp: matched_by_def)
  then show "candidate_id cd = i" "cd_chunk cd \<in> set cs"
    using s(2) best_match_SomeD [of s i cs c] by (simp_all add: candidate_id_def)
  show "cd_sources cd = matched_by cs i" 
    using f dict_fromkeys_distinct [OF distinct_matched_by [of cs i]] by (simp add: comp_def)
  show "Some (cd_score cd) = rrf_score ops cs i" using f by (simp add: rrf_score_def comp_def)
qed

lemma fuse_shape:
  assumes "fold (fuse_ranked ops) (rank_entries (ranked_by_source cs)) ([], []) = (A, B)"
  shows "map candidate_id (map snd A) = map fst A" and "distinct (map fst A)" and "set (map fst A) = chunk_id ` set cs"
    and "\<And>cd. cd \<in> set (map snd A) \<Longrightarrow> fused ops (rank_entries (ranked_by_source cs)) (candidate_id cd) cd"
proof -
  let ?ts = "rank_entries (ranked_by_source cs)"
  have keys: "map fst A = dict_fromkeys (map (\<lambda>t. chunk_id (snd (snd t))) ?ts)"
    and vals: "\<And>i cd. map_of A i = Some cd \<Longrightarrow> fused ops ?ts i cd"
    using fuse_state [of ops ?ts] assms by auto
  show dist: "distinct (map fst A)" unfolding keys by simp
  have ent: "fused ops ?ts i cd" if "(i, cd) \<in> set A" for i cd using vals dist that by simp
  have id: "candidate_id cd = i" if "(i, cd) \<in> set A" for i cd by (rule fused_entries(1) [OF ent [OF that]])
  show "map candidate_id (map snd A) = map fst A" using id by auto
  show "fused ops ?ts (candidate_id cd) cd" if "cd \<in> set (map snd A)" for cd using that ent id by auto
  have "i \<in> (\<lambda>t. chunk_id (snd (snd t))) ` set ?ts \<longleftrightarrow> contrib i ?ts \<noteq> []" for i
    unfolding contrib_def filter_empty_conv image_iff by metis
  then have "i \<in> (\<lambda>t. chunk_id (snd (snd t))) ` set ?ts \<longleftrightarrow> i \<in> chunk_id ` set cs" for i
    using matched_by_nonempty [of cs i] by (simp add: contrib_entries)
  then show "set (map fst A) = chunk_id ` set cs" unfolding keys set_dict_fromkeys set_map by blast
qed

lemma fusion_key_score:
  "fusion_key best c \<le> fusion_key best d \<Longrightarrow> cd_score d \<le> cd_score c"
  by (auto simp: fusion_key_def less_eq_prod_def less_eq_desc_def less_desc_def)

lemma fuse_characterised:
  "distinct (map candidate_id (fuse_candidates ops chunks))
    \<and> set (map candidate_id (fuse_candidates ops chunks)) = chunk_id ` set chunks
    \<and> sorted_wrt (\<lambda>c d. cd_score d \<le> cd_score c) (fuse_candidates ops chunks)
    \<and> (\<forall>c \<in> set (fuse_candidates ops chunks).
         cd_sources c = matched_by chunks (candidate_id c) \<and> Some (cd_score c) = rrf_score ops chunks (candidate_id c)
         \<and> cd_chunk c \<in> set chunks)"
proof -
  obtain A B where st: "fold (fuse_ranked ops) (rank_entries (ranked_by_source chunks)) ([], []) = (A, B)" by fastforce
  have fuse: "fuse_candidates ops chunks = sort_key (fusion_key B) (map snd A)" using st by (simp add: fuse_candidates_def)
  note shape = fuse_shape [OF st]
  have "mset (map candidate_id (fuse_candidates ops chunks)) = mset (map candidate_id (map snd A))"
    unfolding fuse by (metis mset_map mset_sort)
  then have ids: "mset (map candidate_id (fuse_candidates ops chunks)) = mset (map fst A)" by (simp only: shape(1))
  have "distinct (map candidate_id (fuse_candidates ops chunks))"
    using ids shape(2) by (metis mset_eq_imp_distinct_iff)
  moreover have "set (map candidate_id (fuse_candidates ops chunks)) = chunk_id ` set chunks"
    using ids shape(3) by (metis set_mset_mset)
  moreover have "sorted_wrt (\<lambda>c d. cd_score d \<le> cd_score c) (fuse_candidates ops chunks)"
  proof -
    have "sorted_wrt (\<lambda>c d. fusion_key B c \<le> fusion_key B d) (fuse_candidates ops chunks)"
      unfolding fuse using sorted_sort_key [of "fusion_key B" "map snd A"] by (simp only: sorted_map)
    then show ?thesis by (rule sorted_wrt_mono_rel [rotated]) (rule fusion_key_score)
  qed
  moreover have "set (fuse_candidates ops chunks) = set (map snd A)" unfolding fuse by (simp only: set_sort)
  ultimately show ?thesis using fused_entries(2-4) [OF shape(4)] by blast
qed

text \<open>
  C37. Fusing the candidates computes reciprocal rank fusion: each identifier found by some source appears
  exactly once and no other does, with the sources that found it in order, the sum of its reciprocal
  ranks in those sources as score, and one of the given chunks as its chunk; the result is in descending
  order of score.
\<close>

theorem fuse_candidates_correct:
  "distinct (map candidate_id (fuse_candidates ops chunks))
    \<and> set (map candidate_id (fuse_candidates ops chunks)) = chunk_id ` set chunks
    \<and> sorted_wrt (\<lambda>c d. cd_score d \<le> cd_score c) (fuse_candidates ops chunks)
    \<and> (\<forall>c \<in> set (fuse_candidates ops chunks).
         cd_sources c = matched_by chunks (candidate_id c) \<and> Some (cd_score c) = rrf_score ops chunks (candidate_id c)
         \<and> cd_chunk c \<in> set chunks)"
  by (rule fuse_characterised)

section \<open>An instance\<close>

definition sample_ops :: "int score_ops" where
  "sample_ops = \<lparr>so_add = (+), so_recip = (\<lambda>n. 1000000 div int n)\<rparr>"

definition sample_indexed_document :: DocumentModel where
  "sample_indexed_document = \<lparr>d_id = ''d'', d_title = ''t'', d_content = '''', d_source_type = ''text'', d_source_filename = None,
     d_source_content_type = None, d_source_byte_size = None, d_source_sha256 = None, d_source_page_count = None,
     d_parser_name = None, d_original_file_id = None, d_ingestion_mode = ''standard'', d_processing_provenance_json = None,
     d_processed_at = None, d_owner_user_id = ''u'', d_group_id = None, d_knowledge_base_id = ''kb'', d_created_at = 0\<rparr>"

definition sample_retrieved :: "ident \<Rightarrow> int \<Rightarrow> string \<Rightarrow> int RetrievedChunk" where
  "sample_retrieved i score source = \<lparr>rc_chunk = \<lparr>ch_id = i, ch_document_id = ''d'', ch_extraction_run_id = ''r'', ch_ordinal = 0,
       ch_content = ''some text'', ch_start_offset = 0, ch_end_offset = 9, ch_source_page = None,
       ch_source_location_json = None, ch_embedding_index_id = None, ch_embedding_json = ''[]''\<rparr>,
     rc_document = sample_indexed_document, rc_score = score, rc_source = source\<rparr>"

definition sample_chunks :: "int RetrievedChunk list" where
  "sample_chunks = [sample_retrieved ''a'' 5 ''semantic_vector'', sample_retrieved ''b'' 7 ''semantic_vector'',
     sample_retrieved ''a'' 3 ''lexical'']"

theorem fuse_candidates_correct_witness:
  "candidate_id (hd (fuse_candidates sample_ops sample_chunks)) = ''a''
    \<and> cd_sources (hd (fuse_candidates sample_ops sample_chunks)) = [''semantic_vector'', ''lexical'']"
proof -
  let ?c = "hd (fuse_candidates sample_ops sample_chunks)"
  have first: "fuse_candidates sample_ops sample_chunks \<noteq> []" "candidate_id ?c = ''a''" by code_simp+
  then have "cd_sources ?c = matched_by sample_chunks ''a''"
    using fuse_candidates_correct [of sample_ops sample_chunks] hd_in_set by metis
  moreover have "matched_by sample_chunks ''a'' = [''semantic_vector'', ''lexical'']" by code_simp
  ultimately show ?thesis using first(2) by simp
qed

end
