(* ===== verification/Knowledge_Auth.thy ===== *)
theory Knowledge_Auth
  imports Group_Invitations
begin

text \<open>
  Who may use which source: document permissions (\<open>permissions/service.py\<close>,
  \<open>permissions/contracts.py\<close>), knowledge-base authorization (\<open>knowledge/auth.py\<close>), and the
  routes that create knowledge bases and grant document permissions
  (\<open>api/knowledge_bases.py\<close>, \<open>api/documents.py\<close>). A SQL predicate is the boolean function it
  computes on a row; a helper that raises an \<open>HTTPException\<close> returns it as \<open>Inl\<close>.
\<close>

record knowledge_db = groups_db +
  documents :: "DocumentModel list"
  document_permissions :: "DocumentPermissionModel list"

section \<open>Document permissions\<close>

datatype DocumentOperation = READ | WRITE | MANAGE_PERMISSIONS | DELETE | INGEST | RETRIEVE | CITE

definition explicit_allows :: "DocumentPermissionModel \<Rightarrow> DocumentOperation \<Rightarrow> bool" where
  "explicit_allows permission operation =
     (if operation \<in> {READ, RETRIEVE, CITE} then dp_can_read permission
      else if operation = WRITE then dp_can_write permission
      else if operation \<in> {MANAGE_PERMISSIONS, DELETE} then dp_can_manage permission
      else if operation = INGEST then dp_can_ingest permission
      else False)"

definition role_allows :: "string \<Rightarrow> DocumentOperation \<Rightarrow> bool" where
  "role_allows role operation =
     (if role \<in> {role_value OWNER, role_value ADMIN} then True
      else if role = role_value EDITOR then operation \<in> {READ, WRITE, INGEST, RETRIEVE, CITE}
      else if role = role_value VIEWER then operation \<in> {READ, RETRIEVE, CITE}
      else False)"

definition membership_of :: "ident \<Rightarrow> ident \<Rightarrow> 'a groups_db_scheme \<Rightarrow> MembershipModel option" where
  "membership_of group_id user_id db =
     scalar (\<lambda>m. m_group_id m = group_id \<and> m_user_id m = user_id) (memberships db)"

definition explicit_permission ::
  "ident \<Rightarrow> ident \<Rightarrow> 'a knowledge_db_scheme \<Rightarrow> DocumentPermissionModel option" where
  "explicit_permission document_id user_id db =
     scalar (\<lambda>p. dp_document_id p = document_id \<and> dp_user_id p = user_id) (document_permissions db)"

definition can :: "ident \<Rightarrow> DocumentModel \<Rightarrow> DocumentOperation \<Rightarrow> 'a knowledge_db_scheme \<Rightarrow> bool" where
  "can user_id document operation db =
     (if d_group_id document = None \<and> d_owner_user_id document = user_id then True
      else if (case explicit_permission (d_id document) user_id db of
                 None \<Rightarrow> False | Some p \<Rightarrow> explicit_allows p operation) then True
      else (case d_group_id document of
              None \<Rightarrow> False
            | Some g \<Rightarrow>
                (case membership_of g user_id db of
                   None \<Rightarrow> False
                 | Some m \<Rightarrow> role_allows (m_role m) operation)))"

section \<open>Knowledge-base predicates\<close>

definition is_system_knowledge_manager :: "Principal \<Rightarrow> bool" where
  "is_system_knowledge_manager who = can_manage_system_knowledge who"

definition system_knowledge_base_filter :: "KnowledgeBaseModel \<Rightarrow> bool" where
  "system_knowledge_base_filter kb \<longleftrightarrow> kb_scope kb = scope_value SYSTEM_SCOPE \<and> kb_group_id kb = None
     \<and> kb_purpose kb = purpose_value STANDARD"

definition has_group_membership :: "ident \<Rightarrow> ident \<Rightarrow> 'a groups_db_scheme \<Rightarrow> bool" where
  "has_group_membership group_id user_id db \<longleftrightarrow> membership_of group_id user_id db \<noteq> None"

definition user_can_select_knowledge_base :: "KnowledgeBaseModel \<Rightarrow> ident \<Rightarrow> 'a groups_db_scheme \<Rightarrow> bool" where
  "user_can_select_knowledge_base kb user_id db =
     (if kb_scope kb = scope_value PERSONAL
      then (if kb_group_id kb \<noteq> None then False else kb_owner_user_id kb = user_id)
      else if kb_scope kb = scope_value GROUP
      then (case kb_group_id kb of None \<Rightarrow> False | Some g \<Rightarrow> has_group_membership g user_id db)
      else False)"

definition member_group_ids :: "ident \<Rightarrow> 'a groups_db_scheme \<Rightarrow> ident list" where
  "member_group_ids user_id db = map m_group_id (scalars (\<lambda>m. m_user_id m = user_id) (memberships db))"

definition authorized_knowledge_base_filter :: "ident \<Rightarrow> 'a groups_db_scheme \<Rightarrow> KnowledgeBaseModel \<Rightarrow> bool" where
  "authorized_knowledge_base_filter user_id db kb \<longleftrightarrow>
     (kb_scope kb = scope_value PERSONAL \<and> kb_group_id kb = None \<and> kb_owner_user_id kb = user_id)
     \<or> (kb_scope kb = scope_value GROUP \<and> kb_group_id kb \<in> Some ` set (member_group_ids user_id db))"

definition selectable_knowledge_base_filter :: "ident \<Rightarrow> 'a groups_db_scheme \<Rightarrow> KnowledgeBaseModel \<Rightarrow> bool" where
  "selectable_knowledge_base_filter user_id db kb \<longleftrightarrow>
     authorized_knowledge_base_filter user_id db kb \<and> kb_purpose kb = purpose_value STANDARD"

definition management_visible_knowledge_base_filter ::
  "Principal \<Rightarrow> 'a groups_db_scheme \<Rightarrow> KnowledgeBaseModel \<Rightarrow> bool" where
  "management_visible_knowledge_base_filter who db kb \<longleftrightarrow>
     selectable_knowledge_base_filter (p_user_id who) db kb
     \<or> (is_system_knowledge_manager who \<and> system_knowledge_base_filter kb)"

definition retrievable_knowledge_base_filter :: "ident \<Rightarrow> 'a groups_db_scheme \<Rightarrow> KnowledgeBaseModel \<Rightarrow> bool" where
  "retrievable_knowledge_base_filter user_id db kb \<longleftrightarrow>
     selectable_knowledge_base_filter user_id db kb \<or> system_knowledge_base_filter kb"

section \<open>Lookups that conceal what the user may not see\<close>

abbreviation kb_not_found :: http_error where
  "kb_not_found \<equiv> HTTPException 404 ''knowledge base not found''"

definition get_knowledge_base :: "ident \<Rightarrow> 'a groups_db_scheme \<Rightarrow> KnowledgeBaseModel option" where
  "get_knowledge_base i db = get_row kb_id i (knowledge_bases db)"

definition get_authorized_knowledge_base_or_404 ::
  "'a groups_db_scheme \<Rightarrow> ident \<Rightarrow> ident \<Rightarrow> (http_error, KnowledgeBaseModel) res" where
  "get_authorized_knowledge_base_or_404 db knowledge_base_id user_id =
     (case get_knowledge_base knowledge_base_id db of
        None \<Rightarrow> Inl kb_not_found
      | Some kb \<Rightarrow> if user_can_select_knowledge_base kb user_id db then Inr kb else Inl kb_not_found)"

definition get_manageable_knowledge_base_or_404 ::
  "'a groups_db_scheme \<Rightarrow> ident \<Rightarrow> Principal \<Rightarrow> (http_error, KnowledgeBaseModel) res" where
  "get_manageable_knowledge_base_or_404 db knowledge_base_id who =
     (case get_knowledge_base knowledge_base_id db of
        None \<Rightarrow> Inl kb_not_found
      | Some kb \<Rightarrow>
          if kb_scope kb = scope_value SYSTEM_SCOPE
          then (if is_system_knowledge_manager who \<and> kb_purpose kb = purpose_value STANDARD
                then Inr kb else Inl kb_not_found)
          else if user_can_select_knowledge_base kb (p_user_id who) db then Inr kb
          else Inl kb_not_found)"

definition get_retrievable_knowledge_base_or_404 ::
  "'a groups_db_scheme \<Rightarrow> ident \<Rightarrow> Principal \<Rightarrow> (http_error, KnowledgeBaseModel) res" where
  "get_retrievable_knowledge_base_or_404 db knowledge_base_id who =
     (case get_knowledge_base knowledge_base_id db of
        None \<Rightarrow> Inl kb_not_found
      | Some kb \<Rightarrow>
          if kb_scope kb = scope_value SYSTEM_SCOPE
          then (if is_system_knowledge_manager who then Inr kb else Inl kb_not_found)
          else if \<not> user_can_select_knowledge_base kb (p_user_id who) db then Inl kb_not_found
          else if kb_purpose kb \<noteq> purpose_value STANDARD
          then Inl (HTTPException 422 ''knowledge base is not selectable for chat retrieval'')
          else Inr kb)"

definition require_group_write_access :: "'a groups_db_scheme \<Rightarrow> ident \<Rightarrow> ident \<Rightarrow> (http_error, unit) res" where
  "require_group_write_access db group_id user_id =
     (case membership_of group_id user_id db of
        None \<Rightarrow> Inl (HTTPException 403 ''not allowed'')
      | Some m \<Rightarrow>
          if m_role m \<notin> {role_value OWNER, role_value ADMIN, role_value EDITOR}
          then Inl (HTTPException 403 ''not allowed'') else Inr ())"

definition require_personal_knowledge_base_for_document_write ::
  "'a groups_db_scheme \<Rightarrow> ident \<Rightarrow> ident \<Rightarrow> (http_error, KnowledgeBaseModel) res" where
  "require_personal_knowledge_base_for_document_write db knowledge_base_id user_id =
     (case get_authorized_knowledge_base_or_404 db knowledge_base_id user_id of
        Inl e \<Rightarrow> Inl e
      | Inr kb \<Rightarrow>
          if kb_scope kb \<noteq> scope_value PERSONAL \<or> kb_group_id kb \<noteq> None
          then Inl (HTTPException 422 ''group knowledge bases accept documents through publish approval'')
          else if kb_owner_user_id kb \<noteq> user_id
          then Inl (HTTPException 422 ''direct document writes require an owned personal knowledge base'')
          else Inr kb)"

definition require_document_writable_knowledge_base ::
  "'a groups_db_scheme \<Rightarrow> ident \<Rightarrow> Principal \<Rightarrow> bool \<Rightarrow> (http_error, KnowledgeBaseModel) res" where
  "require_document_writable_knowledge_base db knowledge_base_id who allow_system_management =
     (case get_knowledge_base knowledge_base_id db of
        None \<Rightarrow> Inl kb_not_found
      | Some kb \<Rightarrow>
          if kb_scope kb = scope_value SYSTEM_SCOPE
          then (if allow_system_management \<and> is_system_knowledge_manager who then Inr kb else Inl kb_not_found)
          else require_personal_knowledge_base_for_document_write db knowledge_base_id (p_user_id who))"

section \<open>Chat source selection\<close>

record KnowledgeBaseSelectionContext =
  sel_mode :: string
  sel_knowledge_base_ids :: "ident list"
  sel_resolved_count :: nat
  sel_resolved_knowledge_base_ids :: "ident list"
  sel_ambient_system_knowledge_base_ids :: "ident list"
  sel_ambient_system_knowledge_base_count :: nat

definition retrieval_knowledge_base_ids :: "KnowledgeBaseSelectionContext \<Rightarrow> ident list option" where
  "retrieval_knowledge_base_ids ctx =
     (if sel_mode ctx = ''selected''
      then Some (dict_fromkeys
        ((if sel_resolved_knowledge_base_ids ctx \<noteq> [] then sel_resolved_knowledge_base_ids ctx
          else sel_knowledge_base_ids ctx) @ sel_ambient_system_knowledge_base_ids ctx))
      else None)"

definition resolve_system_ambient_knowledge_base_ids :: "'a groups_db_scheme \<Rightarrow> ident list" where
  "resolve_system_ambient_knowledge_base_ids db =
     map kb_id (sort_key (\<lambda>kb. (kb_created_at kb, kb_id kb))
       (scalars system_knowledge_base_filter (knowledge_bases db)))"

definition authorized_knowledge_base_count :: "'a groups_db_scheme \<Rightarrow> ident \<Rightarrow> nat" where
  "authorized_knowledge_base_count db user_id =
     rowcount (selectable_knowledge_base_filter user_id db) (knowledge_bases db)"

fun check_selected :: "'a groups_db_scheme \<Rightarrow> Principal \<Rightarrow> ident list \<Rightarrow> (http_error, unit) res" where
  "check_selected db who [] = Inr ()"
| "check_selected db who (i # is) =
     (case get_retrievable_knowledge_base_or_404 db i who of
        Inl e \<Rightarrow> Inl e
      | Inr _ \<Rightarrow> check_selected db who is)"

definition resolve_knowledge_base_selection ::
  "'a groups_db_scheme \<Rightarrow> Principal \<Rightarrow> string \<Rightarrow> ident list
    \<Rightarrow> (http_error, KnowledgeBaseSelectionContext) res" where
  "resolve_knowledge_base_selection db who mode knowledge_base_ids =
     (let ambient = resolve_system_ambient_knowledge_base_ids db
      in if mode = ''selected''
         then let resolved_ids = dict_fromkeys knowledge_base_ids
              in case check_selected db who resolved_ids of
                   Inl e \<Rightarrow> Inl e
                 | Inr _ \<Rightarrow> Inr \<lparr>sel_mode = mode, sel_knowledge_base_ids = resolved_ids,
                      sel_resolved_count = length resolved_ids, sel_resolved_knowledge_base_ids = resolved_ids,
                      sel_ambient_system_knowledge_base_ids = ambient,
                      sel_ambient_system_knowledge_base_count = length ambient\<rparr>
         else Inr \<lparr>sel_mode = ''all'', sel_knowledge_base_ids = [],
                sel_resolved_count = authorized_knowledge_base_count db (p_user_id who),
                sel_resolved_knowledge_base_ids = [], sel_ambient_system_knowledge_base_ids = ambient,
                sel_ambient_system_knowledge_base_count = length ambient\<rparr>)"

section \<open>Routes that create knowledge bases and grant permissions\<close>

definition has_group_manager_access :: "ident \<Rightarrow> ident \<Rightarrow> 'a groups_db_scheme \<Rightarrow> bool" where
  "has_group_manager_access group_id user_id db =
     (case membership_of group_id user_id db of
        None \<Rightarrow> False
      | Some m \<Rightarrow> m_role m \<in> {role_value OWNER, role_value ADMIN})"

definition insert_knowledge_base ::
  "KnowledgeBaseModel \<Rightarrow> 'a groups_db_scheme \<Rightarrow> (http_error, KnowledgeBaseModel) res \<times> 'a groups_db_scheme" where
  "insert_knowledge_base kb db =
     (let rows = insert_row kb (knowledge_bases db)
      in if unique_on kb_id rows then (Inr kb, db\<lparr>knowledge_bases := rows\<rparr>) else (Inl UncaughtError, db))"

definition create_knowledge_base ::
  "ident \<Rightarrow> time \<Rightarrow> string \<Rightarrow> KnowledgeBaseScope \<Rightarrow> ident option \<Rightarrow> Principal \<Rightarrow> 'a groups_db_scheme
    \<Rightarrow> (http_error, KnowledgeBaseModel) res \<times> 'a groups_db_scheme" where
  "create_knowledge_base new_id now name scope req_group_id who db =
     (let kb = (\<lambda>group_id. \<lparr>kb_id = new_id, kb_name = py_strip name, kb_scope = scope_value scope,
                   kb_owner_user_id = p_user_id who, kb_group_id = group_id,
                   kb_purpose = purpose_value STANDARD, kb_created_at = now\<rparr>)
      in case scope of
           GROUP \<Rightarrow>
             if (case req_group_id of None \<Rightarrow> True | Some g \<Rightarrow> \<not> has_group_manager_access g (p_user_id who) db)
             then (Inl (HTTPException 403 ''not allowed''), db)
             else insert_knowledge_base (kb req_group_id) db
         | SYSTEM_SCOPE \<Rightarrow>
             if req_group_id \<noteq> None
             then (Inl (HTTPException 422 ''system knowledge bases do not accept group_id''), db)
             else if \<not> is_system_knowledge_manager who then (Inl (HTTPException 403 ''not allowed''), db)
             else insert_knowledge_base (kb None) db
         | PERSONAL \<Rightarrow> insert_knowledge_base (kb None) db)"

definition is_staging :: "ident \<Rightarrow> KnowledgeBaseModel \<Rightarrow> bool" where
  "is_staging user_id kb \<longleftrightarrow> kb_owner_user_id kb = user_id \<and> kb_scope kb = scope_value PERSONAL
     \<and> kb_group_id kb = None \<and> kb_purpose kb = purpose_value TEAM_UPLOAD_STAGING"

definition ensure_team_upload_staging_knowledge_base ::
  "ident \<Rightarrow> time \<Rightarrow> Principal \<Rightarrow> 'a groups_db_scheme
    \<Rightarrow> (http_error, KnowledgeBaseModel) res \<times> 'a groups_db_scheme" where
  "ensure_team_upload_staging_knowledge_base new_id now who db =
     (case scalar (is_staging (p_user_id who)) (knowledge_bases db) of
        Some kb \<Rightarrow> (Inr kb, db)
      | None \<Rightarrow> insert_knowledge_base
          \<lparr>kb_id = new_id, kb_name = ''Group upload staging'', kb_scope = scope_value PERSONAL,
           kb_owner_user_id = p_user_id who, kb_group_id = None,
           kb_purpose = purpose_value TEAM_UPLOAD_STAGING, kb_created_at = now\<rparr> db)"

definition get_lifecycle_mutable_knowledge_base_or_404 ::
  "'a groups_db_scheme \<Rightarrow> ident \<Rightarrow> Principal \<Rightarrow> (http_error, KnowledgeBaseModel) res" where
  "get_lifecycle_mutable_knowledge_base_or_404 db knowledge_base_id who =
     (case get_knowledge_base knowledge_base_id db of
        None \<Rightarrow> Inl kb_not_found
      | Some kb \<Rightarrow>
          if kb_purpose kb \<noteq> purpose_value STANDARD then Inl kb_not_found
          else if kb_scope kb = scope_value SYSTEM_SCOPE
          then (if is_system_knowledge_manager who then Inr kb else Inl kb_not_found)
          else if kb_scope kb = scope_value PERSONAL
          then (if kb_group_id kb = None \<and> kb_owner_user_id kb = p_user_id who then Inr kb else Inl kb_not_found)
          else if kb_scope kb = scope_value GROUP
                  \<and> (case kb_group_id kb of None \<Rightarrow> False | Some g \<Rightarrow> has_group_manager_access g (p_user_id who) db)
          then Inr kb
          else Inl kb_not_found)"

definition update_knowledge_base ::
  "ident \<Rightarrow> string \<Rightarrow> Principal \<Rightarrow> 'a groups_db_scheme
    \<Rightarrow> (http_error, KnowledgeBaseModel) res \<times> 'a groups_db_scheme" where
  "update_knowledge_base knowledge_base_id name who db =
     (case get_lifecycle_mutable_knowledge_base_or_404 db knowledge_base_id who of
        Inl e \<Rightarrow> (Inl e, db)
      | Inr kb \<Rightarrow> (Inr (kb\<lparr>kb_name := py_strip name\<rparr>),
          db\<lparr>knowledge_bases := update_where (\<lambda>r. kb_id r = kb_id kb) (\<lambda>r. r\<lparr>kb_name := py_strip name\<rparr>)
                (knowledge_bases db)\<rparr>))"

definition assert_guest_access_active :: "time \<Rightarrow> Principal \<Rightarrow> 'a auth_db_scheme \<Rightarrow> (http_error, unit) res" where
  "assert_guest_access_active now who db =
     (if \<not> p_is_guest who then Inr ()
      else case get_user (p_user_id who) db of
             None \<Rightarrow> Inl (HTTPException 403 ''guest access expired'')
           | Some u \<Rightarrow>
               if u_account_type u \<noteq> ''guest''
                  \<or> (case u_guest_expires_at u of None \<Rightarrow> True | Some til \<Rightarrow> til \<le> now)
               then Inl (HTTPException 403 ''guest access expired'') else Inr ())"

record DocumentPermissionPatchRequest =
  pr_user_id :: ident
  pr_can_read :: bool
  pr_can_write :: bool
  pr_can_manage :: bool
  pr_can_ingest :: bool

definition patch_document_permission ::
  "ident \<Rightarrow> time \<Rightarrow> ident \<Rightarrow> DocumentPermissionPatchRequest \<Rightarrow> Principal \<Rightarrow> 'a knowledge_db_scheme
    \<Rightarrow> (http_error, DocumentPermissionModel) res \<times> 'a knowledge_db_scheme" where
  "patch_document_permission new_id now document_id req who db =
     (case assert_guest_access_active now who db of
        Inl e \<Rightarrow> (Inl e, db)
      | Inr _ \<Rightarrow>
          (case get_row d_id document_id (documents db) of
             None \<Rightarrow> (Inl (HTTPException 404 ''document not found''), db)
           | Some document \<Rightarrow>
               if \<not> can (p_user_id who) document MANAGE_PERMISSIONS db
               then (Inl (HTTPException 403 ''not allowed''), db)
               else
                 let set_flags = (\<lambda>p. p\<lparr>dp_can_read := pr_can_read req, dp_can_write := pr_can_write req,
                                        dp_can_manage := pr_can_manage req, dp_can_ingest := pr_can_ingest req\<rparr>)
                 in case explicit_permission document_id (pr_user_id req) db of
                      Some p \<Rightarrow> (Inr (set_flags p),
                        db\<lparr>document_permissions := update_where (\<lambda>r. dp_id r = dp_id p) set_flags
                              (document_permissions db)\<rparr>)
                    | None \<Rightarrow>
                        let p = set_flags \<lparr>dp_id = new_id, dp_document_id = document_id, dp_user_id = pr_user_id req,
                                 dp_can_read = True, dp_can_write = False, dp_can_manage = False,
                                 dp_can_ingest = False, dp_created_at = now\<rparr>;
                            rows = insert_row p (document_permissions db)
                        in if unique_on dp_id rows \<and> unique_on (\<lambda>p. (dp_document_id p, dp_user_id p)) rows
                           then (Inr p, db\<lparr>document_permissions := rows\<rparr>)
                           else (Inl UncaughtError, db)))"

section \<open>The membership directory\<close>

text \<open>
  The predicate on one loaded row asks whether a user belongs to a group; the SQL filter asks whether
  the group is among the user's groups. Both read the same directory.
\<close>

locale membership_directory =
  fixes belongs :: "ident \<Rightarrow> ident \<Rightarrow> 's \<Rightarrow> bool"
    and group_ids :: "ident \<Rightarrow> 's \<Rightarrow> ident list"
  assumes belongs_iff: "belongs g u s \<longleftrightarrow> g \<in> set (group_ids u s)"
begin

lemma optional_group_iff:
  "(case g of None \<Rightarrow> False | Some i \<Rightarrow> belongs i u s) \<longleftrightarrow> g \<in> Some ` set (group_ids u s)"
  by (cases g) (auto simp: belongs_iff)

end

lemma membership_of_None_iff:
  "membership_of g u db = None \<longleftrightarrow> (\<forall>m \<in> set (memberships db). \<not> (m_group_id m = g \<and> m_user_id m = u))"
  by (simp add: membership_of_def scalar_None_iff)

lemma membership_of_SomeD:
  "membership_of g u db = Some m \<Longrightarrow> m \<in> set (memberships db) \<and> m_group_id m = g \<and> m_user_id m = u"
  unfolding membership_of_def by (rule scalar_SomeD)

interpretation directory: membership_directory has_group_membership member_group_ids
proof unfold_locales
  show "has_group_membership g u db \<longleftrightarrow> g \<in> set (member_group_ids u db)" for g u and db :: "'a groups_db_scheme"
    by (auto simp: has_group_membership_def member_group_ids_def membership_of_None_iff image_iff
        simp del: not_None_eq)
qed

text \<open>
  The check on one knowledge base and the SQL predicate that lists knowledge bases agree on every
  row, and so do the retrieval surface and its parts: a knowledge base is retrievable for a user
  exactly when it has the standard purpose and either the user may select it or it is a public system
  knowledge base outside every group.
\<close>

theorem selection_predicates_agree:
  "(user_can_select_knowledge_base kb u db \<longleftrightarrow> authorized_knowledge_base_filter u db kb)
    \<and> (retrievable_knowledge_base_filter u db kb \<longleftrightarrow>
         kb_purpose kb = purpose_value STANDARD
         \<and> (user_can_select_knowledge_base kb u db
            \<or> kb_scope kb = scope_value SYSTEM_SCOPE \<and> kb_group_id kb = None))"
proof -
  have "user_can_select_knowledge_base kb u db \<longleftrightarrow> authorized_knowledge_base_filter u db kb"
    unfolding user_can_select_knowledge_base_def authorized_knowledge_base_filter_def directory.optional_group_iff
    by auto
  then show ?thesis
    by (auto simp: retrievable_knowledge_base_filter_def selectable_knowledge_base_filter_def
        system_knowledge_base_filter_def)
qed

section \<open>Concealment\<close>

text \<open>
  The contract of the lookups that end in 404: a missing row and a row the caller may not see give the
  same answer, and what is returned is the requested row, allowed for the caller.
\<close>

locale concealing_lookup =
  fixes lookup :: "ident \<Rightarrow> 's \<Rightarrow> 'r option"
    and gate :: "'s \<Rightarrow> ident \<Rightarrow> 'p \<Rightarrow> ('e, 'r) res"
    and allowed :: "'s \<Rightarrow> 'p \<Rightarrow> 'r \<Rightarrow> bool"
    and not_found :: 'e
  assumes gate_missing: "lookup i s = None \<Longrightarrow> gate s i p = Inl not_found"
    and gate_refused: "lookup i s = Some r \<Longrightarrow> \<not> allowed s p r \<Longrightarrow> gate s i p = Inl not_found"
    and gate_granted: "gate s i p = Inr r \<Longrightarrow> lookup i s = Some r \<and> allowed s p r"
begin

lemma indistinguishable:
  assumes "\<And>r. lookup i s = Some r \<Longrightarrow> \<not> allowed s p r" and "lookup j s' = None"
  shows "gate s i p = gate s' j p"
  using assms gate_missing gate_refused by (cases "lookup i s") auto

lemma not_found_if:
  assumes "\<And>r. lookup i s = Some r \<Longrightarrow> \<not> allowed s p r"
  shows "gate s i p = Inl not_found"
  using assms gate_missing gate_refused by (cases "lookup i s") auto

end

definition may_manage :: "'a groups_db_scheme \<Rightarrow> Principal \<Rightarrow> KnowledgeBaseModel \<Rightarrow> bool" where
  "may_manage db who kb \<longleftrightarrow>
     (if kb_scope kb = scope_value SYSTEM_SCOPE
      then is_system_knowledge_manager who \<and> kb_purpose kb = purpose_value STANDARD
      else user_can_select_knowledge_base kb (p_user_id who) db)"

definition may_chat :: "'a groups_db_scheme \<Rightarrow> Principal \<Rightarrow> KnowledgeBaseModel \<Rightarrow> bool" where
  "may_chat db who kb \<longleftrightarrow>
     (if kb_scope kb = scope_value SYSTEM_SCOPE then is_system_knowledge_manager who
      else user_can_select_knowledge_base kb (p_user_id who) db)"

definition may_mutate :: "'a groups_db_scheme \<Rightarrow> Principal \<Rightarrow> KnowledgeBaseModel \<Rightarrow> bool" where
  "may_mutate db who kb \<longleftrightarrow> kb_purpose kb = purpose_value STANDARD
     \<and> (kb_scope kb = scope_value SYSTEM_SCOPE \<and> is_system_knowledge_manager who
        \<or> kb_scope kb = scope_value PERSONAL \<and> kb_group_id kb = None \<and> kb_owner_user_id kb = p_user_id who
        \<or> kb_scope kb = scope_value GROUP
          \<and> (\<exists>g. kb_group_id kb = Some g \<and> has_group_manager_access g (p_user_id who) db))"

interpretation authorized: concealing_lookup get_knowledge_base get_authorized_knowledge_base_or_404
  "\<lambda>db u kb. user_can_select_knowledge_base kb u db" kb_not_found
  by unfold_locales (auto simp: get_authorized_knowledge_base_or_404_def split: option.splits if_splits)

interpretation manageable: concealing_lookup get_knowledge_base get_manageable_knowledge_base_or_404
  may_manage kb_not_found
  by unfold_locales
    (auto simp: get_manageable_knowledge_base_or_404_def may_manage_def split: option.splits if_splits)

interpretation retrievable: concealing_lookup get_knowledge_base get_retrievable_knowledge_base_or_404
  may_chat kb_not_found
  by unfold_locales
    (auto simp: get_retrievable_knowledge_base_or_404_def may_chat_def split: option.splits if_splits)

interpretation mutable: concealing_lookup get_knowledge_base get_lifecycle_mutable_knowledge_base_or_404
  may_mutate kb_not_found
  by unfold_locales
    (auto simp: get_lifecycle_mutable_knowledge_base_or_404_def may_mutate_def split: option.splits if_splits)

text \<open>
  C20. A guest or ordinary user learns nothing about a knowledge base that is not theirs: if it is
  neither a personal one they own nor one of a group they belong to, then every route's lookup answers
  exactly as for an identifier that does not exist.
\<close>

theorem foreign_knowledge_base_concealed:
  assumes "\<not> is_system_knowledge_manager who"
    and "get_knowledge_base i db = Some kb" and "\<not> user_can_select_knowledge_base kb (p_user_id who) db"
    and "get_knowledge_base j db = None"
  shows "get_authorized_knowledge_base_or_404 db i (p_user_id who) = get_authorized_knowledge_base_or_404 db j (p_user_id who)
    \<and> get_manageable_knowledge_base_or_404 db i who = get_manageable_knowledge_base_or_404 db j who
    \<and> get_retrievable_knowledge_base_or_404 db i who = get_retrievable_knowledge_base_or_404 db j who
    \<and> get_lifecycle_mutable_knowledge_base_or_404 db i who = get_lifecycle_mutable_knowledge_base_or_404 db j who
    \<and> require_document_writable_knowledge_base db i who sys = require_document_writable_knowledge_base db j who sys"
proof -
  have mutate: "\<not> may_mutate db who kb"
  proof
    assume "may_mutate db who kb"
    moreover have "has_group_membership g (p_user_id who) db" if "has_group_manager_access g (p_user_id who) db" for g
      using that by (auto simp: has_group_manager_access_def has_group_membership_def split: option.splits)
    ultimately show False
      using assms(1,3) by (auto simp: may_mutate_def user_can_select_knowledge_base_def)
  qed
  have auth: "get_authorized_knowledge_base_or_404 db i (p_user_id who) = Inl kb_not_found"
    using assms(2,3) by (intro authorized.not_found_if) auto
  have "require_document_writable_knowledge_base db i who sys = Inl kb_not_found"
    using assms(1,2) auth
    by (simp add: require_document_writable_knowledge_base_def require_personal_knowledge_base_for_document_write_def)
  moreover have "require_document_writable_knowledge_base db j who sys = Inl kb_not_found"
    using assms(4) by (simp add: require_document_writable_knowledge_base_def)
  ultimately show ?thesis
    using assms mutate authorized.indistinguishable [of i db "p_user_id who" j db]
      manageable.indistinguishable [of i db who j db] retrievable.indistinguishable [of i db who j db]
      mutable.indistinguishable [of i db who j db]
    by (auto simp: may_manage_def may_chat_def)
qed

section \<open>The knowledge-base table\<close>

definition kb_wf :: "KnowledgeBaseModel \<Rightarrow> bool" where
  "kb_wf kb \<longleftrightarrow>
     (kb_scope kb = scope_value PERSONAL \<and> kb_group_id kb = None)
     \<or> (kb_scope kb = scope_value GROUP \<and> kb_group_id kb \<noteq> None \<and> kb_purpose kb = purpose_value STANDARD)
     \<or> (kb_scope kb = scope_value SYSTEM_SCOPE \<and> kb_group_id kb = None \<and> kb_purpose kb = purpose_value STANDARD)"

definition kb_inv :: "'a groups_db_scheme \<Rightarrow> bool" where
  "kb_inv db \<longleftrightarrow> unique_on kb_id (knowledge_bases db) \<and> (\<forall>kb \<in> set (knowledge_bases db). kb_wf kb)
     \<and> (\<forall>u. rowcount (is_staging u) (knowledge_bases db) \<le> 1)"

inductive kb_step :: "'a groups_db_scheme \<Rightarrow> 'a groups_db_scheme \<Rightarrow> bool" where
  kb_group: "kb_step db (snd (create_group gf now name who db))"
| kb_create: "kb_step db (snd (create_knowledge_base nid now name scope gid who db))"
| kb_staging: "kb_step db (snd (ensure_team_upload_staging_knowledge_base nid now who db))"
| kb_rename: "kb_step db (snd (update_knowledge_base i name who db))"

lemma rowcount_insert_row: "rowcount p (insert_row r rs) = rowcount p rs + (if p r then 1 else 0)"
  by (simp add: rowcount_def insert_row_def)

lemma rowcount_zero: "scalar p rs = None \<Longrightarrow> rowcount p rs = 0"
  using rowcount_pos [of p rs] by (auto simp: scalar_None_iff)

lemma kb_inv_insert:
  assumes "kb_inv db" and "kb_wf kb" and "\<And>u. is_staging u kb \<Longrightarrow> rowcount (is_staging u) (knowledge_bases db) = 0"
  shows "kb_inv (snd (insert_knowledge_base kb db))"
  using assms by (auto simp: insert_knowledge_base_def Let_def kb_inv_def rowcount_insert_row)

lemma kb_step_inv: "kb_step db db' \<Longrightarrow> kb_inv db \<Longrightarrow> kb_inv db'"
proof (induction rule: kb_step.induct)
  case (kb_group db gf now name who)
  then show ?case
    by (auto simp: create_group_def Let_def kb_inv_def kb_wf_def rowcount_insert_row is_staging_def)
next
  case (kb_create db nid now name scope gid who)
  then show ?case
    by (auto simp: create_knowledge_base_def Let_def kb_wf_def is_staging_def split: KnowledgeBaseScope.split
        intro!: kb_inv_insert)
next
  case (kb_staging db nid now who)
  then show ?case
    by (auto simp: ensure_team_upload_staging_knowledge_base_def kb_wf_def split: option.split
        intro!: kb_inv_insert rowcount_zero) (auto simp: is_staging_def)
next
  case (kb_rename db i name who)
  have "kb_inv (db\<lparr>knowledge_bases := update_where p (\<lambda>r. r\<lparr>kb_name := v\<rparr>) (knowledge_bases db)\<rparr>)" for p v
    using kb_rename
    by (auto simp: kb_inv_def unique_on_update_where set_update_where kb_wf_def rowcount_update_same is_staging_def)
  with kb_rename show ?case by (auto simp: update_knowledge_base_def split: sum.split)
qed

definition no_knowledge_bases :: "'a groups_db_scheme \<Rightarrow> bool" where
  "no_knowledge_bases db \<longleftrightarrow> knowledge_bases db = []"

interpretation kb_sys: invariant_system no_knowledge_bases kb_step kb_inv
proof unfold_locales
  show "kb_inv db" if "no_knowledge_bases db" for db :: "'a groups_db_scheme"
    using that by (simp add: no_knowledge_bases_def kb_inv_def unique_on_def rowcount_def)
  show "kb_inv t" if "kb_inv s" "kb_step s t" for s t :: "'a groups_db_scheme"
    using that kb_step_inv by blast
qed

section \<open>Selections stay inside the authorized scope\<close>

lemma check_selected_ok:
  "check_selected db who is = Inr () \<Longrightarrow> i \<in> set is \<Longrightarrow> \<exists>kb. get_retrievable_knowledge_base_or_404 db i who = Inr kb"
  by (induction db who "is" rule: check_selected.induct) (auto split: sum.splits)

lemma get_knowledge_base_SomeD:
  "get_knowledge_base i db = Some kb \<Longrightarrow> kb \<in> set (knowledge_bases db) \<and> kb_id kb = i"
  unfolding get_knowledge_base_def by (rule get_row_SomeD)

lemma retrievable_gate_filter:
  assumes "get_retrievable_knowledge_base_or_404 db i who = Inr kb" and "kb_inv db"
  shows "kb \<in> set (knowledge_bases db) \<and> kb_id kb = i \<and> retrievable_knowledge_base_filter (p_user_id who) db kb"
proof -
  have row: "kb \<in> set (knowledge_bases db)" "kb_id kb = i" and chat: "may_chat db who kb"
    using retrievable.gate_granted [OF assms(1)] get_knowledge_base_SomeD by blast+
  have "kb_scope kb = scope_value SYSTEM_SCOPE \<or> kb_purpose kb = purpose_value STANDARD"
    using assms(1) by (auto simp: get_retrievable_knowledge_base_or_404_def split: option.splits if_splits)
  moreover have "kb_wf kb" using row assms(2) by (simp add: kb_inv_def)
  ultimately have "kb_purpose kb = purpose_value STANDARD
      \<and> (user_can_select_knowledge_base kb (p_user_id who) db
         \<or> kb_scope kb = scope_value SYSTEM_SCOPE \<and> kb_group_id kb = None)"
    using chat by (auto simp: may_chat_def kb_wf_def split: if_splits)
  then show ?thesis using row
    by (auto simp: retrievable_knowledge_base_filter_def selectable_knowledge_base_filter_def
        system_knowledge_base_filter_def user_can_select_knowledge_base_def authorized_knowledge_base_filter_def
        directory.optional_group_iff split: if_splits)
qed

lemma ambient_ids:
  "i \<in> set (resolve_system_ambient_knowledge_base_ids db)
    \<longleftrightarrow> (\<exists>kb \<in> set (knowledge_bases db). kb_id kb = i \<and> system_knowledge_base_filter kb)"
  by (auto simp: resolve_system_ambient_knowledge_base_ids_def image_iff)

lemma selection_scope:
  assumes "reachable no_knowledge_bases kb_step db"
    and "resolve_knowledge_base_selection db who ''selected'' ids = Inr ctx"
  shows "\<exists>scope. retrieval_knowledge_base_ids ctx = Some scope \<and> distinct scope
    \<and> set scope = set ids \<union> set (resolve_system_ambient_knowledge_base_ids db)
    \<and> (\<forall>i \<in> set scope. \<exists>kb \<in> set (knowledge_bases db). kb_id kb = i
         \<and> retrievable_knowledge_base_filter (p_user_id who) db kb)"
proof -
  let ?amb = "resolve_system_ambient_knowledge_base_ids db"
  have inv: "kb_inv db" using kb_sys.reachable_inv [OF assms(1)] .
  have checked: "check_selected db who (dict_fromkeys ids) = Inr ()"
    and ctx: "retrieval_knowledge_base_ids ctx = Some (dict_fromkeys (dict_fromkeys ids @ ?amb))"
    using assms(2)
    by (auto simp: resolve_knowledge_base_selection_def retrieval_knowledge_base_ids_def Let_def split: sum.splits)
  have "\<exists>kb \<in> set (knowledge_bases db). kb_id kb = i \<and> retrievable_knowledge_base_filter (p_user_id who) db kb"
    if "i \<in> set ids \<union> set ?amb" for i
    using that
  proof
    assume "i \<in> set ids"
    then show ?thesis using check_selected_ok [OF checked] retrievable_gate_filter [OF _ inv] by fastforce
  next
    assume "i \<in> set ?amb"
    then show ?thesis unfolding ambient_ids by (auto simp: retrievable_knowledge_base_filter_def)
  qed
  then show ?thesis using ctx by simp
qed

text \<open>
  A chat turn that selects knowledge bases searches exactly the requested ones plus the public
  system ones, each once, and every one of them passes the retrieval filter of the requesting user, in
  every state the routes can reach.
\<close>

theorem selection_within_scope:
  assumes "reachable no_knowledge_bases kb_step db"
    and "resolve_knowledge_base_selection db who ''selected'' ids = Inr ctx"
  shows "\<exists>scope. retrieval_knowledge_base_ids ctx = Some scope \<and> distinct scope
    \<and> set scope = set ids \<union> set (resolve_system_ambient_knowledge_base_ids db)
    \<and> (\<forall>i \<in> set scope. \<exists>kb \<in> set (knowledge_bases db). kb_id kb = i
         \<and> retrievable_knowledge_base_filter (p_user_id who) db kb)"
  by (rule selection_scope [OF assms])

section \<open>Document permissions deny by default\<close>


lemma scalar_update_other:
  assumes "\<And>r. r \<in> set rs \<Longrightarrow> q r \<Longrightarrow> \<not> p r \<and> \<not> p (f r)"
  shows "scalar p (update_where q f rs) = scalar p rs"
  using assms by (induction rs) (auto simp: scalar_def update_where_def)

text \<open>
  C22. Granting a permission succeeds only for someone who may manage the document's permissions; the
  grant then reads back exactly as requested, and no other user's grant and no other document's grants
  change.
\<close>

theorem permission_grant_roundtrip:
  assumes "patch_document_permission nid now did req who db = (Inr p, db')"
    and "unique_on dp_id (document_permissions db)"
  shows "(\<exists>d \<in> set (documents db). d_id d = did \<and> can (p_user_id who) d MANAGE_PERMISSIONS db)
    \<and> explicit_permission did (pr_user_id req) db' = Some p
    \<and> dp_can_read p = pr_can_read req \<and> dp_can_write p = pr_can_write req
    \<and> dp_can_manage p = pr_can_manage req \<and> dp_can_ingest p = pr_can_ingest req
    \<and> (\<forall>d u. (d, u) \<noteq> (did, pr_user_id req) \<longrightarrow> explicit_permission d u db' = explicit_permission d u db)"
proof -
  let ?f = "\<lambda>p. p\<lparr>dp_can_read := pr_can_read req, dp_can_write := pr_can_write req,
      dp_can_manage := pr_can_manage req, dp_can_ingest := pr_can_ingest req\<rparr>"
  obtain d where d: "get_row d_id did (documents db) = Some d" "can (p_user_id who) d MANAGE_PERMISSIONS db"
    using assms(1) by (auto simp: patch_document_permission_def split: sum.splits option.splits if_splits)
  then have doc: "\<exists>d \<in> set (documents db). d_id d = did \<and> can (p_user_id who) d MANAGE_PERMISSIONS db"
    using get_row_SomeD by fastforce
  show ?thesis
  proof (cases "explicit_permission did (pr_user_id req) db")
    case None
    then have free: "\<forall>r \<in> set (document_permissions db). \<not> (dp_document_id r = did \<and> dp_user_id r = pr_user_id req)"
      by (simp add: explicit_permission_def scalar_None_iff)
    have p: "dp_document_id p = did" "dp_user_id p = pr_user_id req" "p = ?f p"
      and db': "document_permissions db' = insert_row p (document_permissions db)"
      using assms(1) d None by (auto simp: patch_document_permission_def Let_def split: sum.splits if_splits)
    have flags: "dp_can_read p = pr_can_read req" "dp_can_write p = pr_can_write req"
      "dp_can_manage p = pr_can_manage req" "dp_can_ingest p = pr_can_ingest req"
      by (subst p(3), simp)+
    show ?thesis
      using doc free p(1,2) db' flags None unfolding explicit_permission_def scalar_insert_row
      by (auto simp: db' scalar_insert_row split: option.splits)
  next
    case (Some q)
    have q: "q \<in> set (document_permissions db)" "dp_document_id q = did" "dp_user_id q = pr_user_id req"
      using scalar_SomeD [OF Some [unfolded explicit_permission_def]] by auto
    have p: "p = ?f q" and db': "document_permissions db' = update_where (\<lambda>r. dp_id r = dp_id q) ?f (document_permissions db)"
      using assms(1) d Some by (auto simp: patch_document_permission_def Let_def split: sum.splits if_splits)
    have same: "r = q" if "r \<in> set (document_permissions db)" "dp_id r = dp_id q" for r
      using unique_onD [OF assms(2) that(1) q(1) that(2)] .
    have "explicit_permission did (pr_user_id req) db' = Some p"
      using Some p unfolding explicit_permission_def db' by (subst scalar_update_where) auto
    moreover have "explicit_permission e u db' = explicit_permission e u db" if "(e, u) \<noteq> (did, pr_user_id req)" for e u
      using that same q unfolding explicit_permission_def db' by (intro scalar_update_other) auto
    ultimately show ?thesis using doc p by auto
  qed
qed

section \<open>Instances\<close>

definition sample_kb_db :: groups_db where
  "sample_kb_db = snd (create_knowledge_base ''k2'' 2 ''Mine'' PERSONAL None sample_owner
     (snd (create_group \<lparr>gf_group_id = ''g1'', gf_membership_id = ''m1'', gf_knowledge_base_id = ''k1''\<rparr>
        1 ''Team'' sample_owner empty_groups_db)))"

definition sample_stranger :: Principal where
  "sample_stranger = \<lparr>p_user_id = ''u9'', p_session_id = ''s9'', p_is_guest = True, p_user_type = ''root''\<rparr>"

lemma sample_kb_reachable: "reachable no_knowledge_bases kb_step sample_kb_db"
proof -
  have "reachable no_knowledge_bases kb_step empty_groups_db"
    by (rule reachable.start) (simp add: no_knowledge_bases_def empty_groups_db_def auth_db.defs)
  then show ?thesis
    unfolding sample_kb_db_def
    by (rule reachable.next_state [OF reachable.next_state]) (rule kb_group, rule kb_create)
qed

theorem foreign_knowledge_base_concealed_witness:
  "get_manageable_knowledge_base_or_404 sample_kb_db ''k1'' sample_stranger
     = get_manageable_knowledge_base_or_404 sample_kb_db ''zz'' sample_stranger"
proof -
  have "\<not> is_system_knowledge_manager sample_stranger"
    "get_knowledge_base ''k1'' sample_kb_db = Some (hd (knowledge_bases sample_kb_db))"
    "\<not> user_can_select_knowledge_base (hd (knowledge_bases sample_kb_db)) (p_user_id sample_stranger) sample_kb_db"
    "get_knowledge_base ''zz'' sample_kb_db = None"
    by code_simp+
  from foreign_knowledge_base_concealed [OF this] show ?thesis by blast
qed

theorem selection_within_scope_witness:
  "\<exists>ctx scope. resolve_knowledge_base_selection sample_kb_db sample_owner ''selected'' [''k1'', ''k2'', ''k1''] = Inr ctx
     \<and> retrieval_knowledge_base_ids ctx = Some scope \<and> set scope \<supseteq> {''k1'', ''k2''}"
proof -
  have "is_ok (resolve_knowledge_base_selection sample_kb_db sample_owner ''selected'' [''k1'', ''k2'', ''k1''])"
    by code_simp
  then obtain ctx where run: "resolve_knowledge_base_selection sample_kb_db sample_owner ''selected''
      [''k1'', ''k2'', ''k1''] = Inr ctx" by (rule is_okE)
  from selection_within_scope [OF sample_kb_reachable run] run show ?thesis by auto
qed

definition sample_document :: DocumentModel where
  "sample_document = \<lparr>d_id = ''d1'', d_title = ''T'', d_content = ''C'', d_source_type = ''text'',
     d_source_filename = None, d_source_content_type = None, d_source_byte_size = None, d_source_sha256 = None,
     d_source_page_count = None, d_parser_name = None, d_original_file_id = None, d_ingestion_mode = ''standard'',
     d_processing_provenance_json = None, d_processed_at = None, d_owner_user_id = ''u3'', d_group_id = Some ''g1'',
     d_knowledge_base_id = ''k1'', d_created_at = 1\<rparr>"

definition sample_doc_db :: knowledge_db where
  "sample_doc_db = groups_db.extend (groups_db.truncate sample_kb_db)
     \<lparr>documents = [sample_document], document_permissions = []\<rparr>"


theorem permission_grant_roundtrip_witness:
  "\<exists>p db'. patch_document_permission ''p1'' 5 ''d1'' \<lparr>pr_user_id = ''u3'', pr_can_read = True, pr_can_write = False,
       pr_can_manage = False, pr_can_ingest = False\<rparr> sample_owner sample_doc_db = (Inr p, db')
     \<and> explicit_permission ''d1'' ''u3'' db' = Some p \<and> dp_can_read p"
proof -
  let ?req = "\<lparr>pr_user_id = ''u3'', pr_can_read = True, pr_can_write = False, pr_can_manage = False,
    pr_can_ingest = False\<rparr>"
  have "is_ok (fst (patch_document_permission ''p1'' 5 ''d1'' ?req sample_owner sample_doc_db))" by code_simp
  then obtain p db' where run: "patch_document_permission ''p1'' 5 ''d1'' ?req sample_owner sample_doc_db = (Inr p, db')"
    using is_ok_pair by blast
  have "unique_on dp_id (document_permissions sample_doc_db)" by code_simp
  from permission_grant_roundtrip [OF run this] run show ?thesis by auto
qed

end
