(* ===== verification/Retrieval_Access.thy ===== *)
theory Retrieval_Access
  imports Context_Fusion Knowledge_Auth
begin

text \<open>
  The authorization filter of retrieval and the row queries built on it (\<open>knowledge/retrieval.py\<close>).
  A SQL predicate on documents is the boolean function it computes on a row of a database, with a
  comparison against a NULL column false; a join is the list of matching pairs, in table order before
  the \<open>ORDER BY\<close> is applied (the database leaves ties open, the model keeps table order).
\<close>

record retrieval_db = knowledge_db +
  document_chunks :: "DocumentChunkModel list"
  metadata_profiles :: "DocumentMetadataProfileModel list"
  entity_mentions :: "EntityMentionModel list"
  structured_entities :: "StructuredKnowledgeEntityModel list"

section \<open>The filter\<close>

definition system_knowledge_base_ids :: "bool \<Rightarrow> 'a groups_db_scheme \<Rightarrow> ident list" where
  "system_knowledge_base_ids require_standard_purpose db =
     map kb_id (scalars (\<lambda>kb. kb_scope kb = scope_value SYSTEM_SCOPE \<and> kb_group_id kb = None
       \<and> (require_standard_purpose \<longrightarrow> kb_purpose kb = purpose_value STANDARD)) (knowledge_bases db))"

definition unpublished_knowledge_base_filter :: "ident \<Rightarrow> bool \<Rightarrow> 'a groups_db_scheme \<Rightarrow> KnowledgeBaseModel \<Rightarrow> bool" where
  "unpublished_knowledge_base_filter user_id require_standard_purpose db kb \<longleftrightarrow>
     (kb_scope kb = ''personal'' \<and> kb_group_id kb = None \<and> kb_owner_user_id kb = user_id
        \<and> (require_standard_purpose \<longrightarrow> kb_purpose kb = ''standard''))
     \<or> (kb_scope kb = ''group'' \<and> kb_group_id kb \<in> Some ` set (member_group_ids user_id db)
        \<and> (require_standard_purpose \<longrightarrow> kb_purpose kb = ''standard''))
     \<or> (kb_scope kb = scope_value SYSTEM_SCOPE \<and> kb_group_id kb = None
        \<and> (require_standard_purpose \<longrightarrow> kb_purpose kb = purpose_value STANDARD))"

definition knowledge_base_scope_filter ::
  "ident \<Rightarrow> ident list option \<Rightarrow> bool \<Rightarrow> bool \<Rightarrow> 'a groups_db_scheme \<Rightarrow> DocumentModel \<Rightarrow> bool" where
  "knowledge_base_scope_filter user_id knowledge_base_ids include_published require_standard_purpose db d =
     (let authorized_filter =
            (if include_published
             then (if require_standard_purpose then retrievable_knowledge_base_filter user_id db
                   else authorized_knowledge_base_filter user_id db)
             else unpublished_knowledge_base_filter user_id require_standard_purpose db);
          authorized_kb_ids = map kb_id (scalars authorized_filter (knowledge_bases db))
      in case knowledge_base_ids of
           None \<Rightarrow> d_knowledge_base_id d \<in> set authorized_kb_ids
         | Some ids \<Rightarrow>
             if dict_fromkeys ids = [] then False
             else d_knowledge_base_id d \<in> set (dict_fromkeys ids) \<and> d_knowledge_base_id d \<in> set authorized_kb_ids)"

definition explicit_doc_ids :: "ident \<Rightarrow> 'a knowledge_db_scheme \<Rightarrow> ident list" where
  "explicit_doc_ids user_id db =
     map dp_document_id (scalars (\<lambda>p. dp_user_id p = user_id \<and> dp_can_read p) (document_permissions db))"

definition standard_knowledge_base_ids :: "'a groups_db_scheme \<Rightarrow> ident list" where
  "standard_knowledge_base_ids db = map kb_id (scalars (\<lambda>kb. kb_purpose kb = purpose_value STANDARD) (knowledge_bases db))"

definition authorized_document_filter ::
  "ident \<Rightarrow> ident list option \<Rightarrow> bool \<Rightarrow> bool \<Rightarrow> 'a knowledge_db_scheme \<Rightarrow> DocumentModel \<Rightarrow> bool" where
  "authorized_document_filter user_id knowledge_base_ids include_published require_standard_purpose db d =
     (let knowledge_base_scope =
            knowledge_base_scope_filter user_id knowledge_base_ids include_published require_standard_purpose db d;
          knowledge_base_scoped =
            (d_group_id d = None \<and> d_owner_user_id d = user_id)
            \<or> d_group_id d \<in> Some ` set (member_group_ids user_id db)
            \<or> d_knowledge_base_id d \<in> set (system_knowledge_base_ids require_standard_purpose db);
          explicit_scope =
            (case knowledge_base_ids of None \<Rightarrow> True | Some ids \<Rightarrow> d_knowledge_base_id d \<in> set (dict_fromkeys ids))
            \<and> (require_standard_purpose \<longrightarrow> d_knowledge_base_id d \<in> set (standard_knowledge_base_ids db))
      in (knowledge_base_scope \<and> knowledge_base_scoped)
         \<or> (d_id d \<in> set (explicit_doc_ids user_id db) \<and> explicit_scope))"

text \<open>The count and option queries leave \<open>include_published_personal_kbs\<close> at its default.\<close>

definition user_selectable_document_filter ::
  "ident \<Rightarrow> ident list option \<Rightarrow> bool \<Rightarrow> 'a knowledge_db_scheme \<Rightarrow> DocumentModel \<Rightarrow> bool" where
  "user_selectable_document_filter user_id knowledge_base_ids require_standard_purpose db d \<longleftrightarrow>
     authorized_document_filter user_id knowledge_base_ids True require_standard_purpose db d
     \<and> d_knowledge_base_id d \<notin> set (system_knowledge_base_ids require_standard_purpose db)"

text \<open>
  What the schema has: the publications table authorizes nothing any more, the \<open>purpose\<close> column exists
  in the modelled schema.
\<close>

definition schema_has_knowledge_base_publications :: bool where
  "schema_has_knowledge_base_publications = False"

section \<open>Row queries\<close>

type_synonym chunk_row = "DocumentChunkModel \<times> DocumentModel"

definition join_documents :: "('r \<Rightarrow> ident) \<Rightarrow> (DocumentModel \<Rightarrow> bool) \<Rightarrow> 'r list \<Rightarrow> 'a knowledge_db_scheme \<Rightarrow> ('r \<times> DocumentModel) list" where
  "join_documents document_id p rows db =
     concat (map (\<lambda>r. map (Pair r) (filter (\<lambda>d. d_id d = document_id r \<and> p d) (documents db))) rows)"

lemma join_documents_iff:
  "(r, d) \<in> set (join_documents f p rows db) \<longleftrightarrow> r \<in> set rows \<and> d \<in> set (documents db) \<and> d_id d = f r \<and> p d"
  by (auto simp: join_documents_def)

definition retrieval_filter :: "ident \<Rightarrow> ident list option \<Rightarrow> bool \<Rightarrow> 'a knowledge_db_scheme \<Rightarrow> DocumentModel \<Rightarrow> bool" where
  "retrieval_filter user_id knowledge_base_ids require_standard_purpose db =
     authorized_document_filter user_id knowledge_base_ids schema_has_knowledge_base_publications require_standard_purpose db"

text \<open>The structured query and the counts leave \<open>include_published_personal_kbs\<close> at its default.\<close>

definition retrieval_filter_published :: "ident \<Rightarrow> ident list option \<Rightarrow> bool \<Rightarrow> 'a knowledge_db_scheme \<Rightarrow> DocumentModel \<Rightarrow> bool" where
  "retrieval_filter_published user_id knowledge_base_ids require_standard_purpose db =
     authorized_document_filter user_id knowledge_base_ids True require_standard_purpose db"

definition row_key :: "chunk_row \<Rightarrow> time desc \<times> int" where
  "row_key row = (Desc (d_created_at (snd row)), ch_ordinal (fst row))"

definition sort_authorized_chunk_rows :: "chunk_row list \<Rightarrow> chunk_row list" where
  "sort_authorized_chunk_rows rows = sort_key row_key rows"

definition authorized_chunk_rows :: "ident \<Rightarrow> ident list option \<Rightarrow> bool \<Rightarrow> 'a retrieval_db_scheme \<Rightarrow> chunk_row list" where
  "authorized_chunk_rows user_id ids require db =
     sort_authorized_chunk_rows (join_documents ch_document_id (retrieval_filter user_id ids require db) (document_chunks db) db)"

definition authorized_document_rows :: "ident \<Rightarrow> ident list option \<Rightarrow> bool \<Rightarrow> 'a retrieval_db_scheme \<Rightarrow> DocumentModel list" where
  "authorized_document_rows user_id ids require db =
     sort_key (\<lambda>d. (Desc (d_created_at d), d_id d)) (filter (retrieval_filter user_id ids require db) (documents db))"

definition authorized_metadata_profile_rows ::
  "ident \<Rightarrow> ident list option \<Rightarrow> bool \<Rightarrow> 'a retrieval_db_scheme \<Rightarrow> (DocumentMetadataProfileModel \<times> DocumentModel) list" where
  "authorized_metadata_profile_rows user_id ids require db =
     sort_key (\<lambda>(p, d). (Desc (d_created_at d), Desc (mp_created_at p)))
       (join_documents mp_document_id (retrieval_filter user_id ids require db) (metadata_profiles db) db)"

definition load_authorized_chunks_for_document_ids ::
  "ident \<Rightarrow> ident list \<Rightarrow> ident list option \<Rightarrow> bool \<Rightarrow> 'a retrieval_db_scheme \<Rightarrow> chunk_row list" where
  "load_authorized_chunks_for_document_ids user_id document_ids ids require db =
     (let unique_document_ids = dict_fromkeys document_ids
      in if unique_document_ids = [] then []
         else sort_authorized_chunk_rows
           (join_documents ch_document_id
              (\<lambda>d. d_id d \<in> set unique_document_ids \<and> retrieval_filter user_id ids require db d) (document_chunks db) db))"

text \<open>The request-local cache: rows by document, in the order the documents were first asked for.\<close>

type_synonym row_cache = "(ident \<times> chunk_row list) list"

definition cached_rows :: "row_cache \<Rightarrow> ident \<Rightarrow> chunk_row list" where
  "cached_rows cache i = (case map_of cache i of None \<Rightarrow> [] | Some rows \<Rightarrow> rows)"

definition fill_cache :: "ident list \<Rightarrow> chunk_row list \<Rightarrow> row_cache \<Rightarrow> row_cache" where
  "fill_cache missing rows cache =
     fold (\<lambda>row c. AList.update (d_id (snd row)) (cached_rows c (d_id (snd row)) @ [row]) c) rows
       (fold (\<lambda>i c. AList.update i [] c) missing cache)"

definition authorized_chunks_for_document_ids ::
  "ident \<Rightarrow> ident list \<Rightarrow> ident list option \<Rightarrow> bool \<Rightarrow> 'a retrieval_db_scheme \<Rightarrow> row_cache \<Rightarrow> chunk_row list \<times> row_cache" where
  "authorized_chunks_for_document_ids user_id document_ids ids require db cache =
     (let unique_document_ids = dict_fromkeys document_ids
      in if unique_document_ids = [] then ([], cache)
         else
           let missing = filter (\<lambda>i. i \<notin> fst ` set cache) unique_document_ids;
               cache' = (if missing = [] then cache
                         else fill_cache missing (load_authorized_chunks_for_document_ids user_id missing ids require db) cache)
           in (sort_authorized_chunk_rows (concat (map (cached_rows cache') unique_document_ids)), cache'))"

record Bm25CorpusRow =
  br_chunk_id :: ident
  br_document_id :: ident
  br_ordinal :: int
  br_content :: string

definition authorized_bm25_corpus_rows ::
  "ident \<Rightarrow> ident list option \<Rightarrow> bool \<Rightarrow> 'a retrieval_db_scheme \<Rightarrow> Bm25CorpusRow list" where
  "authorized_bm25_corpus_rows user_id ids require db =
     map (\<lambda>(c, d). \<lparr>br_chunk_id = ch_id c, br_document_id = ch_document_id c, br_ordinal = ch_ordinal c, br_content = ch_content c\<rparr>)
       (join_documents ch_document_id (retrieval_filter user_id ids require db) (document_chunks db) db)"

definition authorized_bm25_top_chunks ::
  "ident \<Rightarrow> ident list \<Rightarrow> ident list option \<Rightarrow> bool \<Rightarrow> 'a retrieval_db_scheme \<Rightarrow> chunk_row list" where
  "authorized_bm25_top_chunks user_id chunk_ids ids require db =
     (if chunk_ids = [] then []
      else filter (\<lambda>(c, d). ch_id c \<in> set (dict_fromkeys chunk_ids))
        (join_documents ch_document_id (retrieval_filter user_id ids require db) (document_chunks db) db))"

definition entity_mentions_for_chunks :: "'a retrieval_db_scheme \<Rightarrow> ident list \<Rightarrow> EntityMentionModel list" where
  "entity_mentions_for_chunks db chunk_ids =
     (let unique_chunk_ids = dict_fromkeys chunk_ids
      in if unique_chunk_ids = [] then []
         else filter (\<lambda>m. em_chunk_id m \<in> set unique_chunk_ids) (entity_mentions db))"

section \<open>What the filter grants\<close>

lemma member_group_iff: "g \<in> set (member_group_ids u db) \<longleftrightarrow> membership_of g u db \<noteq> None"
  by (auto simp: member_group_ids_def membership_of_def scalar_None_iff)

lemma scope_filter_ids:
  "knowledge_base_scope_filter u ids pub req db d \<Longrightarrow> ids = Some scope \<Longrightarrow> d_knowledge_base_id d \<in> set scope"
  by (auto simp: knowledge_base_scope_filter_def Let_def split: if_splits)

lemma filter_in_scope:
  "authorized_document_filter u (Some scope) pub req db d \<Longrightarrow> d_knowledge_base_id d \<in> set scope"
  using scope_filter_ids [OF _ refl] by (auto simp: authorized_document_filter_def Let_def)

lemma standard_ids: "i \<in> set (standard_knowledge_base_ids db)
    \<longleftrightarrow> (\<exists>kb \<in> set (knowledge_bases db). kb_id kb = i \<and> kb_purpose kb = purpose_value STANDARD)"
  by (auto simp: standard_knowledge_base_ids_def image_iff)

lemma system_ids: "i \<in> set (system_knowledge_base_ids True db)
    \<longleftrightarrow> (\<exists>kb \<in> set (knowledge_bases db). kb_id kb = i \<and> system_knowledge_base_filter kb)"
  by (auto simp: system_knowledge_base_ids_def system_knowledge_base_filter_def image_iff)

lemma unpublished_retrievable:
  "unpublished_knowledge_base_filter u True db kb = retrievable_knowledge_base_filter u db kb"
  by (auto simp: unpublished_knowledge_base_filter_def retrievable_knowledge_base_filter_def
      selectable_knowledge_base_filter_def authorized_knowledge_base_filter_def system_knowledge_base_filter_def)

lemma scope_filter_standard:
  "knowledge_base_scope_filter u ids pub True db d \<longleftrightarrow>
     (\<exists>kb \<in> set (knowledge_bases db). kb_id kb = d_knowledge_base_id d \<and> retrievable_knowledge_base_filter u db kb)
     \<and> (case ids of None \<Rightarrow> True | Some scope \<Rightarrow> d_knowledge_base_id d \<in> set scope)"
  by (cases ids) (auto simp: knowledge_base_scope_filter_def unpublished_retrievable image_iff
      simp flip: set_empty split: if_splits)

text \<open>Rights a permission row gives, and the roles memberships may hold.\<close>

definition permissions_unique :: "'a knowledge_db_scheme \<Rightarrow> bool" where
  "permissions_unique db \<longleftrightarrow> unique_on (\<lambda>p. (dp_document_id p, dp_user_id p)) (document_permissions db)"

definition roles_known :: "'a groups_db_scheme \<Rightarrow> bool" where
  "roles_known db \<longleftrightarrow> (\<forall>m \<in> set (memberships db). m_role m \<in> role_value ` {OWNER, ADMIN, EDITOR, VIEWER})"

lemma explicit_doc_allows:
  assumes "permissions_unique db" and "i \<in> set (explicit_doc_ids u db)"
  shows "\<exists>p. explicit_permission i u db = Some p \<and> explicit_allows p RETRIEVE"
proof -
  obtain p where p: "p \<in> set (document_permissions db)" "dp_document_id p = i" "dp_user_id p = u" "dp_can_read p"
    using assms(2) by (auto simp: explicit_doc_ids_def)
  obtain q where q: "explicit_permission i u db = Some q"
    using p by (cases "explicit_permission i u db") (auto simp: explicit_permission_def scalar_None_iff)
  then have "q \<in> set (document_permissions db) \<and> dp_document_id q = i \<and> dp_user_id q = u"
    using scalar_SomeD [OF q [unfolded explicit_permission_def]] by auto
  then have "q = p" using unique_onD [OF assms(1) [unfolded permissions_unique_def], of q p] p by auto
  then show ?thesis using q p(4) by (auto simp: explicit_allows_def)
qed

lemma member_may_retrieve:
  assumes "roles_known db" and "membership_of g u db = Some m"
  shows "role_allows (m_role m) RETRIEVE"
proof -
  have "m \<in> set (memberships db)" using scalar_SomeD [OF assms(2) [unfolded membership_of_def]] by blast
  then have "m_role m \<in> role_value ` {OWNER, ADMIN, EDITOR, VIEWER}" using assms(1) by (simp add: roles_known_def)
  then show ?thesis by (auto simp: role_allows_def)
qed

lemma filter_permits:
  assumes "authorized_document_filter u ids pub True db d" and "permissions_unique db" and "roles_known db"
  shows "can u d RETRIEVE db
    \<or> (\<exists>kb \<in> set (knowledge_bases db). kb_id kb = d_knowledge_base_id d \<and> system_knowledge_base_filter kb)"
proof -
  consider "d_group_id d = None" "d_owner_user_id d = u"
    | g where "d_group_id d = Some g" "g \<in> set (member_group_ids u db)"
    | "d_knowledge_base_id d \<in> set (system_knowledge_base_ids True db)"
    | "d_id d \<in> set (explicit_doc_ids u db)"
    using assms(1) by (auto simp: authorized_document_filter_def Let_def)
  then show ?thesis
  proof cases
    case (2 g)
    then obtain m where "membership_of g u db = Some m" using member_group_iff by fastforce
    then show ?thesis using 2 member_may_retrieve [OF assms(3)] by (auto simp: can_def)
  next
    case 4
    from explicit_doc_allows [OF assms(2) this] show ?thesis by (auto simp: can_def)
  qed (auto simp: can_def system_ids)
qed

lemma filter_standard:
  "authorized_document_filter u ids pub True db d \<Longrightarrow>
    \<exists>kb \<in> set (knowledge_bases db). kb_id kb = d_knowledge_base_id d \<and> kb_purpose kb = purpose_value STANDARD"
  by (auto simp: authorized_document_filter_def Let_def scope_filter_standard standard_ids
      retrievable_knowledge_base_filter_def selectable_knowledge_base_filter_def system_knowledge_base_filter_def)

lemma retrieval_filter_authorizes:
  assumes "retrieval_filter u ids True db d" and "permissions_unique db" and "roles_known db"
  shows "(can u d RETRIEVE db
      \<or> (\<exists>kb \<in> set (knowledge_bases db). kb_id kb = d_knowledge_base_id d \<and> system_knowledge_base_filter kb))
    \<and> (\<exists>kb \<in> set (knowledge_bases db). kb_id kb = d_knowledge_base_id d \<and> kb_purpose kb = purpose_value STANDARD)
    \<and> (case ids of None \<Rightarrow> True | Some scope \<Rightarrow> d_knowledge_base_id d \<in> set scope)"
  using filter_permits [OF assms(1) [unfolded retrieval_filter_def] assms(2,3)]
    filter_standard [OF assms(1) [unfolded retrieval_filter_def]] filter_in_scope assms(1)
  by (auto simp: retrieval_filter_def split: option.split)

text \<open>
  C39. The SQL filter that every retrieval query carries and the permission service agree: a document it
  lets through is one the user may retrieve by ownership, an explicit grant or a group role, or one of
  the public system knowledge; it lies in a standard knowledge base, and in the requested ones if any
  were requested.
\<close>

theorem retrieval_filter_sound:
  assumes "retrieval_filter u ids True db d" and "permissions_unique db" and "roles_known db"
  shows "(can u d RETRIEVE db
      \<or> (\<exists>kb \<in> set (knowledge_bases db). kb_id kb = d_knowledge_base_id d \<and> system_knowledge_base_filter kb))
    \<and> (\<exists>kb \<in> set (knowledge_bases db). kb_id kb = d_knowledge_base_id d \<and> kb_purpose kb = purpose_value STANDARD)
    \<and> (case ids of None \<Rightarrow> True | Some scope \<Rightarrow> d_knowledge_base_id d \<in> set scope)"
  by (rule retrieval_filter_authorizes [OF assms])

section \<open>The row cache\<close>

definition document_chunk_rows :: "ident \<Rightarrow> ident list option \<Rightarrow> bool \<Rightarrow> 'a retrieval_db_scheme \<Rightarrow> ident \<Rightarrow> chunk_row list" where
  "document_chunk_rows u ids req db i = sort_authorized_chunk_rows
     (join_documents ch_document_id (\<lambda>d. d_id d = i \<and> retrieval_filter u ids req db d) (document_chunks db) db)"

definition cache_valid :: "ident \<Rightarrow> ident list option \<Rightarrow> bool \<Rightarrow> 'a retrieval_db_scheme \<Rightarrow> row_cache \<Rightarrow> bool" where
  "cache_valid u ids req db cache \<longleftrightarrow>
     (\<forall>i rows. map_of cache i = Some rows \<longrightarrow> rows = document_chunk_rows u ids req db i)"

lemma map_of_clear: "map_of (fold (\<lambda>i c. AList.update i [] c) missing cache) i
    = (if i \<in> set missing then Some [] else map_of cache i)"
  by (induction missing arbitrary: cache) (auto simp: map_of_update)

lemma map_of_fill:
  assumes "\<And>row. row \<in> set rows \<Longrightarrow> map_of cache (d_id (snd row)) \<noteq> None"
  shows "map_of (fold (\<lambda>row c. AList.update (d_id (snd row)) (cached_rows c (d_id (snd row)) @ [row]) c) rows cache) i
    = map_option (\<lambda>old. old @ filter (\<lambda>row. d_id (snd row) = i) rows) (map_of cache i)"
  using assms
proof (induction rows arbitrary: cache)
  case Nil
  show ?case by (cases "map_of cache i") auto
next
  case (Cons row rows)
  let ?cache = "AList.update (d_id (snd row)) (cached_rows cache (d_id (snd row)) @ [row]) cache"
  have "map_of ?cache (d_id (snd r)) \<noteq> None" if "r \<in> set rows" for r
    using Cons.prems [of r] that by (auto simp: map_of_update)
  moreover obtain old where "map_of cache (d_id (snd row)) = Some old" using Cons.prems [of row] by auto
  ultimately show ?case using Cons.IH [of ?cache]
    by (cases "map_of cache i") (auto simp: map_of_update cached_rows_def)
qed

lemma join_filter_row:
  "filter (\<lambda>row. d_id (snd row) = i) (join_documents f (\<lambda>d. p d) rows db) = join_documents f (\<lambda>d. d_id d = i \<and> p d) rows db"
  unfolding join_documents_def
  by (induction rows) (simp_all add: filter_map comp_def conj_commute conj_left_commute)

lemma load_one_document:
  "i \<in> set missing \<Longrightarrow> filter (\<lambda>row. d_id (snd row) = i) (load_authorized_chunks_for_document_ids u missing ids req db)
    = document_chunk_rows u ids req db i"
  by (auto simp: load_authorized_chunks_for_document_ids_def Let_def document_chunk_rows_def
      sort_authorized_chunk_rows_def filter_sort join_filter_row simp flip: set_empty
      intro!: arg_cong [of _ _ "sort_key row_key"] arg_cong2 [of _ _ _ _ "\<lambda>p rows. join_documents ch_document_id p rows db"])

lemma load_documents:
  "row \<in> set (load_authorized_chunks_for_document_ids u missing ids req db) \<Longrightarrow> d_id (snd row) \<in> set missing"
  by (cases row) (auto simp: load_authorized_chunks_for_document_ids_def Let_def sort_authorized_chunk_rows_def
      join_documents_iff split: if_splits)

lemma fill_valid:
  assumes "cache_valid u ids req db cache"
  shows "cache_valid u ids req db (fill_cache missing (load_authorized_chunks_for_document_ids u missing ids req db) cache)"
    and "set missing \<union> fst ` set cache
      = fst ` set (fill_cache missing (load_authorized_chunks_for_document_ids u missing ids req db) cache)"
proof -
  let ?rows = "load_authorized_chunks_for_document_ids u missing ids req db"
  have look: "map_of (fill_cache missing ?rows cache) i
      = (if i \<in> set missing then Some (document_chunk_rows u ids req db i)
         else map_option (\<lambda>old. old @ filter (\<lambda>row. d_id (snd row) = i) ?rows) (map_of cache i))" for i
    unfolding fill_cache_def using load_documents [of _ u missing ids req db] load_one_document [of i missing u ids req db]
    by (subst map_of_fill) (auto simp: map_of_clear)
  moreover have "filter (\<lambda>row. d_id (snd row) = i) ?rows = []" if "i \<notin> set missing" for i
    using that load_documents [of _ u missing ids req db] by (auto simp: filter_empty_conv)
  ultimately show "cache_valid u ids req db (fill_cache missing ?rows cache)"
    using assms by (auto simp: cache_valid_def split: if_splits)
  have "i \<in> fst ` set (fill_cache missing ?rows cache) \<longleftrightarrow> i \<in> set missing \<union> fst ` set cache" for i
    using look [of i] map_of_eq_None_iff [of "fill_cache missing ?rows cache" i] map_of_eq_None_iff [of cache i]
    by (cases "map_of cache i") (auto split: if_splits)
  then show "set missing \<union> fst ` set cache = fst ` set (fill_cache missing ?rows cache)" by blast
qed

lemma mset_by_key:
  assumes "distinct ks" and "\<And>r. r \<in> set rs \<Longrightarrow> f r \<in> set ks"
  shows "mset (concat (map (\<lambda>k. filter (\<lambda>r. f r = k) rs) ks)) = mset rs"
  using assms
proof (induction ks arbitrary: rs)
  case Nil
  then show ?case by (cases rs) auto
next
  case (Cons k ks)
  let ?rest = "filter (\<lambda>r. f r \<noteq> k) rs"
  have "map (\<lambda>j. filter (\<lambda>r. f r = j) rs) ks = map (\<lambda>j. filter (\<lambda>r. f r = j) ?rest) ks"
    using Cons.prems(1) by (intro map_cong) (auto intro!: filter_cong)
  moreover have "mset (concat (map (\<lambda>j. filter (\<lambda>r. f r = j) ?rest) ks)) = mset ?rest"
    using Cons.prems by (intro Cons.IH) auto
  ultimately have "mset (concat (map (\<lambda>j. filter (\<lambda>r. f r = j) rs) (k # ks))) = mset (filter (\<lambda>r. f r = k) rs) + mset ?rest"
    by (simp only: list.map concat.simps mset_append)
  then show ?case by (simp only: mset_filter flip: multiset_partition)
qed

lemma cache_rows_ok:
  assumes "cache_valid u ids req db cache"
    and "authorized_chunks_for_document_ids u wanted ids req db cache = (rows, cache')"
  shows "cache_valid u ids req db cache'"
    and "mset rows = mset (load_authorized_chunks_for_document_ids u wanted ids req db)"
    and "sorted (map row_key rows)"
proof -
  let ?docs = "dict_fromkeys wanted"
  let ?missing = "filter (\<lambda>i. i \<notin> fst ` set cache) ?docs"
  let ?load = "load_authorized_chunks_for_document_ids u"
  have load_keys: "?load wanted ids req db = ?load ?docs ids req db"
    by (simp add: load_authorized_chunks_for_document_ids_def)
  show valid: "cache_valid u ids req db cache'"
    using assms fill_valid(1) [OF assms(1)] by (auto simp: authorized_chunks_for_document_ids_def Let_def split: if_splits)
  have "mset rows = mset (?load ?docs ids req db) \<and> sorted (map row_key rows)"
  proof (cases "?docs = []")
    case True
    then show ?thesis
      using assms(2) by (simp add: authorized_chunks_for_document_ids_def load_authorized_chunks_for_document_ids_def)
  next
    case False
    have "set ?docs \<subseteq> fst ` set cache'"
      using assms(2) False fill_valid(2) [OF assms(1), of ?missing]
      by (auto simp: authorized_chunks_for_document_ids_def Let_def filter_empty_conv split: if_splits)
    then have "map_of cache' i = Some (document_chunk_rows u ids req db i)" if "i \<in> set ?docs" for i
      using that valid map_of_eq_None_iff [of cache' i] by (fastforce simp: cache_valid_def)
    then have cached: "map (cached_rows cache') ?docs = map (document_chunk_rows u ids req db) ?docs"
      by (intro map_cong) (auto simp: cached_rows_def)
    have loaded: "map (document_chunk_rows u ids req db) ?docs = map (\<lambda>i. filter (\<lambda>row. d_id (snd row) = i) (?load ?docs ids req db)) ?docs"
      by (intro map_cong) (auto simp: load_one_document)
    have "rows = sort_authorized_chunk_rows (concat (map (cached_rows cache') ?docs))"
      using assms(2) False by (auto simp: authorized_chunks_for_document_ids_def Let_def split: if_splits)
    then have rows: "rows = sort_authorized_chunk_rows
        (concat (map (\<lambda>i. filter (\<lambda>row. d_id (snd row) = i) (?load ?docs ids req db)) ?docs))"
      unfolding cached loaded .
    have "mset rows = mset (?load ?docs ids req db)"
      unfolding rows sort_authorized_chunk_rows_def mset_sort
      by (rule mset_by_key) (auto dest: load_documents)
    then show ?thesis by (simp add: rows sort_authorized_chunk_rows_def)
  qed
  then show "mset rows = mset (?load wanted ids req db)" "sorted (map row_key rows)"
    unfolding load_keys by blast+
qed

text \<open>
  C40. The request-local cache of chunk rows is transparent: as long as it was filled by this request's own
  queries, asking it for documents returns exactly the rows the database query would return, in the
  query's order, and leaves it in the same condition.
\<close>

theorem row_cache_transparent:
  assumes "cache_valid u ids req db cache"
    and "authorized_chunks_for_document_ids u wanted ids req db cache = (rows, cache')"
  shows "mset rows = mset (load_authorized_chunks_for_document_ids u wanted ids req db)
    \<and> sorted (map row_key rows) \<and> sorted (map row_key (load_authorized_chunks_for_document_ids u wanted ids req db))
    \<and> cache_valid u ids req db cache'"
  using cache_rows_ok [OF assms] by (simp add: load_authorized_chunks_for_document_ids_def sort_authorized_chunk_rows_def Let_def)

end
