(* ===== verification/Group_Typing.thy ===== *)
theory Group_Typing
  imports Group_Invitations Retrieval_Access
begin

text \<open>
  The typing of the group tables. Roles and statuses are stored as strings; whatever the operations of
  \<open>groups/service.py\<close> and the group routes write is the value of an enumeration member, and the fields of
  an invitation that record how it ended are set exactly in the status they belong to. The retrieval
  filter and the permission service rest on the roles being known.
\<close>

definition known_role :: "string \<Rightarrow> bool" where
  "known_role r \<longleftrightarrow> r \<in> role_value ` {OWNER, ADMIN, EDITOR, VIEWER}"

definition known_status :: "string \<Rightarrow> bool" where
  "known_status s \<longleftrightarrow> s \<in> invitation_status_value ` {PENDING, ACCEPTED, CANCELLED, EXPIRED}"

definition invitation_typed :: "GroupInvitationModel \<Rightarrow> bool" where
  "invitation_typed i \<longleftrightarrow> known_role (i_role i) \<and> known_status (i_status i)
     \<and> (i_accepted_by_user_id i \<noteq> None \<longleftrightarrow> i_status i = invitation_status_value ACCEPTED)
     \<and> (i_accepted_at i \<noteq> None \<longleftrightarrow> i_status i = invitation_status_value ACCEPTED)
     \<and> (i_cancelled_at i \<noteq> None \<longleftrightarrow> i_status i = invitation_status_value CANCELLED)"

definition groups_typed :: "'a groups_db_scheme \<Rightarrow> bool" where
  "groups_typed db \<longleftrightarrow> list_all (\<lambda>m. known_role (m_role m)) (memberships db) \<and> list_all invitation_typed (group_invitations db)"

lemma known_role_value [simp]: "known_role (role_value r)"
  by (cases r) (simp_all add: known_role_def)

lemma known_status_value [simp]: "known_status (invitation_status_value s)"
  by (cases s) (simp_all add: known_status_def)

lemma status_values [simp]:
  "invitation_status_value s = invitation_status_value t \<longleftrightarrow> s = t"
  by (cases s; cases t) simp_all

lemma typed_invitation: "groups_typed db \<Longrightarrow> i \<in> set (group_invitations db) \<Longrightarrow> invitation_typed i"
  by (simp add: groups_typed_def list_all_iff)

lemma typed_cong: "memberships db' = memberships db \<Longrightarrow> group_invitations db' = group_invitations db \<Longrightarrow> groups_typed db' = groups_typed db"
  by (simp add: groups_typed_def)

lemma list_all_insert_row [simp]: "list_all P (insert_row r rs) \<longleftrightarrow> P r \<and> list_all P rs"
  by (auto simp: insert_row_def)

lemma list_all_update_where: "list_all P rs \<Longrightarrow> (\<And>r. P r \<Longrightarrow> P (f r)) \<Longrightarrow> list_all P (update_where p f rs)"
  by (auto simp: list_all_iff set_update_where)

lemma typed_save: "groups_typed db \<Longrightarrow> invitation_typed i \<Longrightarrow> groups_typed (save_invitation i db)"
  by (simp add: groups_typed_def list_all_update_where)

text \<open>What the operations make of an invitation that is still pending.\<close>

lemma typed_changes:
  assumes "invitation_typed i" and "pending i"
  shows "invitation_typed (i\<lparr>i_role := role_value role\<rparr>)"
    and "invitation_typed (i\<lparr>i_token_hash := h, i_expires_at := e, i_resent_at := r\<rparr>)"
    and "invitation_typed (i\<lparr>i_status := invitation_status_value CANCELLED, i_cancelled_at := Some now\<rparr>)"
    and "invitation_typed (i\<lparr>i_status := invitation_status_value EXPIRED\<rparr>)"
    and "invitation_typed (i\<lparr>i_status := invitation_status_value ACCEPTED, i_accepted_by_user_id := Some u, i_accepted_at := Some now\<rparr>)"
  using assms by (simp_all add: invitation_typed_def pending_def del: invitation_status_value.simps)

lemma typed_pending:
  assumes "groups_typed db"
  shows "groups_typed (snd (pending_invitation_for_token env now token db))"
proof (cases "pending_invitation_for_token env now token db")
  case (Pair r db0)
  show ?thesis
  proof (cases r)
    case (Inl e)
    then show ?thesis
      using pending_invitation_failed [of env now token db e db0] Pair assms typed_save typed_changes(4) typed_invitation by force
  next
    case (Inr i)
    then show ?thesis using pending_invitation_ok(1) [of env now token db i db0] Pair assms by simp
  qed
qed

lemma typed_accept:
  assumes "groups_typed db" and "i \<in> set (group_invitations db)" and "pending i"
    and "accept_pending_invitation nid now i user db = Some (member, db')"
  shows "groups_typed db'"
proof -
  have i: "invitation_typed i" using assms(1,2) by (rule typed_invitation)
  then have "known_role (i_role i)" by (simp add: invitation_typed_def)
  then have "list_all (\<lambda>m. known_role (m_role m)) (memberships db')"
    using accept_pending_ok(4) [OF assms(4)] assms(1) by (auto simp: groups_typed_def)
  moreover have "list_all invitation_typed (group_invitations db')"
    using accept_pending_ok(5) [OF assms(4)] typed_changes(5) [OF i assms(3)] assms(1)
    by (auto simp: groups_typed_def intro!: list_all_update_where)
  ultimately show ?thesis by (simp add: groups_typed_def)
qed

lemma typed_invitation_step:
  fixes db db' :: "'a groups_db_scheme"
  assumes "invitation_step env db db'" and "groups_typed db"
  shows "groups_typed db'"
  using assms
proof (induction rule: invitation_step.induct)
  case (create_step db nid token now gid email role actor)
  then show ?case
    by (auto simp: create_invitation_def Let_def new_pending_invitation_def groups_typed_def invitation_typed_def
        split: sum.splits simp del: invitation_status_value.simps)
next
  case (role_step db gid iid role actor)
  then show ?case
    by (auto simp: update_pending_invitation_role_def Let_def split: sum.splits
        intro!: typed_save typed_changes dest: managed_invitation_ok typed_invitation)
next
  case (resend_step db token now gid iid actor)
  then show ?case
    by (auto simp: resend_pending_invitation_def Let_def split: sum.splits
        intro!: typed_save typed_changes dest: managed_invitation_ok typed_invitation)
next
  case (cancel_step db now gid iid actor)
  then show ?case
    by (auto simp: cancel_pending_invitation_def Let_def split: sum.splits simp del: invitation_status_value.simps
        intro!: typed_save typed_changes dest: managed_invitation_ok typed_invitation)
next
  case (accept_step db nid now token actor)
  obtain r db1 where run: "accept_invitation env nid now token actor db = (r, db1)" by fastforce
  show ?case
  proof (cases r)
    case (Inl e)
    then show ?thesis using accept_invitation_failed run typed_pending [OF accept_step] by (metis snd_conv)
  next
    case (Inr m)
    obtain i user where "pending_invitation_for_token env now token db = (Inr i, db)"
      "accept_pending_invitation nid now i user db = Some (m, db1)"
      using accept_invitation_ok [OF run [unfolded Inr]] by blast
    then show ?thesis using typed_accept [OF accept_step] pending_invitation_ok(2,3) run by (metis snd_conv)
  qed
next
  case (signup_step db fr now token nick pw)
  obtain r db1 where run: "accept_invitation_with_new_user env fr now token nick pw db = (r, db1)" by fastforce
  show ?case
  proof (cases r)
    case (Inl e)
    then show ?thesis using accept_new_user_failed run typed_pending [OF signup_step] by (metis snd_conv)
  next
    case (Inr res)
    obtain i and db2 db3 :: "'a groups_db_scheme" where acc: "pending_invitation_for_token env now token db = (Inr i, db)"
      "memberships db2 = memberships db" "group_invitations db2 = group_invitations db" "groups db2 = groups db"
      "accept_pending_invitation (is_membership_id fr) now i
        (invited_user (gi_auth env) (is_user_id fr) now (i_invited_email_normalized i) nick pw) db2 = Some (gs_member res, db3)"
      and out: "memberships db1 = memberships db3" "group_invitations db1 = group_invitations db3" "groups db1 = groups db3"
        "invited_user (gi_auth env) (is_user_id fr) now (i_invited_email_normalized i) nick pw \<in> set (users db1)"
      by (rule accept_new_user_ok [OF run [unfolded Inr]])
    have "groups_typed db2" using typed_cong [OF acc(2,3)] signup_step by simp
    then have "groups_typed db3"
      using typed_accept [OF _ _ _ acc(5)] pending_invitation_ok(2,3) [OF acc(1)] acc(3) by simp
    then show ?thesis using typed_cong [OF out(1,2)] run by simp
  qed
qed

lemma typed_group_step: "group_step env db db' \<Longrightarrow> groups_typed db \<Longrightarrow> groups_typed db'"
proof (induction rule: group_step.induct)
  case (invitation db db')
  then show ?case by (rule typed_invitation_step)
next
  case (new_group db gf now name who)
  then show ?case by (auto simp: create_group_def Let_def groups_typed_def simp del: role_value.simps)
next
  case (member_role db gid uid role who)
  then show ?case
    by (auto simp: update_member_def groups_typed_def split: sum.splits option.splits intro!: list_all_update_where)
qed

interpretation group_typing: invariant_system no_groups "group_step env" groups_typed for env
proof unfold_locales
  show "groups_typed db" if "no_groups db" for db :: "'a groups_db_scheme"
    using that by (simp add: no_groups_def groups_typed_def)
  show "groups_typed t" if "groups_typed s" "group_step env s t" for s t :: "'a groups_db_scheme"
    using that typed_group_step by blast
qed

lemma typed_roles_known: "groups_typed db \<Longrightarrow> roles_known db"
  by (simp add: groups_typed_def roles_known_def known_role_def list_all_iff)

text \<open>
  C26. The group tables are well typed in every reachable state: each stored role and status is the value of
  an enumeration member, an invitation names who accepted it and when exactly if it is accepted, and when it
  was cancelled exactly if it is cancelled.
\<close>

theorem group_tables_typed:
  assumes "reachable no_groups (group_step env) db"
  shows "groups_typed db \<and> roles_known db"
  using group_typing.reachable_inv [OF assms] typed_roles_known by blast

theorem group_tables_typed_witness: "groups_typed sample_joined \<and> roles_known sample_joined"
  by (rule group_tables_typed, rule reachable.next_state [OF sample_invited_reachable],
      rule group_step.invitation, rule sample_joined_step)

end
