(* ===== verification/Durable_Store.thy ===== *)
theory Durable_Store
  imports Agents_Prelude "HOL-Library.AList"
begin

text \<open>
  Durable conversation runs: the job queue, the per-run output with its bounded frame log, and worker
  leases (\<open>conversations/durable_models.py\<close>, \<open>conversations/durable_store.py\<close>). JSON documents are
  values of \<open>json\<close>: the text in a \<open>..._json\<close> column is the value it decodes to, since the code only
  stores what \<open>json.dumps\<close> wrote. The display-safe payload of a metadata event is computed by
  \<open>event_response\<close> from pydantic models and is the parameter \<open>de_safe_payload\<close>.
\<close>

section \<open>JSON\<close>

datatype json = JNull | JBool bool | JInt int | JStr string | JArr "json list" | JObj "(string \<times> json) list"

type_synonym jdict = "(string \<times> json) list"

datatype durable_error =
    Durable_ValueError
  | Durable_LookupError
  | Durable_KeyError
  | Durable_TypeError
  | Durable_IntegrityError
  | ExecutionStopped
  | Durable_InvalidRequest
  | Durable_RuntimeError

definition dict_item :: "string \<Rightarrow> jdict \<Rightarrow> (durable_error, json) res" where
  "dict_item k d = (case map_of d k of None \<Rightarrow> Inl Durable_KeyError | Some v \<Rightarrow> Inr v)"

definition dict_str :: "string \<Rightarrow> jdict \<Rightarrow> (durable_error, string) res" where
  "dict_str k d = res_bind (dict_item k d) (\<lambda>v. case v of JStr s \<Rightarrow> Inr s | _ \<Rightarrow> Inl Durable_TypeError)"

definition dict_get :: "string \<Rightarrow> json \<Rightarrow> jdict \<Rightarrow> json" where
  "dict_get k dflt d = (case map_of d k of None \<Rightarrow> dflt | Some v \<Rightarrow> v)"

definition as_dict :: "json \<Rightarrow> (durable_error, jdict) res" where
  "as_dict v = (case v of JObj d \<Rightarrow> Inr d | _ \<Rightarrow> Inl Durable_TypeError)"

definition as_list :: "json \<Rightarrow> (durable_error, json list) res" where
  "as_list v = (case v of JArr xs \<Rightarrow> Inr xs | _ \<Rightarrow> Inl Durable_TypeError)"

section \<open>Models\<close>

record DurableRunJob =
  j_id :: ident
  j_run_id :: ident
  j_user_id :: ident
  j_kind :: string
  j_client_request_id :: ident
  j_request_fingerprint :: string
  j_request_json :: jdict
  j_status :: string
  j_lease_token :: "string option"
  j_lease_expires_at :: "time option"
  j_created_at :: time

record projection =
  pj_partial_reply :: string
  pj_reasoning_summaries :: json
  pj_activity_events :: "json list"
  pj_interaction :: json
  pj_result :: json
  pj_error :: json

record DurableRunOutput =
  o_run_id :: ident
  o_cursor :: int
  o_min_cursor :: int
  o_snapshot_json :: projection
  o_terminal_event :: "string option"
  o_terminal_data_json :: "jdict option"
  o_terminal_cursor :: "int option"

record DurableRunFrame =
  f_run_id :: ident
  f_cursor :: int
  f_event :: string
  f_data_json :: jdict
  f_created_at :: time

record DurableWorkerHeartbeat =
  h_worker_id :: ident
  h_last_seen_at :: time

record durable_db =
  durable_run_jobs :: "DurableRunJob list"
  durable_run_outputs :: "DurableRunOutput list"
  durable_run_frames :: "DurableRunFrame list"
  durable_worker_heartbeats :: "DurableWorkerHeartbeat list"

record durable_env =
  de_fingerprint :: "jdict \<Rightarrow> string"
  de_safe_payload :: "string \<Rightarrow> jdict \<Rightarrow> (durable_error, jdict) res"

definition MAX_PARTIAL_REPLY_CHARACTERS :: int where
  "MAX_PARTIAL_REPLY_CHARACTERS = 2000000"

definition CONTROL_EVENTS :: "string list" where
  "CONTROL_EVENTS = [''run_completed'', ''run_failed'', ''run_cancelled'', ''run_interrupted'']"

definition agent_event_types :: "string list" where
  "agent_event_types = [''run_started'', ''user_message_stored'', ''retrieval_completed'', ''full_document_read'',
     ''graph_invoked'', ''attachments_ready'', ''document_workspace_started'', ''artifact_created'',
     ''reasoning_summary_generated'', ''answer_composed'', ''run_interrupted'', ''run_resumed'',
     ''run_cancel_requested'', ''run_cancelled'', ''run_failed'', ''context_compaction_started'',
     ''context_compaction_completed'', ''context_compaction_failed'', ''run_model_resolved'']"

section \<open>Jobs and leases\<close>

definition find_job :: "ident \<Rightarrow> string \<Rightarrow> ident \<Rightarrow> 'a durable_db_scheme \<Rightarrow> DurableRunJob option" where
  "find_job user_id kind client_request_id db =
     scalar (\<lambda>j. j_user_id j = user_id \<and> j_kind j = kind \<and> j_client_request_id j = client_request_id)
       (durable_run_jobs db)"

definition empty_projection :: projection where
  "empty_projection = \<lparr>pj_partial_reply = '''', pj_reasoning_summaries = JArr [], pj_activity_events = [],
     pj_interaction = JNull, pj_result = JNull, pj_error = JNull\<rparr>"

definition get_output :: "ident \<Rightarrow> 'a durable_db_scheme \<Rightarrow> DurableRunOutput option" where
  "get_output run_id db = get_row o_run_id run_id (durable_run_outputs db)"

definition ensure_output :: "ident \<Rightarrow> 'a durable_db_scheme \<Rightarrow> DurableRunOutput \<times> 'a durable_db_scheme" where
  "ensure_output run_id db =
     (case get_output run_id db of
        Some out \<Rightarrow> (out, db)
      | None \<Rightarrow>
          let out = \<lparr>o_run_id = run_id, o_cursor = 0, o_min_cursor = 0, o_snapshot_json = empty_projection,
                     o_terminal_event = None, o_terminal_data_json = None, o_terminal_cursor = None\<rparr>
          in (out, db\<lparr>durable_run_outputs := insert_row out (durable_run_outputs db)\<rparr>))"

definition job_keys :: "DurableRunJob list \<Rightarrow> bool" where
  "job_keys js \<longleftrightarrow> unique_on j_id js \<and> unique_on (\<lambda>j. (j_user_id j, j_kind j, j_client_request_id j)) js"

definition enqueue_job ::
  "durable_env \<Rightarrow> ident \<Rightarrow> time \<Rightarrow> ident \<Rightarrow> ident \<Rightarrow> string \<Rightarrow> ident \<Rightarrow> jdict \<Rightarrow> 'a durable_db_scheme
    \<Rightarrow> (durable_error, DurableRunJob \<times> 'a durable_db_scheme) res" where
  "enqueue_job env new_id now run_id user_id kind client_request_id request_json db =
     (let job = \<lparr>j_id = new_id, j_run_id = run_id, j_user_id = user_id, j_kind = kind,
                 j_client_request_id = client_request_id, j_request_fingerprint = de_fingerprint env request_json,
                 j_request_json = request_json, j_status = ''queued'', j_lease_token = None,
                 j_lease_expires_at = None, j_created_at = now\<rparr>;
          jobs = insert_row job (durable_run_jobs db)
      in if \<not> job_keys jobs then Inl Durable_IntegrityError
         else Inr (job, (snd (ensure_output run_id db))\<lparr>durable_run_jobs := jobs\<rparr>))"

definition job_claimable :: "time \<Rightarrow> DurableRunJob \<Rightarrow> bool" where
  "job_claimable now j \<longleftrightarrow> j_status j = ''queued''"

definition job_grant :: "string \<Rightarrow> time \<Rightarrow> DurableRunJob \<Rightarrow> DurableRunJob" where
  "job_grant token til j = j\<lparr>j_status := ''running'', j_lease_token := Some token, j_lease_expires_at := Some til\<rparr>"

definition job_held :: "string \<Rightarrow> time \<Rightarrow> DurableRunJob \<Rightarrow> bool" where
  "job_held token now j \<longleftrightarrow> j_status j = ''running'' \<and> j_lease_token j = Some token
     \<and> (case j_lease_expires_at j of None \<Rightarrow> False | Some til \<Rightarrow> now < til)"

text \<open>The candidates are tried in order until an update hits; each try draws its own token.\<close>

fun claim_loop ::
  "time \<Rightarrow> time \<Rightarrow> string list \<Rightarrow> ident list \<Rightarrow> DurableRunJob list \<Rightarrow> (ident \<times> string) option \<times> DurableRunJob list" where
  "claim_loop now lease tokens [] jobs = (None, jobs)"
| "claim_loop now lease tokens (i # is) jobs =
     (let p = (\<lambda>j. j_id j = i \<and> job_claimable now j); token = hd (tokens @ [''''])
      in if rowcount p jobs > 0 then (Some (i, token), update_where p (job_grant token (now + lease)) jobs)
         else claim_loop now lease (tl tokens) is jobs)"

definition claim_job ::
  "time \<Rightarrow> time \<Rightarrow> string list \<Rightarrow> 'a durable_db_scheme
    \<Rightarrow> (durable_error, (ident \<times> string) option) res \<times> 'a durable_db_scheme" where
  "claim_job now lease tokens db =
     (if lease \<le> 0 then (Inl Durable_ValueError, db)
      else
        let candidates = take 20 (map j_id (sort_key (\<lambda>j. (j_created_at j, j_id j))
                           (scalars (\<lambda>j. j_status j = ''queued'') (durable_run_jobs db))));
            (claimed, jobs) = claim_loop now lease tokens candidates (durable_run_jobs db)
        in (Inr claimed, db\<lparr>durable_run_jobs := jobs\<rparr>))"

definition renew_lease ::
  "time \<Rightarrow> ident \<Rightarrow> string \<Rightarrow> time \<Rightarrow> 'a durable_db_scheme \<Rightarrow> (durable_error, bool) res \<times> 'a durable_db_scheme" where
  "renew_lease now job_id token lease db =
     (if lease \<le> 0 then (Inl Durable_ValueError, db)
      else
        let p = (\<lambda>j. j_id j = job_id \<and> job_held token now j)
        in (Inr (rowcount p (durable_run_jobs db) > 0),
            db\<lparr>durable_run_jobs := update_where p (\<lambda>j. j\<lparr>j_lease_expires_at := Some (now + lease)\<rparr>)
                  (durable_run_jobs db)\<rparr>))"

definition record_worker_heartbeat :: "time \<Rightarrow> ident \<Rightarrow> 'a durable_db_scheme \<Rightarrow> 'a durable_db_scheme" where
  "record_worker_heartbeat now worker_id db =
     (let row = \<lparr>h_worker_id = worker_id, h_last_seen_at = now\<rparr>
      in db\<lparr>durable_worker_heartbeats :=
              (case get_row h_worker_id worker_id (durable_worker_heartbeats db) of
                 None \<Rightarrow> insert_row row (durable_worker_heartbeats db)
               | Some _ \<Rightarrow> update_where (\<lambda>h. h_worker_id h = worker_id) (\<lambda>_. row) (durable_worker_heartbeats db))\<rparr>)"

section \<open>Appending to the output\<close>

definition is_metadata :: "string \<Rightarrow> bool" where
  "is_metadata event \<longleftrightarrow> event \<notin> set CONTROL_EVENTS \<and> event \<notin> {''answer_delta'', ''reasoning_summary_delta''}"

definition safe_data :: "durable_env \<Rightarrow> string \<Rightarrow> jdict \<Rightarrow> (durable_error, jdict) res" where
  "safe_data env event data =
     (if \<not> is_metadata event then Inr data
      else if event \<notin> set agent_event_types then Inl Durable_ValueError
      else de_safe_payload env event data)"

text \<open>The first summary of the stage is extended; without one, a new summary is appended.\<close>

fun extend_summary :: "jdict \<Rightarrow> json list \<Rightarrow> (durable_error, json list) res" where
  "extend_summary data [] =
     res_bind (dict_item ''stage'' data) (\<lambda>stage. res_bind (dict_str ''delta'' data) (\<lambda>delta.
       Inr [JObj [(''stage'', stage), (''text'', JStr (take 500 delta)),
                  (''source'', JStr ''provider_reasoning_summary'')]]))"
| "extend_summary data (item # items) =
     res_bind (as_dict item) (\<lambda>d. res_bind (dict_item ''stage'' d) (\<lambda>s.
     res_bind (dict_item ''stage'' data) (\<lambda>stage.
       if s = stage
       then res_bind (dict_str ''text'' d) (\<lambda>t. res_bind (dict_str ''delta'' data) (\<lambda>delta.
              Inr (JObj (AList.update ''text'' (JStr (take 500 (t @ delta))) d) # items)))
       else res_bind (extend_summary data items) (\<lambda>rest. Inr (item # rest)))))"

fun drop_stage :: "jdict \<Rightarrow> json list \<Rightarrow> (durable_error, json list) res" where
  "drop_stage data [] = Inr []"
| "drop_stage data (item # items) =
     res_bind (as_dict item) (\<lambda>d. res_bind (dict_item ''stage'' d) (\<lambda>s.
     res_bind (dict_item ''stage'' data) (\<lambda>stage.
     res_bind (drop_stage data items) (\<lambda>rest. Inr (if s \<noteq> stage then item # rest else rest)))))"

definition project_event :: "string \<Rightarrow> jdict \<Rightarrow> projection \<Rightarrow> (durable_error, projection) res" where
  "project_event event data pj =
     (if event = ''answer_delta''
      then res_bind (dict_str ''delta'' data) (\<lambda>delta. Inr (pj\<lparr>pj_partial_reply := pj_partial_reply pj @ delta\<rparr>))
      else if event = ''reasoning_summary_delta''
      then res_bind (as_list (pj_reasoning_summaries pj)) (\<lambda>xs. res_bind (extend_summary data xs) (\<lambda>ys.
             Inr (pj\<lparr>pj_reasoning_summaries := JArr ys\<rparr>)))
      else if event = ''reasoning_summary_generated''
      then res_bind (as_list (pj_reasoning_summaries pj)) (\<lambda>xs. res_bind (drop_stage data xs) (\<lambda>ys.
             Inr (pj\<lparr>pj_reasoning_summaries := JArr (ys @ [JObj data])\<rparr>)))
      else if event = ''run_completed''
      then Inr (pj\<lparr>pj_result := JObj data, pj_interaction := JNull, pj_error := JNull,
                   pj_reasoning_summaries := dict_get ''reasoning_summaries'' (JArr []) data\<rparr>)
      else if event = ''run_interrupted''
      then Inr (pj\<lparr>pj_interaction := dict_get ''interaction'' JNull data\<rparr>)
      else if event = ''run_failed''
      then res_bind (dict_item ''code'' data) (\<lambda>code. res_bind (dict_item ''detail'' data) (\<lambda>detail.
             Inr (pj\<lparr>pj_error := JObj [(''code'', code), (''detail'', detail)], pj_interaction := JNull\<rparr>)))
      else if event = ''run_cancelled'' then Inr (pj\<lparr>pj_interaction := JNull\<rparr>)
      else if event = ''run_resumed'' then Inr (pj\<lparr>pj_interaction := JNull, pj_error := JNull\<rparr>)
      else Inr pj)"

definition py_last :: "int \<Rightarrow> 'b list \<Rightarrow> 'b list" where
  "py_last n xs = drop (length xs - nat n) xs"

definition add_activity :: "int \<Rightarrow> int \<Rightarrow> string \<Rightarrow> jdict \<Rightarrow> projection \<Rightarrow> projection" where
  "add_activity max_frames cursor event data pj =
     pj\<lparr>pj_activity_events := py_last max_frames
          (pj_activity_events pj @ [JObj [(''id'', JInt cursor), (''event'', JStr event), (''data'', JObj data)]])\<rparr>"

definition reply_within_limit :: "string \<Rightarrow> jdict \<Rightarrow> projection \<Rightarrow> (durable_error, unit) res" where
  "reply_within_limit event data pj =
     (if event \<noteq> ''answer_delta'' then Inr ()
      else res_bind (dict_str ''delta'' data) (\<lambda>delta.
        if int (length (pj_partial_reply pj)) + int (length delta) > MAX_PARTIAL_REPLY_CHARACTERS
        then Inl Durable_ValueError else Inr ()))"

definition mark_terminal :: "string \<Rightarrow> jdict \<Rightarrow> int \<Rightarrow> DurableRunOutput \<Rightarrow> DurableRunOutput" where
  "mark_terminal event data cursor out =
     (if event = ''run_resumed''
      then out\<lparr>o_terminal_event := None, o_terminal_data_json := None, o_terminal_cursor := None\<rparr>
      else if event \<in> set CONTROL_EVENTS
      then out\<lparr>o_terminal_event := Some event, o_terminal_data_json := Some data, o_terminal_cursor := Some cursor\<rparr>
      else out)"

text \<open>The output row after the event, and the frames that stay within the retention window.\<close>

definition advance_output :: "int \<Rightarrow> string \<Rightarrow> jdict \<Rightarrow> projection \<Rightarrow> DurableRunOutput \<Rightarrow> DurableRunOutput" where
  "advance_output max_frames event data pj out =
     (let cursor = o_cursor out + 1;
          cutoff = max 0 (cursor - max_frames);
          pj' = (if is_metadata event then add_activity max_frames cursor event data pj else pj)
      in (mark_terminal event data cursor out)
           \<lparr>o_cursor := cursor, o_snapshot_json := pj',
            o_min_cursor := (if cutoff > o_min_cursor out then cutoff else o_min_cursor out)\<rparr>)"

definition retain_frames :: "int \<Rightarrow> DurableRunOutput \<Rightarrow> DurableRunFrame \<Rightarrow> DurableRunFrame list \<Rightarrow> DurableRunFrame list" where
  "retain_frames max_frames out frame frames =
     (let cutoff = max 0 (f_cursor frame - max_frames);
          frames' = insert_row frame frames
      in if cutoff > o_min_cursor out
         then delete_where (\<lambda>f. f_run_id f = f_run_id frame \<and> f_cursor f \<le> cutoff) frames' else frames')"

definition append_frame ::
  "durable_env \<Rightarrow> time \<Rightarrow> ident \<Rightarrow> string \<Rightarrow> jdict \<Rightarrow> int \<Rightarrow> 'a durable_db_scheme
    \<Rightarrow> (durable_error, DurableRunFrame \<times> 'a durable_db_scheme) res" where
  "append_frame env now run_id event data0 max_frames db =
     (if max_frames < 1 then Inl Durable_ValueError
      else res_bind (safe_data env event data0) (\<lambda>data.
        case get_output run_id db of
          None \<Rightarrow> Inl Durable_LookupError
        | Some out \<Rightarrow>
            res_bind (reply_within_limit event data (o_snapshot_json out)) (\<lambda>_.
            res_bind (project_event event data (o_snapshot_json out)) (\<lambda>pj.
              let frame = \<lparr>f_run_id = run_id, f_cursor = o_cursor out + 1, f_event = event, f_data_json = data,
                           f_created_at = now\<rparr>
              in Inr (frame,
                   db\<lparr>durable_run_outputs := update_where (\<lambda>r. o_run_id r = run_id)
                          (\<lambda>_. advance_output max_frames event data pj out) (durable_run_outputs db),
                      durable_run_frames := retain_frames max_frames out frame (durable_run_frames db)\<rparr>)))))"

definition list_frames :: "ident \<Rightarrow> int \<Rightarrow> nat \<Rightarrow> 'a durable_db_scheme \<Rightarrow> DurableRunFrame list" where
  "list_frames run_id after limit db =
     take limit (sort_key f_cursor
       (scalars (\<lambda>f. f_run_id f = run_id \<and> f_cursor f > after) (durable_run_frames db)))"

text \<open>The close signal, rebuilt from the output row.\<close>

definition latest_terminal :: "ident \<Rightarrow> 'a durable_db_scheme \<Rightarrow> (int option \<times> string \<times> jdict option) option" where
  "latest_terminal run_id db =
     (case get_output run_id db of
        None \<Rightarrow> None
      | Some out \<Rightarrow>
          (case o_terminal_event out of
             None \<Rightarrow> None
           | Some event \<Rightarrow> Some (o_terminal_cursor out, event, o_terminal_data_json out)))"

section \<open>Claiming work\<close>

interpretation job: leased_rows j_id job_claimable job_held job_grant
  by unfold_locales (auto simp: job_claimable_def job_held_def job_grant_def)

lemma claim_loop_Some:
  "claim_loop now lease tokens is jobs = (Some (i, token), jobs')
    \<Longrightarrow> rowcount (\<lambda>j. j_id j = i \<and> job_claimable now j) jobs > 0
      \<and> jobs' = update_where (\<lambda>j. j_id j = i \<and> job_claimable now j) (job_grant token (now + lease)) jobs"
  by (induction now lease tokens "is" jobs rule: claim_loop.induct) (auto simp: Let_def split: if_splits)

lemma claim_loop_finds:
  "i \<in> set is \<Longrightarrow> rowcount (\<lambda>j. j_id j = i \<and> job_claimable now j) jobs \<noteq> 0
    \<Longrightarrow> \<exists>x jobs'. claim_loop now lease tokens is jobs = (Some x, jobs')"
  by (induction now lease tokens "is" jobs rule: claim_loop.induct) (auto simp: Let_def)

text \<open>
  C30. Claiming hands a queued job to one worker: the job claimed was queued and is now held under the
  returned token, under no other token, every other job is as it was, and a second claim of the same
  job at that time finds nothing to take.
\<close>

theorem claim_job_exclusive:
  assumes "claim_job now lease tokens db = (Inr (Some (i, token)), db')"
    and "unique_on j_id (durable_run_jobs db)"
  shows "\<exists>j j'. get_row j_id i (durable_run_jobs db) = Some j \<and> j_status j = ''queued''
    \<and> get_row j_id i (durable_run_jobs db') = Some j' \<and> job_held token now j'
    \<and> (\<forall>t. job_held t now j' \<longrightarrow> t = token)
    \<and> rowcount (\<lambda>j. j_id j = i \<and> job_claimable now j) (durable_run_jobs db') = 0
    \<and> (\<forall>k. k \<noteq> i \<longrightarrow> get_row j_id k (durable_run_jobs db') = get_row j_id k (durable_run_jobs db))"
proof -
  let ?p = "\<lambda>j. j_id j = i \<and> job_claimable now j"
  have pos: "0 < lease" and taken: "rowcount ?p (durable_run_jobs db) > 0"
    and db': "durable_run_jobs db' = update_where ?p (job_grant token (now + lease)) (durable_run_jobs db)"
    using assms(1) claim_loop_Some
    by (auto simp: claim_job_def Let_def split: prod.splits if_splits)
  have one: "rowcount ?p (durable_run_jobs db) = 1"
    using rowcount_key_le [OF assms(2), of ?p i] taken by simp
  obtain j where j: "j \<in> set (durable_run_jobs db)" "?p j" using taken rowcount_pos [of ?p] by blast
  obtain j' where j': "get_row j_id i (durable_run_jobs db') = Some j'" "job_held token now j'"
    using job.claim_takes_hold [OF assms(2) one, of "now + lease" token] pos db' by auto
  have "get_row j_id k (durable_run_jobs db') = get_row j_id k (durable_run_jobs db)" if "k \<noteq> i" for k
  proof -
    have "get_row j_id k (update_where ?p (job_grant token (now + lease)) (durable_run_jobs db))
        = map_option (\<lambda>r. if ?p r then job_grant token (now + lease) r else r) (get_row j_id k (durable_run_jobs db))"
      by (rule get_row_update_where) (simp add: job_grant_def)
    also have "\<dots> = get_row j_id k (durable_run_jobs db)"
      using that get_row_SomeD by (cases "get_row j_id k (durable_run_jobs db)") fastforce+
    finally show ?thesis by (simp add: db')
  qed
  moreover have "get_row j_id i (durable_run_jobs db) = Some j" "j_status j = ''queued''"
    using get_row_unique [OF assms(2) j(1)] j(2) by (auto simp: job_claimable_def)
  ultimately show ?thesis
    using j' job.held_unique job.second_claim_fails [OF assms(2) one, of "now + lease" token] pos db' by auto
qed

text \<open>A worker never idles while work is queued: with a queued job there is always a claim.\<close>

theorem claim_job_progress:
  assumes "j \<in> set (durable_run_jobs db)" and "j_status j = ''queued''" and "0 < lease"
  shows "\<exists>x db'. claim_job now lease tokens db = (Inr (Some x), db')"
proof -
  let ?queued = "sort_key (\<lambda>j. (j_created_at j, j_id j)) (scalars (\<lambda>j. j_status j = ''queued'') (durable_run_jobs db))"
  let ?ids = "take 20 (map j_id ?queued)"
  have "j \<in> set ?queued" using assms(1,2) by simp
  then obtain q qs where q: "?queued = q # qs" by (cases ?queued) auto
  then have "q \<in> set ?queued" by simp
  then have "q \<in> set (durable_run_jobs db)" "j_status q = ''queued''" by auto
  then have "rowcount (\<lambda>j. j_id j = j_id q \<and> job_claimable now j) (durable_run_jobs db) \<noteq> 0"
    using rowcount_pos [of "\<lambda>j. j_id j = j_id q \<and> job_claimable now j"] by (auto simp: job_claimable_def)
  moreover have "j_id q \<in> set ?ids" by (simp add: q)
  ultimately obtain x jobs where "claim_loop now lease tokens ?ids (durable_run_jobs db) = (Some x, jobs)"
    using claim_loop_finds by blast
  then show ?thesis using assms(3) by (simp add: claim_job_def Let_def)
qed

text \<open>
  A lease that has expired, or whose token was superseded, cannot be renewed: a successful renewal
  proves the caller held the job at that moment.
\<close>

theorem renew_lease_needs_hold:
  assumes "unique_on j_id (durable_run_jobs db)" and "0 < lease"
  shows "fst (renew_lease now i token lease db)
      = Inr (case get_row j_id i (durable_run_jobs db) of None \<Rightarrow> False | Some j \<Rightarrow> job_held token now j)
    \<and> (fst (renew_lease now i token lease db) = Inr False
         \<longrightarrow> durable_run_jobs (snd (renew_lease now i token lease db)) = durable_run_jobs db)
    \<and> (\<forall>j. get_row j_id i (durable_run_jobs db) = Some j \<and> job_held token now j \<longrightarrow>
         get_row j_id i (durable_run_jobs (snd (renew_lease now i token lease db)))
           = Some (j\<lparr>j_lease_expires_at := Some (now + lease)\<rparr>))"
proof -
  let ?p = "\<lambda>j. j_id j = i \<and> job_held token now j"
  have iff: "rowcount ?p (durable_run_jobs db) > 0 \<longleftrightarrow>
      (case get_row j_id i (durable_run_jobs db) of None \<Rightarrow> False | Some j \<Rightarrow> job_held token now j)"
  proof (cases "get_row j_id i (durable_run_jobs db)")
    case None
    then have "\<not> ?p x" if "x \<in> set (durable_run_jobs db)" for x
      using that by (auto simp: get_row_None_iff)
    then show ?thesis using rowcount_pos [of ?p "durable_run_jobs db"] None by simp
  next
    case (Some j)
    have "x = j" if "x \<in> set (durable_run_jobs db)" "j_id x = i" for x
      using get_row_unique [OF assms(1) that(1)] that(2) Some by simp
    then show ?thesis using rowcount_pos [of ?p "durable_run_jobs db"] get_row_SomeD [OF Some] Some by auto
  qed
  have "get_row j_id i (update_where ?p (\<lambda>j. j\<lparr>j_lease_expires_at := Some (now + lease)\<rparr>) (durable_run_jobs db))
      = Some (j\<lparr>j_lease_expires_at := Some (now + lease)\<rparr>)"
    if "get_row j_id i (durable_run_jobs db) = Some j" "job_held token now j" for j
    using that get_row_SomeD [OF that(1)] by (simp add: get_row_update_where)
  then show ?thesis
    using assms(2) iff update_where_none [of ?p "durable_run_jobs db"] by (auto simp: renew_lease_def Let_def)
qed

end
