(* ===== verification/Durable_Log.thy ===== *)
theory Durable_Log
  imports Durable_Store
begin

text \<open>
  The output of a run implements an append-only log of display events
  (\<open>conversations/durable_store.py\<close>: \<open>append_frame\<close>, \<open>list_frames\<close>, \<open>latest_terminal\<close>). The
  abstract state is the list of everything ever appended; \<open>represents\<close> relates it to the output row
  and the retained frames. Appending refines appending to the list, and what a subscriber reads after
  its last seen event is the rest of the list.
\<close>

section \<open>The abstract log\<close>

type_synonym log_entry = "string \<times> jdict"

definition numbered :: "log_entry list \<Rightarrow> nat \<Rightarrow> int \<times> string \<times> jdict" where
  "numbered log i = (int i + 1, fst (log ! i), snd (log ! i))"

definition entries_from :: "log_entry list \<Rightarrow> nat \<Rightarrow> (int \<times> string \<times> jdict) list" where
  "entries_from log m = map (numbered log) [m..<length log]"

fun close_rev :: "log_entry list \<Rightarrow> (int \<times> string \<times> jdict) option" where
  "close_rev [] = None"
| "close_rev ((e, d) # rest) =
     (if e = ''run_resumed'' then None
      else if e \<in> set CONTROL_EVENTS then Some (int (length rest) + 1, e, d)
      else close_rev rest)"

text \<open>The last closing event that no resumption followed.\<close>

definition close_signal :: "log_entry list \<Rightarrow> (int \<times> string \<times> jdict) option" where
  "close_signal log = close_rev (rev log)"

definition delta_of :: "log_entry \<Rightarrow> string" where
  "delta_of x = (if fst x = ''answer_delta''
     then (case dict_str ''delta'' (snd x) of Inl _ \<Rightarrow> '''' | Inr s \<Rightarrow> s) else '''')"

definition reply_of :: "log_entry list \<Rightarrow> string" where
  "reply_of log = concat (map delta_of log)"

lemma entries_from_append:
  "m \<le> length log \<Longrightarrow> entries_from (log @ [x]) m = entries_from log m @ [(int (length log) + 1, x)]"
  by (cases x) (auto simp: entries_from_def numbered_def nth_append)

lemma filter_ge_upt: "filter (\<lambda>i. n \<le> i) [m..<k] = [max m n..<k]" for m n k :: nat
proof (induction k)
  case 0
  show ?case by simp
next
  case (Suc k)
  then show ?case by (auto simp: max_def)
qed

lemma filter_entries:
  assumes "0 \<le> c"
  shows "filter (\<lambda>x. c < fst x) (entries_from log m) = entries_from log (max m (nat c))"
proof -
  have "(\<lambda>x. c < fst x) \<circ> numbered log = (\<lambda>i. nat c \<le> i)"
    using assms by (auto simp: numbered_def fun_eq_iff)
  then show ?thesis by (simp add: entries_from_def filter_map filter_ge_upt)
qed


lemma reply_of_append [simp]: "reply_of (log @ [x]) = reply_of log @ delta_of x"
  by (simp add: reply_of_def)

lemma close_signal_append:
  "close_signal (log @ [(e, d)]) = (if e = ''run_resumed'' then None
     else if e \<in> set CONTROL_EVENTS then Some (int (length log) + 1, e, d) else close_signal log)"
  by (simp add: close_signal_def)

section \<open>Representation\<close>

definition frame_view :: "DurableRunFrame \<Rightarrow> int \<times> string \<times> jdict" where
  "frame_view f = (f_cursor f, f_event f, f_data_json f)"

definition run_frames :: "ident \<Rightarrow> 'a durable_db_scheme \<Rightarrow> DurableRunFrame list" where
  "run_frames run db = filter (\<lambda>f. f_run_id f = run) (durable_run_frames db)"

definition represents :: "ident \<Rightarrow> log_entry list \<Rightarrow> 'a durable_db_scheme \<Rightarrow> bool" where
  "represents run log db \<longleftrightarrow> unique_on o_run_id (durable_run_outputs db)
     \<and> (\<exists>out. get_output run db = Some out \<and> o_cursor out = int (length log)
          \<and> 0 \<le> o_min_cursor out \<and> o_min_cursor out \<le> o_cursor out
          \<and> map frame_view (run_frames run db) = entries_from log (nat (o_min_cursor out))
          \<and> pj_partial_reply (o_snapshot_json out) = reply_of log)
     \<and> latest_terminal run db = map_option (\<lambda>(c, e, d). (Some c, e, Some d)) (close_signal log)"


lemma project_event_reply:
  "project_event e d pj = Inr pj' \<Longrightarrow> pj_partial_reply pj' = pj_partial_reply pj @ delta_of (e, d)"
  by (auto simp: project_event_def delta_of_def res_bind_ok split: if_splits)

lemma append_frame_ok:
  assumes "append_frame env now run event data k db = Inr (f, db')"
  shows "\<exists>data' out pj. 0 < k \<and> safe_data env event data = Inr data' \<and> get_output run db = Some out
    \<and> reply_within_limit event data' (o_snapshot_json out) = Inr ()
    \<and> project_event event data' (o_snapshot_json out) = Inr pj
    \<and> f = \<lparr>f_run_id = run, f_cursor = o_cursor out + 1, f_event = event, f_data_json = data', f_created_at = now\<rparr>
    \<and> db' = db\<lparr>durable_run_outputs := update_where (\<lambda>r. o_run_id r = run)
                   (\<lambda>_. advance_output k event data' pj out) (durable_run_outputs db),
               durable_run_frames := retain_frames k out f (durable_run_frames db)\<rparr>"
  using assms by (auto simp: append_frame_def Let_def res_bind_ok split: if_splits option.splits)

lemma advance_output_sel [simp]:
  "o_run_id (advance_output k e d pj out) = o_run_id out"
  "o_cursor (advance_output k e d pj out) = o_cursor out + 1"
  "o_min_cursor (advance_output k e d pj out) = max (o_min_cursor out) (max 0 (o_cursor out + 1 - k))"
  "pj_partial_reply (o_snapshot_json (advance_output k e d pj out)) = pj_partial_reply pj"
  by (auto simp: advance_output_def Let_def mark_terminal_def add_activity_def max_def)

lemma get_output_advance:
  assumes "get_output run db = Some out" and "o_run_id out' = run"
  shows "get_output r (db\<lparr>durable_run_outputs := update_where (\<lambda>r. o_run_id r = run) (\<lambda>_. out') (durable_run_outputs db),
      durable_run_frames := fs\<rparr>) = (if r = run then Some out' else get_output r db)"
proof -
  have "get_row o_run_id r (update_where (\<lambda>r. o_run_id r = run) (\<lambda>_. out') rs) =
      (if r = run then (if get_row o_run_id run rs = None then None else Some out') else get_row o_run_id r rs)" for rs
    using assms(2) by (induction rs) (auto simp: get_row_def update_where_def)
  then show ?thesis using assms(1) by (simp add: get_output_def)
qed

lemma run_frames_retain_other:
  "r \<noteq> f_run_id f \<Longrightarrow> filter (\<lambda>g. f_run_id g = r) (retain_frames k out f fs) = filter (\<lambda>g. f_run_id g = r) fs"
  by (auto simp: retain_frames_def Let_def insert_row_def delete_where_def intro!: filter_cong)

lemma filter_frames_view:
  "map frame_view (filter (\<lambda>g. f_run_id g = run \<and> \<not> f_cursor g \<le> c) fs)
    = filter (\<lambda>x. c < fst x) (map frame_view (filter (\<lambda>g. f_run_id g = run) fs))"
  by (induction fs) (auto simp: frame_view_def)

lemma run_frames_retain:
  assumes "map frame_view (filter (\<lambda>g. f_run_id g = run) fs) = entries_from log (nat (o_min_cursor out))"
    and "0 \<le> o_min_cursor out" and "o_min_cursor out \<le> int (length log)"
    and "f_run_id f = run" and "frame_view f = (int (length log) + 1, x)"
  shows "map frame_view (filter (\<lambda>g. f_run_id g = run) (retain_frames k out f fs))
    = entries_from (log @ [x]) (nat (max (o_min_cursor out) (max 0 (int (length log) + 1 - k))))"
proof -
  let ?m = "nat (o_min_cursor out)" and ?c = "max 0 (int (length log) + 1 - k)"
  have cur: "f_cursor f = int (length log) + 1" using assms(5) by (simp add: frame_view_def)
  have full: "map frame_view (filter (\<lambda>g. f_run_id g = run) (insert_row f fs)) = entries_from (log @ [x]) ?m"
    using assms entries_from_append [of ?m log x] by (simp add: insert_row_def)
  show ?thesis
  proof (cases "?c > o_min_cursor out")
    case True
    have "filter (\<lambda>g. f_run_id g = run) (retain_frames k out f fs)
        = filter (\<lambda>g. f_run_id g = run \<and> \<not> f_cursor g \<le> ?c) (insert_row f fs)"
      using True cur assms(4) by (auto simp: retain_frames_def Let_def delete_where_def intro!: filter_cong)
    then show ?thesis
      using True full filter_frames_view [of run ?c "insert_row f fs"] filter_entries [of ?c "log @ [x]" ?m]
      by (simp add: max_def)
  next
    case False
    then have "max (o_min_cursor out) ?c = o_min_cursor out" by simp
    then show ?thesis using False full cur by (simp add: retain_frames_def Let_def)
  qed
qed

lemma advance_terminal:
  "o_terminal_event (advance_output k e d pj out)
     = (if e = ''run_resumed'' then None else if e \<in> set CONTROL_EVENTS then Some e else o_terminal_event out)"
  "o_terminal_data_json (advance_output k e d pj out)
     = (if e = ''run_resumed'' then None else if e \<in> set CONTROL_EVENTS then Some d else o_terminal_data_json out)"
  "o_terminal_cursor (advance_output k e d pj out)
     = (if e = ''run_resumed'' then None else if e \<in> set CONTROL_EVENTS then Some (o_cursor out + 1)
        else o_terminal_cursor out)"
  by (simp_all add: advance_output_def Let_def mark_terminal_def)

lemma latest_terminal_advance:
  assumes "latest_terminal run db = map_option (\<lambda>(c, e, d). (Some c, e, Some d)) (close_signal log)"
    and "get_output run db = Some out" and "o_cursor out = int (length log)"
    and "get_output run db' = Some (advance_output k e d pj out)"
  shows "latest_terminal run db' = map_option (\<lambda>(c, e, d). (Some c, e, Some d)) (close_signal (log @ [(e, d)]))"
proof -
  have "latest_terminal run db' = (if e = ''run_resumed'' then None
      else if e \<in> set CONTROL_EVENTS then Some (Some (int (length log) + 1), e, Some d) else latest_terminal run db)"
    using assms(2-4) unfolding latest_terminal_def by (auto simp: advance_terminal split: option.split)
  then show ?thesis using assms(1) by (simp add: close_signal_append)
qed

lemma represents_append:
  assumes "append_frame env now run event data k db = Inr (f, db')" and "represents run log db"
  shows "\<exists>data'. safe_data env event data = Inr data' \<and> represents run (log @ [(event, data')]) db'
    \<and> frame_view f = (int (length log) + 1, event, data')
    \<and> int (length (run_frames run db')) \<le> k
    \<and> (\<forall>run' log'. run' \<noteq> run \<longrightarrow> represents run' log' db \<longrightarrow> represents run' log' db')"
proof -
  obtain data' out pj where k: "0 < k" and d: "safe_data env event data = Inr data'"
    and out: "get_output run db = Some out" and pj: "project_event event data' (o_snapshot_json out) = Inr pj"
    and f: "f = \<lparr>f_run_id = run, f_cursor = o_cursor out + 1, f_event = event, f_data_json = data', f_created_at = now\<rparr>"
    and db': "db' = db\<lparr>durable_run_outputs := update_where (\<lambda>r. o_run_id r = run)
                   (\<lambda>_. advance_output k event data' pj out) (durable_run_outputs db),
               durable_run_frames := retain_frames k out f (durable_run_frames db)\<rparr>"
    using append_frame_ok [OF assms(1)] by blast
  have rep: "unique_on o_run_id (durable_run_outputs db)" "o_cursor out = int (length log)" "0 \<le> o_min_cursor out"
    "o_min_cursor out \<le> o_cursor out" "map frame_view (run_frames run db) = entries_from log (nat (o_min_cursor out))"
    "pj_partial_reply (o_snapshot_json out) = reply_of log"
    and closed: "latest_terminal run db = map_option (\<lambda>(c, e, d). (Some c, e, Some d)) (close_signal log)"
    using assms(2) out by (auto simp: represents_def)
  have run_id: "o_run_id out = run" using out get_row_SomeD unfolding get_output_def by fastforce
  have out': "get_output r db' = (if r = run then Some (advance_output k event data' pj out) else get_output r db)" for r
    unfolding db' using get_output_advance [OF out] run_id by simp
  have view: "frame_view f = (int (length log) + 1, event, data')" using f rep(2) by (simp add: frame_view_def)
  have frames: "map frame_view (run_frames run db')
      = entries_from (log @ [(event, data')]) (nat (max (o_min_cursor out) (max 0 (int (length log) + 1 - k))))"
    using run_frames_retain [of run "durable_run_frames db" log out f "(event, data')" k] rep view f
    by (simp add: run_frames_def db')
  have uniq: "unique_on o_run_id (durable_run_outputs db')"
    using rep(1) run_id by (simp add: db' unique_on_update_where)
  have "represents run (log @ [(event, data')]) db'"
    unfolding represents_def
    using uniq out' rep frames project_event_reply [OF pj] k latest_terminal_advance [OF closed out rep(2), of db' k event data' pj]
    by auto
  moreover have "length (run_frames run db') \<le> nat k"
  proof -
    have "length (run_frames run db') = length (map frame_view (run_frames run db'))" by simp
    also have "\<dots> = Suc (length log) - nat (max (o_min_cursor out) (max 0 (int (length log) + 1 - k)))"
      unfolding frames by (simp add: entries_from_def Suc_diff_le)
    finally show ?thesis using k by linarith
  qed
  moreover have "represents run' log' db'" if "run' \<noteq> run" "represents run' log' db" for run' log'
    using that uniq out' run_frames_retain_other [of run' f k out "durable_run_frames db"] f
    unfolding represents_def latest_terminal_def run_frames_def by (simp add: db')
  ultimately show ?thesis using d view k by auto
qed

text \<open>
  C28. Appending an event refines appending to the abstract log: afterwards the run's output represents
  the old log with exactly one more entry, whose number is the new cursor, whose event is the one given
  and whose data is the given data or, for a metadata event, its display-safe form; at most
  \<open>max_frames\<close> frames are retained, and the logs of all other runs are untouched.
\<close>

theorem append_frame_refines:
  assumes "append_frame env now run event data k db = Inr (f, db')" and "represents run log db"
  shows "\<exists>data'. safe_data env event data = Inr data' \<and> represents run (log @ [(event, data')]) db'
    \<and> frame_view f = (int (length log) + 1, event, data')
    \<and> int (length (run_frames run db')) \<le> k
    \<and> (\<forall>run' log'. run' \<noteq> run \<longrightarrow> represents run' log' db \<longrightarrow> represents run' log' db')"
  by (rule represents_append [OF assms])

section \<open>Reading the log\<close>







lemma ensure_output_represents:
  assumes "unique_on o_run_id (durable_run_outputs db)" and "get_output run db = None" and "run_frames run db = []"
  shows "represents run [] (snd (ensure_output run db))"
proof -
  have "run \<notin> o_run_id ` set (durable_run_outputs db)"
    using assms(2) by (simp add: get_output_def get_row_None_iff)
  then show ?thesis
    using assms
    by (auto simp: represents_def ensure_output_def Let_def get_output_def get_row_insert run_frames_def
        entries_from_def empty_projection_def reply_of_def latest_terminal_def close_signal_def)
qed


text \<open>
  The stored reply never exceeds its limit, and the activity list never exceeds the retention
  window: an append that succeeds leaves both within bounds.
\<close>

theorem append_frame_bounds:
  assumes "append_frame env now run event data k db = Inr (f, db')" and "get_output run db = Some out"
    and "int (length (pj_partial_reply (o_snapshot_json out))) \<le> MAX_PARTIAL_REPLY_CHARACTERS"
  shows "\<exists>out'. get_output run db' = Some out'
    \<and> int (length (pj_partial_reply (o_snapshot_json out'))) \<le> MAX_PARTIAL_REPLY_CHARACTERS
    \<and> (is_metadata event \<longrightarrow> int (length (pj_activity_events (o_snapshot_json out'))) \<le> k)
    \<and> o_cursor out' = o_cursor out + 1 \<and> o_cursor out' - o_min_cursor out' \<le> k"
proof -
  obtain data' pj where k: "0 < k" and lim: "reply_within_limit event data' (o_snapshot_json out) = Inr ()"
    and pj: "project_event event data' (o_snapshot_json out) = Inr pj"
    and db': "db' = db\<lparr>durable_run_outputs := update_where (\<lambda>r. o_run_id r = run)
                   (\<lambda>_. advance_output k event data' pj out) (durable_run_outputs db),
               durable_run_frames := retain_frames k out f (durable_run_frames db)\<rparr>"
    using append_frame_ok [OF assms(1)] assms(2) by auto
  have "o_run_id out = run" using assms(2) get_row_SomeD unfolding get_output_def by fastforce
  then have out': "get_output run db' = Some (advance_output k event data' pj out)"
    unfolding db' using get_output_advance [OF assms(2)] by simp
  have "int (length (pj_partial_reply pj)) \<le> MAX_PARTIAL_REPLY_CHARACTERS"
    using lim project_event_reply [OF pj] assms(3)
    by (cases "event = ''answer_delta''")
      (auto simp: reply_within_limit_def delta_of_def res_bind_def split: sum.splits if_splits)
  moreover have "int (length (pj_activity_events (o_snapshot_json (advance_output k event data' pj out)))) \<le> k"
    if "is_metadata event"
    using that k by (auto simp: advance_output_def Let_def add_activity_def py_last_def)
  ultimately show ?thesis using out' by auto
qed

section \<open>Instances\<close>

definition sample_durable_env :: durable_env where
  "sample_durable_env = \<lparr>de_fingerprint = (\<lambda>_. ''fp''), de_safe_payload = (\<lambda>_ d. Inr d)\<rparr>"

definition empty_durable_db :: durable_db where
  "empty_durable_db = \<lparr>durable_run_jobs = [], durable_run_outputs = [], durable_run_frames = [],
     durable_worker_heartbeats = []\<rparr>"

definition ok_db :: "('e, 'v \<times> 's) res \<Rightarrow> 's \<Rightarrow> 's" where
  "ok_db r s = (case r of Inl _ \<Rightarrow> s | Inr (_, s') \<Rightarrow> s')"

definition sample_queue :: durable_db where
  "sample_queue = ok_db (enqueue_job sample_durable_env ''j1'' 1 ''r1'' ''u1'' ''run'' ''c1'' [] empty_durable_db) empty_durable_db"

definition sample_append :: "string \<Rightarrow> jdict \<Rightarrow> durable_db \<Rightarrow> (durable_error, DurableRunFrame \<times> durable_db) res" where
  "sample_append e d db = append_frame sample_durable_env 2 ''r1'' e d 2 db"

definition sample_delta :: jdict where
  "sample_delta = [(''delta'', JStr ''Hi'')]"

definition sample_one :: durable_db where
  "sample_one = ok_db (sample_append ''answer_delta'' sample_delta sample_queue) sample_queue"

definition sample_two :: durable_db where
  "sample_two = ok_db (sample_append ''run_started'' [] sample_one) sample_one"


lemma ok_db_run: "is_ok r \<Longrightarrow> \<exists>v. r = Inr (v, ok_db r s)"
  by (auto simp: ok_db_def elim: is_okE split: prod.splits)

lemma sample_appends:
  "is_ok (sample_append ''answer_delta'' sample_delta sample_queue)"
  "is_ok (sample_append ''run_started'' [] sample_one)"
  "is_ok (sample_append ''run_completed'' [] sample_two)"
  by code_simp+

lemma sample_queue_represents: "represents ''r1'' [] sample_queue"
proof -
  have "represents ''r1'' [] (snd (ensure_output ''r1'' empty_durable_db))"
    by (rule ensure_output_represents) code_simp+
  moreover have "durable_run_outputs sample_queue = durable_run_outputs (snd (ensure_output ''r1'' empty_durable_db))"
    "durable_run_frames sample_queue = durable_run_frames (snd (ensure_output ''r1'' empty_durable_db))"
    by code_simp+
  ultimately show ?thesis by (simp add: represents_def get_output_def run_frames_def latest_terminal_def)
qed

theorem append_frame_refines_witness:
  "represents ''r1'' [(''answer_delta'', sample_delta)] sample_one \<and> length (run_frames ''r1'' sample_one) \<le> 2"
proof -
  obtain f where run: "append_frame sample_durable_env 2 ''r1'' ''answer_delta'' sample_delta 2 sample_queue = Inr (f, sample_one)"
    using ok_db_run [OF sample_appends(1)] unfolding sample_one_def sample_append_def by blast
  have "safe_data sample_durable_env ''answer_delta'' sample_delta = Inr sample_delta" by code_simp
  with append_frame_refines [OF run sample_queue_represents] show ?thesis by auto
qed





theorem append_frame_bounds_witness:
  "\<exists>out'. get_output ''r1'' sample_two = Some out' \<and> length (pj_activity_events (o_snapshot_json out')) \<le> 2"
proof -
  obtain f where run: "append_frame sample_durable_env 2 ''r1'' ''run_started'' [] 2 sample_one = Inr (f, sample_two)"
    using ok_db_run [OF sample_appends(2)] unfolding sample_two_def sample_append_def by blast
  have "get_output ''r1'' sample_one = Some (hd (durable_run_outputs sample_one))" by code_simp
  moreover have "int (length (pj_partial_reply (o_snapshot_json (hd (durable_run_outputs sample_one))))) \<le> MAX_PARTIAL_REPLY_CHARACTERS"
    by code_simp
  ultimately have "\<exists>out'. get_output ''r1'' sample_two = Some out'
      \<and> (is_metadata ''run_started'' \<longrightarrow> int (length (pj_activity_events (o_snapshot_json out'))) \<le> 2)"
    using append_frame_bounds [OF run] by blast
  then show ?thesis by (auto simp: is_metadata_def CONTROL_EVENTS_def)
qed

definition sample_claim :: "(durable_error, (ident \<times> string) option) res \<times> durable_db" where
  "sample_claim = claim_job 5 60 [''t1''] sample_queue"

theorem claim_job_exclusive_witness:
  "\<exists>j'. get_row j_id ''j1'' (durable_run_jobs (snd sample_claim)) = Some j' \<and> job_held ''t1'' 5 j'"
proof -
  have "claim_job 5 60 [''t1''] sample_queue = (Inr (Some (''j1'', ''t1'')), snd sample_claim)"
    unfolding sample_claim_def by (rule prod_eqI) (code_simp, simp)
  moreover have "unique_on j_id (durable_run_jobs sample_queue)" by code_simp
  ultimately show ?thesis using claim_job_exclusive by blast
qed

theorem claim_job_progress_witness: "\<exists>x db'. claim_job 5 60 [''t1''] sample_queue = (Inr (Some x), db')"
proof -
  have "hd (durable_run_jobs sample_queue) \<in> set (durable_run_jobs sample_queue)"
    "j_status (hd (durable_run_jobs sample_queue)) = ''queued''" by code_simp+
  then show ?thesis by (rule claim_job_progress) simp
qed

theorem renew_lease_needs_hold_witness: "fst (renew_lease 70 ''j1'' ''t1'' 60 (snd sample_claim)) = Inr False"
proof -
  have "unique_on j_id (durable_run_jobs (snd sample_claim))" by code_simp
  then have "fst (renew_lease 70 ''j1'' ''t1'' 60 (snd sample_claim))
      = Inr (case get_row j_id ''j1'' (durable_run_jobs (snd sample_claim)) of None \<Rightarrow> False | Some j \<Rightarrow> job_held ''t1'' 70 j)"
    using renew_lease_needs_hold [of "snd sample_claim" 60 70] by simp
  moreover have "\<not> (case get_row j_id ''j1'' (durable_run_jobs (snd sample_claim)) of None \<Rightarrow> False | Some j \<Rightarrow> job_held ''t1'' 70 j)"
    by code_simp
  ultimately show ?thesis by simp
qed

end
