(* ===== verification/Durable_Runtime.thy ===== *)
theory Durable_Runtime
  imports Durable_Log
begin

text \<open>
  Ownership fencing, terminal reconciliation, cancellation and recovery of durable runs
  (\<open>conversations/durable_runtime.py\<close>), with the parts of the worker that start and settle a job
  (\<open>answer_worker.py\<close>: \<open>execute_job\<close>). A session with an installed fence is the pair of job and
  lease token; \<open>own\<close> is the check the fence runs before every flush and commit. The two response
  serializers that build the data of a repaired closing event are parameters of \<open>runtime_env\<close>.
  An operation that commits returns its result with the database; a raise rolls back.
\<close>

record AgentRunModel =
  r_id :: ident
  r_conversation_id :: ident
  r_user_id :: ident
  r_status :: string
  r_reasoning_mode :: string
  r_reasoning_effort :: string
  r_client_request_id :: "ident option"
  r_interaction_id :: "ident option"
  r_interaction_type :: "string option"
  r_interaction_payload_json :: "jdict option"
  r_interaction_expires_at :: "time option"

record AgentEventModel =
  e_id :: ident
  e_run_id :: ident
  e_sequence :: int
  e_event_type :: string
  e_payload_json :: jdict
  e_created_at :: time

record runtime_db = durable_db +
  agent_runs :: "AgentRunModel list"
  agent_events :: "AgentEventModel list"

record runtime_env =
  rv_durable :: durable_env
  rv_interrupted_response :: "AgentRunModel \<Rightarrow> (durable_error, jdict) res"
  rv_run_detail :: "runtime_db \<Rightarrow> AgentRunModel \<Rightarrow> (durable_error, jdict) res"

definition TERMINAL :: "string list" where
  "TERMINAL = [''completed'', ''failed'', ''cancelled'', ''waiting_for_input'']"

definition get_run :: "ident \<Rightarrow> runtime_db \<Rightarrow> AgentRunModel option" where
  "get_run run_id db = get_row r_id run_id (agent_runs db)"

definition save_run :: "AgentRunModel \<Rightarrow> runtime_db \<Rightarrow> runtime_db" where
  "save_run run db = db\<lparr>agent_runs := update_where (\<lambda>r. r_id r = r_id run) (\<lambda>_. run) (agent_runs db)\<rparr>"

definition save_job :: "DurableRunJob \<Rightarrow> runtime_db \<Rightarrow> runtime_db" where
  "save_job job db = db\<lparr>durable_run_jobs := update_where (\<lambda>j. j_id j = j_id job) (\<lambda>_. job) (durable_run_jobs db)\<rparr>"

section \<open>Workers and fences\<close>

definition worker_ready :: "bool \<Rightarrow> bool \<Rightarrow> time \<Rightarrow> time \<Rightarrow> 'a durable_db_scheme \<Rightarrow> bool" where
  "worker_ready durable_runs_enabled background_sessions now lease db =
     (if \<not> durable_runs_enabled \<or> \<not> background_sessions then False
      else scalar (\<lambda>h. h_last_seen_at h > now - lease) (durable_worker_heartbeats db) \<noteq> None)"

type_synonym fence = "ident \<times> string"

definition own :: "fence \<Rightarrow> time \<Rightarrow> 'a durable_db_scheme \<Rightarrow> (durable_error, unit) res" where
  "own f now db =
     (if rowcount (\<lambda>j. j_id j = fst f \<and> job_held (snd f) now j) (durable_run_jobs db) \<noteq> 1
      then Inl ExecutionStopped else Inr ())"

definition terminal_allowed :: "string \<Rightarrow> string list" where
  "terminal_allowed status =
     (if status \<in> {''completed'', ''waiting_for_input''} then [''running'']
      else [''running'', ''cancelling'', ''queued''])"

text \<open>A fenced session flushing a changed closing status of a run.\<close>

definition flush_terminal :: "fence \<Rightarrow> time \<Rightarrow> ident \<Rightarrow> string \<Rightarrow> runtime_db \<Rightarrow> (durable_error, runtime_db) res" where
  "flush_terminal f now run_id status db =
     res_bind (own f now db) (\<lambda>_.
       let p = (\<lambda>r. r_id r = run_id \<and> r_status r \<in> set (terminal_allowed status))
       in if rowcount p (agent_runs db) \<noteq> 1 then Inl ExecutionStopped
          else Inr (db\<lparr>agent_runs := update_where p (\<lambda>r. r\<lparr>r_status := status\<rparr>) (agent_runs db)\<rparr>))"

section \<open>Emitting and repairing\<close>

definition emit ::
  "runtime_env \<Rightarrow> fence option \<Rightarrow> time \<Rightarrow> ident \<Rightarrow> string \<Rightarrow> jdict \<Rightarrow> int \<Rightarrow> runtime_db
    \<Rightarrow> (durable_error, runtime_db) res" where
  "emit env guard now run_id name data max_frames db =
     res_bind (case guard of None \<Rightarrow> Inr () | Some f \<Rightarrow> own f now db) (\<lambda>_.
       let (out, db1) = ensure_output run_id db
       in if name \<in> set CONTROL_EVENTS \<and> o_terminal_event out = Some name then Inr db1
          else res_bind (append_frame (rv_durable env) now run_id name data max_frames db1) (\<lambda>r. Inr (snd r)))"

definition default_max_frames :: int where
  "default_max_frames = 2000"

definition expected_event :: "string \<Rightarrow> string" where
  "expected_event status =
     (if status = ''completed'' then ''run_completed'' else if status = ''failed'' then ''run_failed''
      else if status = ''cancelled'' then ''run_cancelled'' else ''run_interrupted'')"

definition cancelled_data :: "AgentRunModel \<Rightarrow> jdict" where
  "cancelled_data run = [(''run_id'', JStr (r_id run)), (''conversation_id'', JStr (r_conversation_id run)),
     (''status'', JStr ''cancelled''), (''partial_reply_persisted'', JBool False)]"

definition failed_data :: "AgentRunModel \<Rightarrow> string \<Rightarrow> string \<Rightarrow> jdict" where
  "failed_data run code detail = [(''run_id'', JStr (r_id run)), (''conversation_id'', JStr (r_conversation_id run)),
     (''status'', JStr ''failed''), (''code'', JStr code), (''detail'', JStr detail)]"

definition terminal_data :: "runtime_env \<Rightarrow> runtime_db \<Rightarrow> AgentRunModel \<Rightarrow> (durable_error, jdict) res" where
  "terminal_data env db run =
     (if r_status run = ''waiting_for_input'' then rv_interrupted_response env run
      else if r_status run = ''completed'' then rv_run_detail env db run
      else if r_status run = ''cancelled'' then Inr (cancelled_data run)
      else Inr (failed_data run ''run_failed'' ''The answer could not be completed.''))"

definition repair_terminal ::
  "runtime_env \<Rightarrow> fence option \<Rightarrow> time \<Rightarrow> AgentRunModel \<Rightarrow> runtime_db \<Rightarrow> (durable_error, bool \<times> runtime_db) res" where
  "repair_terminal env guard now loaded db =
     (if r_status loaded \<notin> set TERMINAL then Inr (False, db)
      else res_bind (case guard of None \<Rightarrow> Inr () | Some f \<Rightarrow> own f now db) (\<lambda>_.
        case get_run (r_id loaded) db of
          None \<Rightarrow> Inl Durable_InvalidRequest
        | Some run \<Rightarrow>
            if r_status run \<notin> set TERMINAL then Inr (False, db)
            else (case get_output (r_id run) db of
                    None \<Rightarrow> Inr (False, db)
                  | Some out \<Rightarrow>
                      if o_terminal_event out = Some (expected_event (r_status run)) then Inr (False, db)
                      else res_bind (terminal_data env db run) (\<lambda>data.
                           res_bind (emit env guard now (r_id run) (expected_event (r_status run)) data
                                       default_max_frames db) (\<lambda>db'. Inr (True, db'))))))"

section \<open>Failing, reaping and cancelling\<close>

definition append_run_event :: "ident \<Rightarrow> time \<Rightarrow> ident \<Rightarrow> string \<Rightarrow> jdict \<Rightarrow> runtime_db \<Rightarrow> runtime_db" where
  "append_run_event new_id now run_id event_type payload db =
     (let sequences = map e_sequence (scalars (\<lambda>e. e_run_id e = run_id) (agent_events db));
          next_sequence = (case sequences of [] \<Rightarrow> 0 | s # ss \<Rightarrow> foldr max ss s) + 1
      in db\<lparr>agent_events := insert_row \<lparr>e_id = new_id, e_run_id = run_id, e_sequence = next_sequence,
               e_event_type = event_type, e_payload_json = payload, e_created_at = now\<rparr> (agent_events db)\<rparr>)"

text \<open>The run's own settlement: close an active run, or repair the delivery of a closed one.\<close>

definition settle_run ::
  "runtime_env \<Rightarrow> time \<Rightarrow> AgentRunModel \<Rightarrow> string \<Rightarrow> string \<Rightarrow> runtime_db
    \<Rightarrow> (durable_error, string \<times> runtime_db) res" where
  "settle_run env now run code detail db =
     (if r_status run \<in> {''queued'', ''running'', ''cancelling''}
      then (if r_status run = ''cancelling''
            then res_bind (emit env None now (r_id run) ''run_cancelled'' (cancelled_data run) default_max_frames
                             (save_run (run\<lparr>r_status := ''cancelled''\<rparr>) db)) (\<lambda>db'. Inr (''cancelled'', db'))
            else res_bind (emit env None now (r_id run) ''run_failed'' (failed_data run code detail) default_max_frames
                             (save_run (run\<lparr>r_status := ''failed''\<rparr>) db)) (\<lambda>db'. Inr (''failed'', db')))
      else res_bind (repair_terminal env None now run db) (\<lambda>r. Inr (r_status run, snd r)))"

definition fail_job ::
  "runtime_env \<Rightarrow> ident \<Rightarrow> time \<Rightarrow> DurableRunJob \<Rightarrow> string \<Rightarrow> string \<Rightarrow> runtime_db \<Rightarrow> (durable_error, runtime_db) res" where
  "fail_job env new_id now job code detail db =
     (case get_run (j_run_id job) db of
        None \<Rightarrow> Inr (save_job (job\<lparr>j_status := ''done''\<rparr>) db)
      | Some run \<Rightarrow>
          res_bind (settle_run env now run code detail db) (\<lambda>(status, db1).
            let db2 = (if status = ''failed''
                       then append_run_event new_id now (r_id run) ''run_failed''
                              [(''safe_error_type'', JStr code), (''safe_reason'', JStr detail)] db1
                       else db1)
            in Inr (save_job (job\<lparr>j_status := ''done'', j_lease_token := None, j_lease_expires_at := None\<rparr>) db2)))"

definition job_lost :: "time \<Rightarrow> time \<Rightarrow> DurableRunJob \<Rightarrow> bool" where
  "job_lost now queue_timeout j \<longleftrightarrow>
     (j_status j = ''running'' \<and> (case j_lease_expires_at j of None \<Rightarrow> False | Some til \<Rightarrow> til < now))
     \<or> (j_status j = ''queued'' \<and> j_created_at j < now - queue_timeout)"

definition worker_lost_detail :: string where
  "worker_lost_detail = ''The answer worker stopped before completion. You can regenerate the answer.''"

fun reap_jobs ::
  "runtime_env \<Rightarrow> (ident \<Rightarrow> ident) \<Rightarrow> time \<Rightarrow> time \<Rightarrow> ident list \<Rightarrow> runtime_db \<Rightarrow> (durable_error, runtime_db) res" where
  "reap_jobs env fresh now queue_timeout [] db = Inr db"
| "reap_jobs env fresh now queue_timeout (i # is) db =
     (let p = (\<lambda>j. j_id j = i \<and> job_lost now queue_timeout j)
      in if rowcount p (durable_run_jobs db) \<noteq> 1 then reap_jobs env fresh now queue_timeout is db
         else
           let db1 = db\<lparr>durable_run_jobs := update_where p (\<lambda>j. j\<lparr>j_status := ''done''\<rparr>) (durable_run_jobs db)\<rparr>
           in case get_row j_id i (durable_run_jobs db1) of
                None \<Rightarrow> Inl Durable_RuntimeError
              | Some job \<Rightarrow>
                  res_bind (fail_job env (fresh i) now job ''worker_lost'' worker_lost_detail db1)
                    (reap_jobs env fresh now queue_timeout is))"

definition interaction_expired :: "time \<Rightarrow> AgentRunModel \<Rightarrow> bool" where
  "interaction_expired now r \<longleftrightarrow> r_status r = ''waiting_for_input''
     \<and> (case r_interaction_expires_at r of None \<Rightarrow> False | Some til \<Rightarrow> til < now)"

definition clear_interaction :: "AgentRunModel \<Rightarrow> AgentRunModel" where
  "clear_interaction r = r\<lparr>r_status := ''cancelled'', r_interaction_id := None, r_interaction_type := None,
     r_interaction_payload_json := None, r_interaction_expires_at := None\<rparr>"

fun reap_waiting :: "runtime_env \<Rightarrow> time \<Rightarrow> ident list \<Rightarrow> runtime_db \<Rightarrow> (durable_error, runtime_db) res" where
  "reap_waiting env now [] db = Inr db"
| "reap_waiting env now (i # is) db =
     (let p = (\<lambda>r. r_id r = i \<and> interaction_expired now r)
      in if rowcount p (agent_runs db) \<noteq> 1 then reap_waiting env now is db
         else
           let db1 = db\<lparr>agent_runs := update_where p clear_interaction (agent_runs db)\<rparr>
           in case get_run i db1 of
                None \<Rightarrow> Inl Durable_RuntimeError
              | Some run \<Rightarrow> res_bind (repair_terminal env None now run db1) (\<lambda>r. reap_waiting env now is (snd r)))"

definition reap_lost_jobs ::
  "runtime_env \<Rightarrow> (ident \<Rightarrow> ident) \<Rightarrow> time \<Rightarrow> time \<Rightarrow> runtime_db \<Rightarrow> (durable_error, unit) res \<times> runtime_db" where
  "reap_lost_jobs env fresh now queue_timeout db =
     (let ids = map j_id (scalars (job_lost now queue_timeout) (durable_run_jobs db))
      in case res_bind (reap_jobs env fresh now queue_timeout ids db) (\<lambda>db1.
                let waiting = map r_id (scalars (\<lambda>r. interaction_expired now r \<and> get_output (r_id r) db1 \<noteq> None)
                                          (agent_runs db1))
                in reap_waiting env now waiting db1) of
           Inl e \<Rightarrow> (Inl e, db)
         | Inr db' \<Rightarrow> (Inr (), db'))"

definition cancel_durable ::
  "runtime_env \<Rightarrow> ident \<Rightarrow> time \<Rightarrow> ident \<Rightarrow> runtime_db \<Rightarrow> (durable_error, bool) res \<times> runtime_db" where
  "cancel_durable env new_id now run_id db =
     (case get_output run_id db of
        None \<Rightarrow> (Inr False, db)
      | Some _ \<Rightarrow>
          (case get_run run_id db of
             None \<Rightarrow> (Inl Durable_InvalidRequest, db)
           | Some run \<Rightarrow>
               if r_status run \<in> {''queued'', ''waiting_for_input''}
               then let db1 = save_run (clear_interaction run) db;
                        db2 = db1\<lparr>durable_run_jobs := update_where (\<lambda>j. j_run_id j = run_id \<and> j_status j = ''queued'')
                                     (\<lambda>j. j\<lparr>j_status := ''done''\<rparr>) (durable_run_jobs db1)\<rparr>;
                        db3 = append_run_event new_id now run_id ''run_cancelled'' (cancelled_data run) db2
                    in (case emit env None now run_id ''run_cancelled'' (cancelled_data run) default_max_frames db3 of
                          Inl e \<Rightarrow> (Inl e, db)
                        | Inr db4 \<Rightarrow> (Inr True, db4))
               else if r_status run = ''running''
               then (Inr True, append_run_event new_id now run_id ''run_cancel_requested''
                       [(''run_id'', JStr run_id), (''status'', JStr ''cancelling'')]
                       (save_run (run\<lparr>r_status := ''cancelling''\<rparr>) db))
               else (Inr True, db)))"

definition delete_output_rows :: "ident list \<Rightarrow> 'a durable_db_scheme \<Rightarrow> 'a durable_db_scheme" where
  "delete_output_rows run_ids db =
     db\<lparr>durable_run_frames := delete_where (\<lambda>f. f_run_id f \<in> set run_ids) (durable_run_frames db),
        durable_run_jobs := delete_where (\<lambda>j. j_run_id j \<in> set run_ids) (durable_run_jobs db),
        durable_run_outputs := delete_where (\<lambda>x. o_run_id x \<in> set run_ids) (durable_run_outputs db)\<rparr>"

section \<open>Starting and settling a job\<close>

text \<open>
  How a worker opens a claimed job: \<open>None\<close> when the job or run is gone or no longer its own,
  \<open>Some False\<close> when the run is not queued any more (the job then settles as stopped).
\<close>

definition begin_execution :: "ident \<Rightarrow> string \<Rightarrow> runtime_db \<Rightarrow> bool option \<times> runtime_db" where
  "begin_execution job_id token db =
     (case get_row j_id job_id (durable_run_jobs db) of
        None \<Rightarrow> (None, db)
      | Some job \<Rightarrow>
          if j_lease_token job \<noteq> Some token \<or> j_status job \<noteq> ''running'' then (None, db)
          else (case get_run (j_run_id job) db of
                  None \<Rightarrow> (None, db)
                | Some run \<Rightarrow>
                    let p = (\<lambda>r. r_id r = r_id run \<and> r_status r = ''queued'')
                    in (Some (rowcount p (agent_runs db) = 1),
                        db\<lparr>agent_runs := update_where p (\<lambda>r. r\<lparr>r_status := ''running''\<rparr>) (agent_runs db)\<rparr>)))"

definition finish_execution ::
  "runtime_env \<Rightarrow> ident \<Rightarrow> time \<Rightarrow> ident \<Rightarrow> string \<Rightarrow> (string \<times> string) option \<Rightarrow> runtime_db
    \<Rightarrow> (durable_error, unit) res \<times> runtime_db" where
  "finish_execution env new_id now job_id token failure db =
     (case get_row j_id job_id (durable_run_jobs db) of
        None \<Rightarrow> (Inr (), db)
      | Some job \<Rightarrow>
          if j_status job \<noteq> ''running'' \<or> j_lease_token job \<noteq> Some token then (Inr (), db)
          else (case failure of
                  Some (code, detail) \<Rightarrow>
                    (case fail_job env new_id now job code detail db of Inl e \<Rightarrow> (Inl e, db) | Inr db' \<Rightarrow> (Inr (), db'))
                | None \<Rightarrow>
                    (case get_run (j_run_id job) db of
                       None \<Rightarrow> (Inr (), db)
                     | Some run \<Rightarrow>
                         (case repair_terminal env None now run db of
                            Inl e \<Rightarrow> (Inl e, db)
                          | Inr (_, db1) \<Rightarrow>
                              (Inr (), save_job (job\<lparr>j_status := ''done'', j_lease_token := None,
                                                     j_lease_expires_at := None\<rparr>) db1)))))"

section \<open>What the building blocks change\<close>

lemma ensure_output_ok:
  fixes db :: runtime_db
  assumes "ensure_output run db = (out, db')"
  shows "get_output run db' = Some out" and "r \<noteq> run \<Longrightarrow> get_output r db' = get_output r db"
    and "agent_runs db' = agent_runs db" and "agent_events db' = agent_events db"
    and "durable_run_jobs db' = durable_run_jobs db"
  using assms
  by (auto simp: ensure_output_def Let_def get_output_def get_row_insert split: option.splits)

lemma append_frame_frame:
  fixes db :: runtime_db
  assumes "append_frame env now run event data k db = Inr (f, db')"
  shows "agent_runs db' = agent_runs db" and "agent_events db' = agent_events db"
    and "durable_run_jobs db' = durable_run_jobs db"
    and "r \<noteq> run \<Longrightarrow> get_output r db' = get_output r db"
    and "event \<in> set CONTROL_EVENTS \<Longrightarrow> \<exists>out. get_output run db' = Some out \<and> o_terminal_event out = Some event"
proof -
  obtain data' out pj where out: "get_output run db = Some out"
    and db': "db' = db\<lparr>durable_run_outputs := update_where (\<lambda>r. o_run_id r = run)
                   (\<lambda>_. advance_output k event data' pj out) (durable_run_outputs db),
               durable_run_frames := retain_frames k out f (durable_run_frames db)\<rparr>"
    using append_frame_ok [OF assms] by blast
  have "o_run_id out = run" using out get_row_SomeD unfolding get_output_def by fastforce
  then have get: "get_output r db' = (if r = run then Some (advance_output k event data' pj out) else get_output r db)" for r
    unfolding db' using get_output_advance [OF out] by simp
  show "agent_runs db' = agent_runs db" "agent_events db' = agent_events db" "durable_run_jobs db' = durable_run_jobs db"
    by (simp_all add: db')
  show "r \<noteq> run \<Longrightarrow> get_output r db' = get_output r db" using get by simp
  show "event \<in> set CONTROL_EVENTS \<Longrightarrow> \<exists>out. get_output run db' = Some out \<and> o_terminal_event out = Some event"
    using get by (auto simp: advance_terminal CONTROL_EVENTS_def)
qed

lemma emit_ok:
  assumes "emit env guard now run name data k db = Inr db'"
  shows "agent_runs db' = agent_runs db" and "agent_events db' = agent_events db"
    and "durable_run_jobs db' = durable_run_jobs db"
    and "r \<noteq> run \<Longrightarrow> get_output r db' = get_output r db"
    and "name \<in> set CONTROL_EVENTS \<Longrightarrow> \<exists>out. get_output run db' = Some out \<and> o_terminal_event out = Some name"
proof -
  obtain out db1 where ens: "ensure_output run db = (out, db1)" by fastforce
  note e = ensure_output_ok [OF ens]
  have cases: "(db' = db1 \<and> o_terminal_event out = Some name) \<or> (\<exists>f. append_frame (rv_durable env) now run name data k db1 = Inr (f, db'))"
    using assms ens by (auto simp: emit_def res_bind_ok split: if_splits)
  show "agent_runs db' = agent_runs db" "agent_events db' = agent_events db" "durable_run_jobs db' = durable_run_jobs db"
    using cases e append_frame_frame(1-3) by metis+
  show "r \<noteq> run \<Longrightarrow> get_output r db' = get_output r db"
    using cases e(2) append_frame_frame(4) by metis
  show "name \<in> set CONTROL_EVENTS \<Longrightarrow> \<exists>out. get_output run db' = Some out \<and> o_terminal_event out = Some name"
    using cases e(1) append_frame_frame(5) by metis
qed

lemma expected_event_control [simp]: "expected_event s \<in> set CONTROL_EVENTS"
  by (simp add: expected_event_def CONTROL_EVENTS_def)

lemma repair_terminal_ok:
  assumes "repair_terminal env guard now loaded db = Inr (b, db')"
  shows "agent_runs db' = agent_runs db" and "agent_events db' = agent_events db"
    and "durable_run_jobs db' = durable_run_jobs db"
    and "r \<noteq> r_id loaded \<Longrightarrow> get_output r db' = get_output r db"
proof -
  have "db' = db \<or> (\<exists>name data. emit env guard now (r_id loaded) name data default_max_frames db = Inr db')"
  proof (cases "get_run (r_id loaded) db")
    case None
    then show ?thesis using assms by (auto simp: repair_terminal_def res_bind_ok split: if_splits)
  next
    case (Some run)
    then have "r_id run = r_id loaded" using get_row_SomeD unfolding get_run_def by metis
    then show ?thesis
      using assms Some by (auto simp: repair_terminal_def res_bind_ok split: if_splits option.splits)
  qed
  then show "agent_runs db' = agent_runs db" "agent_events db' = agent_events db" "durable_run_jobs db' = durable_run_jobs db"
    "r \<noteq> r_id loaded \<Longrightarrow> get_output r db' = get_output r db"
    using emit_ok by metis+
qed

text \<open>
  Repairing the delivery of a closed run converges: afterwards the run's output, if it has one,
  carries exactly the closing event of the run's status, the run, the jobs and the other runs' outputs
  are untouched, and repairing again changes nothing.
\<close>

theorem repair_terminal_converges:
  assumes "repair_terminal env None now run db = Inr (b, db')"
    and "get_run (r_id run) db = Some run" and "r_status run \<in> set TERMINAL"
    and "get_output (r_id run) db = Some out"
  shows "(\<exists>out'. get_output (r_id run) db' = Some out' \<and> o_terminal_event out' = Some (expected_event (r_status run)))
    \<and> agent_runs db' = agent_runs db \<and> durable_run_jobs db' = durable_run_jobs db
    \<and> (\<forall>r. r \<noteq> r_id run \<longrightarrow> get_output r db' = get_output r db)
    \<and> repair_terminal env None now' run db' = Inr (False, db')"
proof -
  have out': "\<exists>out'. get_output (r_id run) db' = Some out' \<and> o_terminal_event out' = Some (expected_event (r_status run))"
  proof (cases "o_terminal_event out = Some (expected_event (r_status run))")
    case True
    then have "db' = db" using assms by (simp add: repair_terminal_def)
    then show ?thesis using True assms(4) by simp
  next
    case False
    then obtain data where "emit env None now (r_id run) (expected_event (r_status run)) data default_max_frames db = Inr db'"
      using assms by (auto simp: repair_terminal_def res_bind_ok)
    then show ?thesis using emit_ok(5) expected_event_control by blast
  qed
  moreover have "get_run (r_id run) db' = Some run"
    using repair_terminal_ok(1) [OF assms(1)] assms(2) by (simp add: get_run_def)
  ultimately have "repair_terminal env None now' run db' = Inr (False, db')"
    using assms(3) by (auto simp: repair_terminal_def)
  then show ?thesis using out' repair_terminal_ok [OF assms(1)] by blast
qed

section \<open>Fencing\<close>

lemma own_ok_iff:
  assumes "unique_on j_id (durable_run_jobs db)"
  shows "own (i, tok) now db = Inr () \<longleftrightarrow> (\<exists>j \<in> set (durable_run_jobs db). j_id j = i \<and> job_held tok now j)"
  using rowcount_one_iff [OF assms, of "\<lambda>j. j_id j = i \<and> job_held tok now j" i]
  by (auto simp: own_def)

lemma own_stopped:
  assumes "\<And>j. j \<in> set (durable_run_jobs db) \<Longrightarrow> j_id j = i \<Longrightarrow> j_status j \<noteq> ''running''"
  shows "own (i, tok) now db = Inl ExecutionStopped"
proof -
  have "rowcount (\<lambda>j. j_id j = i \<and> job_held tok now j) (durable_run_jobs db) = 0"
    using rowcount_pos [of "\<lambda>j. j_id j = i \<and> job_held tok now j" "durable_run_jobs db"] assms
    by (auto simp: job_held_def)
  then show ?thesis by (simp add: own_def)
qed

text \<open>The jobs of the two tables agree except that some are done now.\<close>

definition done_only :: "runtime_db \<Rightarrow> runtime_db \<Rightarrow> bool" where
  "done_only db db' \<longleftrightarrow> map j_id (durable_run_jobs db') = map j_id (durable_run_jobs db)
     \<and> (\<forall>j' \<in> set (durable_run_jobs db'). j_status j' = ''done'' \<or> j' \<in> set (durable_run_jobs db))"

lemma done_only_refl [simp]: "done_only db db"
  by (simp add: done_only_def)

lemma done_only_trans: "done_only a b \<Longrightarrow> done_only b c \<Longrightarrow> done_only a c"
  by (auto simp: done_only_def)

lemma done_only_same: "durable_run_jobs db' = durable_run_jobs db \<Longrightarrow> done_only db db'"
  by (simp add: done_only_def)

lemma done_only_update:
  assumes "durable_run_jobs db' = update_where p f (durable_run_jobs db)"
    and "\<And>j. p j \<Longrightarrow> j_id (f j) = j_id j \<and> j_status (f j) = ''done''"
  shows "done_only db db'"
  using assms by (auto simp: done_only_def map_update_where set_update_where)

lemma save_run_frame [simp]:
  "durable_run_jobs (save_run r db) = durable_run_jobs db" "get_output i (save_run r db) = get_output i db"
  "agent_events (save_run r db) = agent_events db"
  by (simp_all add: save_run_def get_output_def)

lemma save_job_frame [simp]:
  "agent_runs (save_job j db) = agent_runs db" "get_output i (save_job j db) = get_output i db"
  by (simp_all add: save_job_def get_output_def)

lemma append_run_event_frame [simp]:
  "durable_run_jobs (append_run_event i now r t p db) = durable_run_jobs db"
  "agent_runs (append_run_event i now r t p db) = agent_runs db"
  "get_output x (append_run_event i now r t p db) = get_output x db"
  by (simp_all add: append_run_event_def Let_def get_output_def)

lemma settle_run_jobs:
  "settle_run env now run code detail db = Inr (s, db') \<Longrightarrow> durable_run_jobs db' = durable_run_jobs db"
  by (auto simp: settle_run_def res_bind_ok split: if_splits dest!: emit_ok(3) repair_terminal_ok(3))

lemma fail_job_jobs:
  assumes "fail_job env nid now job code detail db = Inr db'"
  shows "\<exists>job'. j_id job' = j_id job \<and> j_status job' = ''done''
    \<and> durable_run_jobs db' = update_where (\<lambda>j. j_id j = j_id job) (\<lambda>_. job') (durable_run_jobs db)"
proof (cases "get_run (j_run_id job) db")
  case None
  then show ?thesis
    using assms by (intro exI [of _ "job\<lparr>j_status := ''done''\<rparr>"]) (auto simp: fail_job_def save_job_def)
next
  case (Some run)
  then obtain s db1 where s: "settle_run env now run code detail db = Inr (s, db1)"
    using assms by (auto simp: fail_job_def res_bind_ok)
  show ?thesis
    using assms Some s settle_run_jobs [OF s]
    by (intro exI [of _ "job\<lparr>j_status := ''done'', j_lease_token := None, j_lease_expires_at := None\<rparr>"])
      (auto simp: fail_job_def Let_def save_job_def)
qed

lemma fail_job_done_only:
  assumes "fail_job env nid now job code detail db = Inr db'"
  shows "done_only db db'"
proof -
  obtain job' where job': "j_id job' = j_id job" "j_status job' = ''done''"
    and jobs: "durable_run_jobs db' = update_where (\<lambda>j. j_id j = j_id job) (\<lambda>_. job') (durable_run_jobs db)"
    using fail_job_jobs [OF assms] by blast
  show ?thesis by (rule done_only_update [OF jobs]) (use job' in auto)
qed

lemma reap_jobs_done_only:
  "reap_jobs env fresh now t is db = Inr db' \<Longrightarrow> done_only db db'"
proof (induction env fresh now t "is" db rule: reap_jobs.induct)
  case 1
  then show ?case by simp
next
  case (2 env fresh now t i "is" db)
  let ?p = "\<lambda>j. j_id j = i \<and> job_lost now t j"
  let ?db1 = "db\<lparr>durable_run_jobs := update_where ?p (\<lambda>j. j\<lparr>j_status := ''done''\<rparr>) (durable_run_jobs db)\<rparr>"
  show ?case
  proof (cases "rowcount ?p (durable_run_jobs db) = 1")
    case False
    then show ?thesis using 2 by (simp add: Let_def)
  next
    case True
    then obtain job db2 where job: "get_row j_id i (durable_run_jobs ?db1) = Some job"
      and f: "fail_job env (fresh i) now job ''worker_lost'' worker_lost_detail ?db1 = Inr db2"
      and rest: "reap_jobs env fresh now t is db2 = Inr db'"
      using 2(3) by (auto simp: Let_def res_bind_ok split: option.splits)
    have "done_only db ?db1" by (rule done_only_update [of _ ?p]) auto
    then have "done_only db db2" using fail_job_done_only [OF f] by (rule done_only_trans)
    moreover have "done_only db2 db'" using 2(2) [OF refl _ refl job rest] True by simp
    ultimately show ?thesis by (rule done_only_trans)
  qed
qed

lemma reap_waiting_jobs: "reap_waiting env now is db = Inr db' \<Longrightarrow> durable_run_jobs db' = durable_run_jobs db"
proof (induction env now "is" db rule: reap_waiting.induct)
  case 1
  then show ?case by simp
next
  case (2 env now i "is" db)
  let ?p = "\<lambda>r. r_id r = i \<and> interaction_expired now r"
  let ?db1 = "db\<lparr>agent_runs := update_where ?p clear_interaction (agent_runs db)\<rparr>"
  show ?case
  proof (cases "rowcount ?p (agent_runs db) = 1")
    case False
    then show ?thesis using 2 by (simp add: Let_def)
  next
    case True
    then obtain run b db2 where run: "get_run i ?db1 = Some run"
      and rep: "repair_terminal env None now run ?db1 = Inr (b, db2)" and rest: "reap_waiting env now is db2 = Inr db'"
      using 2(3) by (auto simp: Let_def res_bind_ok split: option.splits)
    have "durable_run_jobs db' = durable_run_jobs db2"
      using 2(2) [of ?p ?db1 run "(b, db2)"] True run rest by simp
    then show ?thesis using repair_terminal_ok(3) [OF rep] by simp
  qed
qed

lemma reap_jobs_settles:
  assumes "reap_jobs env fresh now t is db = Inr db'" and "unique_on j_id (durable_run_jobs db)"
    and "j \<in> set (durable_run_jobs db)" and "job_lost now t j" and "j_id j \<in> set is"
    and "j' \<in> set (durable_run_jobs db')" and "j_id j' = j_id j"
  shows "j_status j' = ''done''"
  using assms
proof (induction env fresh now t "is" db rule: reap_jobs.induct)
  case 1
  then show ?case by simp
next
  case (2 env fresh now t i "is" db)
  let ?p = "\<lambda>j. j_id j = i \<and> job_lost now t j"
  let ?db1 = "db\<lparr>durable_run_jobs := update_where ?p (\<lambda>j. j\<lparr>j_status := ''done''\<rparr>) (durable_run_jobs db)\<rparr>"
  show ?case
  proof (cases "rowcount ?p (durable_run_jobs db) = 1")
    case False
    then have "j_id j \<noteq> i"
      using rowcount_one_iff [of j_id "durable_run_jobs db" ?p i] 2(4-6) by auto
    then show ?thesis using 2 False by (simp add: Let_def)
  next
    case True
    then obtain job db2 where job: "get_row j_id i (durable_run_jobs ?db1) = Some job"
      and f: "fail_job env (fresh i) now job ''worker_lost'' worker_lost_detail ?db1 = Inr db2"
      and rest: "reap_jobs env fresh now t is db2 = Inr db'"
      using 2(3) by (auto simp: Let_def res_bind_ok split: option.splits)
    obtain job' where job': "j_id job' = j_id job" "j_status job' = ''done''"
      and jobs2: "durable_run_jobs db2 = update_where (\<lambda>j. j_id j = j_id job) (\<lambda>_. job') (durable_run_jobs ?db1)"
      using fail_job_jobs [OF f] by blast
    have "j_id job = i" using get_row_SomeD [OF job] by simp
    have uniq2: "unique_on j_id (durable_run_jobs db2)"
      using 2(4) job'(1) by (simp add: jobs2 unique_on_update_where)
    have done_later: "done_only db2 db'" using reap_jobs_done_only [OF rest] .
    show ?thesis
    proof (cases "j_id j = i")
      case True
      have "j_status x = ''done''" if "x \<in> set (durable_run_jobs db2)" "j_id x = i" for x
        using that job' \<open>j_id job = i\<close> by (auto simp: jobs2 set_update_where split: if_splits)
      then show ?thesis using done_later 2(8,9) True by (auto simp: done_only_def)
    next
      case False
      then have "j \<in> set (durable_run_jobs db2)"
        using 2(5) \<open>j_id job = i\<close> by (auto simp: jobs2 set_update_where image_iff)
      then show ?thesis
        using 2(2) [OF refl _ refl job rest uniq2 _ 2(6) _ 2(8,9)] 2(7) False True by simp
    qed
  qed
qed

lemma reap_lost_jobs_ok:
  assumes "reap_lost_jobs env fresh now t db = (Inr (), db')"
  shows "\<exists>db1 waiting. reap_jobs env fresh now t (map j_id (scalars (job_lost now t) (durable_run_jobs db))) db = Inr db1
    \<and> reap_waiting env now waiting db1 = Inr db'"
  using assms by (auto simp: reap_lost_jobs_def Let_def res_bind_ok split: sum.splits)

text \<open>
  C31. A worker whose lease ran out is fenced off: once the reaper has run, every fenced flush or commit
  for a job it found lost raises \<open>ExecutionStopped\<close>, whatever token the worker presents and at whatever
  time, and no worker can open that job again.
\<close>

theorem reaped_worker_is_fenced:
  assumes "reap_lost_jobs env fresh now t db = (Inr (), db')" and "unique_on j_id (durable_run_jobs db)"
    and "j \<in> set (durable_run_jobs db)" and "job_lost now t j"
  shows "own (j_id j, tok) now' db' = Inl ExecutionStopped
    \<and> flush_terminal (j_id j, tok) now' run status db' = Inl ExecutionStopped
    \<and> emit env (Some (j_id j, tok)) now' run name data k db' = Inl ExecutionStopped
    \<and> begin_execution (j_id j) tok db' = (None, db')"
proof -
  obtain db1 waiting where reaped: "reap_jobs env fresh now t (map j_id (scalars (job_lost now t) (durable_run_jobs db))) db = Inr db1"
    and waited: "reap_waiting env now waiting db1 = Inr db'"
    using reap_lost_jobs_ok [OF assms(1)] by blast
  have "j_id j \<in> set (map j_id (scalars (job_lost now t) (durable_run_jobs db)))" using assms(3,4) by simp
  then have settled: "j_status x = ''done''" if "x \<in> set (durable_run_jobs db')" "j_id x = j_id j" for x
    using reap_jobs_settles [OF reaped assms(2-4)] that reap_waiting_jobs [OF waited] by simp
  then have own: "own (j_id j, tok) now' db' = Inl ExecutionStopped"
    by (intro own_stopped) auto
  have "begin_execution (j_id j) tok db' = (None, db')"
  proof (cases "get_row j_id (j_id j) (durable_run_jobs db')")
    case None
    then show ?thesis by (simp add: begin_execution_def)
  next
    case (Some x)
    then have "j_status x = ''done''" using get_row_SomeD [OF Some] settled by blast
    then show ?thesis using Some by (simp add: begin_execution_def)
  qed
  then show ?thesis using own by (simp add: flush_terminal_def emit_def)
qed

section \<open>The life of a run\<close>

text \<open>
  What a run promises to its readers, without jobs, leases and outputs: the statuses that may follow one
  another. A requested cancellation can only end in \<open>cancelled\<close> or \<open>failed\<close>; the three final statuses
  are never left.
\<close>

definition status_next :: "string \<Rightarrow> string list" where
  "status_next s =
     (if s = ''queued'' then [''running'', ''failed'', ''cancelled'']
      else if s = ''running'' then [''completed'', ''waiting_for_input'', ''failed'', ''cancelled'', ''cancelling'']
      else if s = ''cancelling'' then [''failed'', ''cancelled'']
      else if s = ''waiting_for_input'' then [''cancelled'']
      else [])"

inductive status_step :: "string option \<Rightarrow> string option \<Rightarrow> bool" where
  follow: "t \<in> set (status_next s) \<Longrightarrow> status_step (Some s) (Some t)"

inductive_simps status_step_Some: "status_step (Some s) x"

definition status_of :: "ident \<Rightarrow> runtime_db \<Rightarrow> string option" where
  "status_of i db = map_option r_status (get_run i db)"

text \<open>One operation of the queue, a worker, the reaper or a cancelling request.\<close>

inductive run_step :: "runtime_env \<Rightarrow> runtime_db \<Rightarrow> runtime_db \<Rightarrow> bool" for env where
  step_enqueue: "enqueue_job (rv_durable env) nid now i u k c req db = Inr (job, db') \<Longrightarrow> run_step env db db'"
| step_claim: "claim_job now lease toks db = (r, db') \<Longrightarrow> run_step env db db'"
| step_renew: "renew_lease now i tok lease db = (r, db') \<Longrightarrow> run_step env db db'"
| step_heartbeat: "run_step env db (record_worker_heartbeat now w db)"
| step_begin: "begin_execution i tok db = (r, db') \<Longrightarrow> run_step env db db'"
| step_emit: "emit env guard now i name data k db = Inr db' \<Longrightarrow> run_step env db db'"
| step_flush: "status \<in> set TERMINAL \<Longrightarrow> flush_terminal f now i status db = Inr db' \<Longrightarrow> run_step env db db'"
| step_repair: "repair_terminal env guard now loaded db = Inr (b, db') \<Longrightarrow> run_step env db db'"
| step_finish: "finish_execution env nid now i tok failure db = (r, db') \<Longrightarrow> run_step env db db'"
| step_reap: "reap_lost_jobs env fresh now t db = (r, db') \<Longrightarrow> run_step env db db'"
| step_cancel: "cancel_durable env nid now i db = (r, db') \<Longrightarrow> run_step env db db'"
| step_delete: "run_step env db (delete_output_rows ids db)"

definition follows :: "runtime_db \<Rightarrow> runtime_db \<Rightarrow> bool" where
  "follows db db' \<longleftrightarrow> (\<forall>i. status_step\<^sup>*\<^sup>* (status_of i db) (status_of i db'))"

lemma follows_same: "agent_runs db' = agent_runs db \<Longrightarrow> follows db db'"
  by (simp add: follows_def status_of_def get_run_def)

lemma follows_refl [simp]: "follows db db"
  by (simp add: follows_same)

lemma follows_trans: "follows a b \<Longrightarrow> follows b c \<Longrightarrow> follows a c"
  unfolding follows_def by (meson rtranclp_trans)

lemma follows_update:
  assumes "agent_runs db' = update_where p f (agent_runs db)"
    and "\<And>r. p r \<Longrightarrow> r_id (f r) = r_id r"
    and "\<And>r i. get_run i db = Some r \<Longrightarrow> p r \<Longrightarrow> r_status (f r) \<in> set (status_next (r_status r))"
  shows "follows db db'"
  unfolding follows_def
proof
  fix i
  have run: "get_run i db' = map_option (\<lambda>r. if p r then f r else r) (get_run i db)"
    using get_row_update_where [of p r_id f i "agent_runs db"] assms(1,2) by (simp add: get_run_def)
  show "status_step\<^sup>*\<^sup>* (status_of i db) (status_of i db')"
  proof (cases "get_run i db")
    case None
    then show ?thesis using run by (simp add: status_of_def)
  next
    case (Some r)
    then have "p r \<Longrightarrow> status_step (Some (r_status r)) (Some (r_status (f r)))"
      using assms(3) [OF Some] by (simp add: status_step_Some)
    then show ?thesis using run Some by (auto simp: status_of_def)
  qed
qed

lemma follows_save_run:
  assumes "get_run i db = Some run" and "r_id run' = r_id run" and "r_status run' \<in> set (status_next (r_status run))"
  shows "follows db (save_run run' db)"
proof (rule follows_update [of _ "\<lambda>r. r_id r = r_id run'" "\<lambda>_. run'"])
  show "r_status run' \<in> set (status_next (r_status r))" if "get_run k db = Some r" "r_id r = r_id run'" for r k
    using that assms get_row_SomeD [of r_id] unfolding get_run_def by (metis option.inject)
qed (simp_all add: save_run_def)

lemma follows_update_all:
  assumes "\<And>r. p r \<Longrightarrow> r_id (f r) = r_id r" and "\<And>r. p r \<Longrightarrow> r_status (f r) \<in> set (status_next (r_status r))"
  shows "follows db (db\<lparr>agent_runs := update_where p f (agent_runs db)\<rparr>)"
  by (rule follows_update [of _ p f]) (use assms in auto)

lemma settle_run_follows:
  assumes "settle_run env now run code detail db = Inr (s, db')" and "get_run i db = Some run"
  shows "follows db db'"
proof (cases "r_status run \<in> {''queued'', ''running'', ''cancelling''}")
  case False
  then show ?thesis
    using assms by (auto simp: settle_run_def res_bind_ok intro: follows_same dest: repair_terminal_ok(1))
next
  case True
  let ?s = "if r_status run = ''cancelling'' then ''cancelled'' else ''failed''"
  have "follows db (save_run (run\<lparr>r_status := ?s\<rparr>) db)"
    using True by (intro follows_save_run [OF assms(2)]) (auto simp: status_next_def)
  moreover have "agent_runs db' = agent_runs (save_run (run\<lparr>r_status := ?s\<rparr>) db)"
    using assms True by (auto simp: settle_run_def res_bind_ok dest!: emit_ok(1) split: if_splits)
  ultimately show ?thesis using follows_trans follows_same by blast
qed

lemma fail_job_follows:
  assumes "fail_job env nid now job code detail db = Inr db'"
  shows "follows db db'"
proof (cases "get_run (j_run_id job) db")
  case None
  then show ?thesis using assms by (auto simp: fail_job_def intro: follows_same)
next
  case (Some run)
  then obtain s db1 where s: "settle_run env now run code detail db = Inr (s, db1)"
    using assms by (auto simp: fail_job_def res_bind_ok)
  have "agent_runs db' = agent_runs db1" using assms Some s by (auto simp: fail_job_def Let_def)
  then show ?thesis using settle_run_follows [OF s Some] follows_same follows_trans by blast
qed

lemma reap_jobs_follows: "reap_jobs env fresh now t is db = Inr db' \<Longrightarrow> follows db db'"
proof (induction env fresh now t "is" db rule: reap_jobs.induct)
  case 1
  then show ?case by simp
next
  case (2 env fresh now t i "is" db)
  let ?p = "\<lambda>j. j_id j = i \<and> job_lost now t j"
  let ?db1 = "db\<lparr>durable_run_jobs := update_where ?p (\<lambda>j. j\<lparr>j_status := ''done''\<rparr>) (durable_run_jobs db)\<rparr>"
  show ?case
  proof (cases "rowcount ?p (durable_run_jobs db) = 1")
    case False
    then show ?thesis using 2 by (simp add: Let_def)
  next
    case True
    then obtain job db2 where job: "get_row j_id i (durable_run_jobs ?db1) = Some job"
      and f: "fail_job env (fresh i) now job ''worker_lost'' worker_lost_detail ?db1 = Inr db2"
      and rest: "reap_jobs env fresh now t is db2 = Inr db'"
      using 2(3) by (auto simp: Let_def res_bind_ok split: option.splits)
    have "follows db ?db1" by (simp add: follows_same)
    then have "follows db db2" using fail_job_follows [OF f] by (rule follows_trans)
    moreover have "follows db2 db'" using 2(2) [OF refl _ refl job rest] True by simp
    ultimately show ?thesis by (rule follows_trans)
  qed
qed

lemma follows_clear_expired:
  "follows db (db\<lparr>agent_runs := update_where (\<lambda>r. r_id r = i \<and> interaction_expired now r) clear_interaction (agent_runs db)\<rparr>)"
  by (rule follows_update_all) (auto simp: clear_interaction_def interaction_expired_def status_next_def)

lemma reap_waiting_follows: "reap_waiting env now is db = Inr db' \<Longrightarrow> follows db db'"
proof (induction env now "is" db rule: reap_waiting.induct)
  case 1
  then show ?case by simp
next
  case (2 env now i "is" db)
  let ?p = "\<lambda>r. r_id r = i \<and> interaction_expired now r"
  let ?db1 = "db\<lparr>agent_runs := update_where ?p clear_interaction (agent_runs db)\<rparr>"
  show ?case
  proof (cases "rowcount ?p (agent_runs db) = 1")
    case False
    then show ?thesis using 2 by (simp add: Let_def)
  next
    case True
    then obtain run b db2 where run: "get_run i ?db1 = Some run"
      and rep: "repair_terminal env None now run ?db1 = Inr (b, db2)" and rest: "reap_waiting env now is db2 = Inr db'"
      using 2(3) by (auto simp: Let_def res_bind_ok split: option.splits)
    have "follows db2 db'" using 2(2) [of ?p ?db1 run "(b, db2)"] True run rest by simp
    moreover have "follows ?db1 db2" by (rule follows_same [OF repair_terminal_ok(1) [OF rep]])
    ultimately show ?thesis using follows_clear_expired follows_trans by blast
  qed
qed

lemma reap_lost_jobs_follows:
  assumes "reap_lost_jobs env fresh now t db = (r, db')"
  shows "follows db db'"
proof (cases r)
  case (Inl e)
  then have "db' = db" using assms by (auto simp: reap_lost_jobs_def Let_def split: sum.splits)
  then show ?thesis by simp
next
  case (Inr u)
  then show ?thesis
    using reap_lost_jobs_ok [of env fresh now t db db'] assms
    by (auto dest!: reap_jobs_follows reap_waiting_follows intro: follows_trans)
qed

lemma cancel_durable_follows:
  assumes "cancel_durable env nid now i db = (r, db')"
  shows "follows db db'"
proof -
  consider "db' = db"
    | run where "get_run i db = Some run" "r_status run \<in> {''queued'', ''waiting_for_input''}"
        "agent_runs db' = agent_runs (save_run (clear_interaction run) db)"
    | run where "get_run i db = Some run" "r_status run = ''running''"
        "agent_runs db' = agent_runs (save_run (run\<lparr>r_status := ''cancelling''\<rparr>) db)"
    using assms
    by (auto simp: cancel_durable_def Let_def dest!: emit_ok(1) split: option.splits if_splits sum.splits)
  then show ?thesis
  proof cases
    case 1
    then show ?thesis by simp
  next
    case 2
    then have "follows db (save_run (clear_interaction run) db)"
      by (intro follows_save_run [OF 2(1)]) (auto simp: clear_interaction_def status_next_def)
    then show ?thesis using 2(3) follows_same follows_trans by blast
  next
    case 3
    then have "follows db (save_run (run\<lparr>r_status := ''cancelling''\<rparr>) db)"
      by (intro follows_save_run [OF 3(1)]) (auto simp: status_next_def)
    then show ?thesis using 3(3) follows_same follows_trans by blast
  qed
qed

lemma begin_execution_follows:
  assumes "begin_execution i tok db = (r, db')"
  shows "follows db db'"
proof -
  have "follows db (db\<lparr>agent_runs := update_where (\<lambda>r. r_id r = k \<and> r_status r = ''queued'')
      (\<lambda>r. r\<lparr>r_status := ''running''\<rparr>) (agent_runs db)\<rparr>)" for k
    by (rule follows_update_all) (auto simp: status_next_def)
  then show ?thesis using assms by (auto simp: begin_execution_def Let_def split: option.splits if_splits)
qed

lemma terminal_allowed_next:
  "\<forall>status \<in> set TERMINAL. \<forall>s \<in> set (terminal_allowed status). status \<in> set (status_next s)"
  by code_simp

lemma flush_terminal_follows:
  assumes "flush_terminal f now i status db = Inr db'" and "status \<in> set TERMINAL"
  shows "follows db db'"
proof -
  let ?p = "\<lambda>r. r_id r = i \<and> r_status r \<in> set (terminal_allowed status)"
  have "db' = db\<lparr>agent_runs := update_where ?p (\<lambda>r. r\<lparr>r_status := status\<rparr>) (agent_runs db)\<rparr>"
    using assms(1) by (auto simp: flush_terminal_def res_bind_ok Let_def split: if_splits)
  moreover have "follows db (db\<lparr>agent_runs := update_where ?p (\<lambda>r. r\<lparr>r_status := status\<rparr>) (agent_runs db)\<rparr>)"
    by (rule follows_update_all) (use assms(2) terminal_allowed_next in auto)
  ultimately show ?thesis by simp
qed

lemma finish_execution_follows:
  assumes "finish_execution env nid now i tok failure db = (r, db')"
  shows "follows db db'"
proof -
  have "follows db (save_job job db1)" if "repair_terminal env None now run db = Inr (b, db1)" for job run b db1
    using repair_terminal_ok(1) [OF that] by (simp add: follows_same)
  then show ?thesis
    using assms fail_job_follows
    by (auto simp: finish_execution_def split: option.splits if_splits sum.splits)
qed

lemma run_step_follows: "run_step env db db' \<Longrightarrow> follows db db'"
proof (induction rule: run_step.induct)
  case (step_enqueue nid now i u k c req db job db')
  then have "agent_runs db' = agent_runs (snd (ensure_output i db))"
    by (auto simp: enqueue_job_def Let_def split: if_splits)
  then show ?case using ensure_output_ok(3) [of i db] by (metis follows_same prod.collapse)
next
  case (step_claim now lease toks db r db')
  then show ?case by (auto simp: claim_job_def Let_def intro!: follows_same split: if_splits prod.splits)
next
  case (step_renew now i tok lease db r db')
  then show ?case by (auto simp: renew_lease_def Let_def intro!: follows_same split: if_splits)
next
  case (step_heartbeat db now w)
  then show ?case by (simp add: record_worker_heartbeat_def Let_def follows_same)
next
  case (step_delete db ids)
  then show ?case by (simp add: delete_output_rows_def follows_same)
qed (auto intro: begin_execution_follows follows_same emit_ok(1) flush_terminal_follows repair_terminal_ok(1)
    finish_execution_follows reap_lost_jobs_follows cancel_durable_follows)

interpretation run_machine: simulation "run_step env" status_step "status_of i" for env i
  by unfold_locales (use run_step_follows follows_def in blast)


text \<open>
  C33. Cancellation wins and final statuses are final: once a run is being cancelled no interleaving of
  workers can complete it or make it wait for input, and a completed, failed or cancelled run keeps its
  status for ever.
\<close>

theorem cancellation_and_finality:
  assumes "(run_step env)\<^sup>*\<^sup>* db db'" and "status_of i db = Some s"
    and "s \<in> {''cancelling'', ''completed'', ''failed'', ''cancelled''}"
  shows "(s = ''cancelling'' \<longrightarrow> status_of i db' \<in> {Some ''cancelling'', Some ''cancelled'', Some ''failed''})
    \<and> (s \<noteq> ''cancelling'' \<longrightarrow> status_of i db' = Some s)"
proof (cases "s = ''cancelling''")
  case True
  have "status_of i db' \<in> {Some ''cancelling'', Some ''cancelled'', Some ''failed''}"
    by (rule run_machine.abs_closed [OF assms(1)]) (auto simp: assms(2) True status_step_Some status_next_def)
  then show ?thesis using True by simp
next
  case False
  have "status_of i db' \<in> {Some s}"
    by (rule run_machine.abs_closed [OF assms(1)])
      (use assms(2,3) False in \<open>auto simp: status_step_Some status_next_def\<close>)
  then show ?thesis using False by simp
qed

section \<open>A run from the queue to its end\<close>

definition sample_runtime_env :: runtime_env where
  "sample_runtime_env = \<lparr>rv_durable = sample_durable_env, rv_interrupted_response = (\<lambda>_. Inr []),
     rv_run_detail = (\<lambda>_ _. Inr [])\<rparr>"

definition sample_run :: AgentRunModel where
  "sample_run = \<lparr>r_id = ''r1'', r_conversation_id = ''c1'', r_user_id = ''u1'', r_status = ''queued'',
     r_reasoning_mode = ''auto'', r_reasoning_effort = ''low'', r_client_request_id = None, r_interaction_id = None,
     r_interaction_type = None, r_interaction_payload_json = None, r_interaction_expires_at = None\<rparr>"

definition sample_admitted :: runtime_db where
  "sample_admitted =
     (let db = \<lparr>durable_run_jobs = [], durable_run_outputs = [], durable_run_frames = [], durable_worker_heartbeats = [],
                agent_runs = [sample_run], agent_events = []\<rparr>
      in ok_db (enqueue_job sample_durable_env ''j1'' 1 ''r1'' ''u1'' ''run'' ''c1'' [] db) db)"

definition sample_claimed :: runtime_db where
  "sample_claimed = snd (claim_job 5 60 [''t1''] sample_admitted)"

definition sample_begun :: runtime_db where
  "sample_begun = snd (begin_execution ''j1'' ''t1'' sample_claimed)"

definition ok_or :: "('e, 's) res \<Rightarrow> 's \<Rightarrow> 's" where
  "ok_or r s = (case r of Inl _ \<Rightarrow> s | Inr s' \<Rightarrow> s')"

definition sample_unreported :: runtime_db where
  "sample_unreported = ok_or (flush_terminal (''j1'', ''t1'') 6 ''r1'' ''completed'' sample_begun) sample_begun"

definition sample_cancelling :: runtime_db where
  "sample_cancelling = snd (cancel_durable sample_runtime_env ''e1'' 6 ''r1'' sample_begun)"

definition sample_reaped :: runtime_db where
  "sample_reaped = snd (reap_lost_jobs sample_runtime_env (\<lambda>i. i @ ''-e'') 100 1000 sample_cancelling)"

theorem repair_terminal_converges_witness:
  "\<exists>db' out'. repair_terminal sample_runtime_env None 7 (sample_run\<lparr>r_status := ''completed''\<rparr>) sample_unreported = Inr (True, db')
    \<and> get_output ''r1'' db' = Some out' \<and> o_terminal_event out' = Some ''run_completed''"
proof -
  let ?run = "sample_run\<lparr>r_status := ''completed''\<rparr>"
  let ?r = "repair_terminal sample_runtime_env None 7 ?run sample_unreported"
  have "is_ok ?r" "fst (projr ?r)" by code_simp+
  then obtain db' where r: "?r = Inr (True, db')" by (auto elim!: is_okE)
  have run: "get_run (r_id ?run) sample_unreported = Some ?run" "r_status ?run \<in> set TERMINAL"
    "get_output (r_id ?run) sample_unreported = Some (hd (durable_run_outputs sample_unreported))"
    by code_simp+
  from repair_terminal_converges [OF r run, of 8] r show ?thesis
    by (auto simp: sample_run_def expected_event_def)
qed

theorem reaped_worker_is_fenced_witness:
  "own (''j1'', ''t1'') 7 sample_reaped = Inl ExecutionStopped"
proof -
  let ?j = "hd (durable_run_jobs sample_cancelling)"
  have "reap_lost_jobs sample_runtime_env (\<lambda>i. i @ ''-e'') 100 1000 sample_cancelling = (Inr (), sample_reaped)"
    unfolding sample_reaped_def by (rule prod_eqI) (code_simp, simp)
  moreover have "unique_on j_id (durable_run_jobs sample_cancelling)" "?j \<in> set (durable_run_jobs sample_cancelling)"
    "job_lost 100 1000 ?j" "j_id ?j = ''j1''" by code_simp+
  ultimately show ?thesis
    using reaped_worker_is_fenced [of sample_runtime_env "\<lambda>i. i @ ''-e''" 100 1000 sample_cancelling sample_reaped ?j "''t1''" 7]
    by metis
qed


theorem cancellation_and_finality_witness:
  "status_of ''r1'' sample_cancelling = Some ''cancelling''
    \<and> status_of ''r1'' sample_reaped \<in> {Some ''cancelling'', Some ''cancelled'', Some ''failed''}"
proof -
  have "run_step sample_runtime_env sample_cancelling sample_reaped"
    by (rule step_reap [OF prod.collapse [symmetric, of "reap_lost_jobs sample_runtime_env (\<lambda>i. i @ ''-e'') 100 1000 sample_cancelling",
          folded sample_reaped_def]])
  moreover have "status_of ''r1'' sample_cancelling = Some ''cancelling''" by code_simp
  ultimately show ?thesis
    using cancellation_and_finality [OF r_into_rtranclp, of sample_runtime_env sample_cancelling sample_reaped "''r1''" "''cancelling''"]
    by simp
qed

end
