(* ===== verification/Storage_Lifecycle.thy ===== *)
theory Storage_Lifecycle
  imports Knowledge_Models
begin

text \<open>
  Private file storage: capacity reservations, publication of originals and the retryable erasure of
  objects (\<open>storage/models.py\<close>, \<open>storage/lifecycle.py\<close>, and the staging reservation of
  \<open>api/document_files.py\<close>). The database holds the three tables; \<open>bucket_objects\<close> are the keys
  stored in the configured private bucket, which the provider's \<open>put\<close>, \<open>copy\<close> and \<open>delete\<close> change.
  Whether the provider fails is an argument of the call that uses it. A sweep works on a job it has
  claimed while other processes go on, so its three phases are separate operations here and
  \<open>cleanup_once\<close> is their composition.
\<close>

section \<open>Models\<close>

record StoredFileModel =
  sf_id :: ident
  sf_owner_user_id :: ident
  sf_bucket :: string
  sf_object_key :: string
  sf_byte_size :: int
  sf_sha256 :: string
  sf_content_type :: string
  sf_filename :: string
  sf_status :: string
  sf_reserved_until :: "time option"
  sf_created_at :: time

record StorageQuotaModel =
  q_id :: int
  q_used_bytes :: int

record StorageCleanupModel =
  c_id :: ident
  c_bucket :: string
  c_object_key :: string
  c_stored_file_id :: "ident option"
  c_not_before :: time
  c_lease_until :: "time option"
  c_lease_token :: "string option"
  c_attempts :: int
  c_error_code :: "string option"
  c_created_at :: time

record storage_db =
  stored_files :: "StoredFileModel list"
  storage_quota :: "StorageQuotaModel list"
  storage_cleanup :: "StorageCleanupModel list"
  bucket_objects :: "string list"

record storage_env =
  se_storage_provider :: string
  se_r2_bucket_name :: "string option"
  se_storage_max_bytes :: int

datatype storage_error =
    StorageUnavailable
  | Storage_ValueError
  | StorageQuotaExceeded
  | Storage_IntegrityError
  | Storage_InvalidRequest
  | Storage_RuntimeError

definition minutes :: "int \<Rightarrow> time" where
  "minutes n = seconds (60 * n)"

definition WRITE_SETTLE_GRACE :: time where
  "WRITE_SETTLE_GRACE = minutes 5"

definition file_place :: "StoredFileModel \<Rightarrow> string \<times> string" where
  "file_place f = (sf_bucket f, sf_object_key f)"

definition job_place :: "StorageCleanupModel \<Rightarrow> string \<times> string" where
  "job_place c = (c_bucket c, c_object_key c)"

definition file_keys :: "StoredFileModel list \<Rightarrow> bool" where
  "file_keys fs \<longleftrightarrow> unique_on sf_id fs \<and> unique_on file_place fs \<and> (\<forall>f \<in> set fs. 0 \<le> sf_byte_size f)"

definition get_file :: "ident \<Rightarrow> 'a storage_db_scheme \<Rightarrow> StoredFileModel option" where
  "get_file i db = get_row sf_id i (stored_files db)"

section \<open>Reservations\<close>

definition reserve_file ::
  "storage_env \<Rightarrow> ident \<Rightarrow> time \<Rightarrow> ident \<Rightarrow> int \<Rightarrow> string \<Rightarrow> string \<Rightarrow> string \<Rightarrow> 'a storage_db_scheme
    \<Rightarrow> (storage_error, StoredFileModel \<times> 'a storage_db_scheme) res" where
  "reserve_file env file_id now owner_user_id byte_size sha256 filename content_type db =
     (case se_r2_bucket_name env of
        None \<Rightarrow> Inl StorageUnavailable
      | Some bucket \<Rightarrow>
          if se_storage_provider env \<noteq> ''r2'' \<or> bucket = '''' then Inl StorageUnavailable
          else if byte_size < 0 then Inl Storage_ValueError
          else
            let quota = (if get_row q_id 1 (storage_quota db) = None
                         then insert_row \<lparr>q_id = 1, q_used_bytes = 0\<rparr> (storage_quota db) else storage_quota db);
                p = (\<lambda>q. q_id q = 1 \<and> q_used_bytes q + byte_size \<le> se_storage_max_bytes env)
            in if rowcount p quota \<noteq> 1 then Inl StorageQuotaExceeded
               else
                 let result = \<lparr>sf_id = file_id, sf_owner_user_id = owner_user_id, sf_bucket = bucket,
                               sf_object_key = ''originals/'' @ file_id, sf_byte_size = byte_size, sf_sha256 = sha256,
                               sf_content_type = content_type, sf_filename = filename, sf_status = ''reserved'',
                               sf_reserved_until = Some (now + hours 1), sf_created_at = now\<rparr>;
                     files = insert_row result (stored_files db)
                 in if \<not> file_keys files then Inl Storage_IntegrityError
                    else Inr (result, db\<lparr>storage_quota := update_where p (\<lambda>q. q\<lparr>q_used_bytes := q_used_bytes q + byte_size\<rparr>) quota,
                                         stored_files := files\<rparr>))"

definition mark_file_ready :: "ident \<Rightarrow> 'a storage_db_scheme \<Rightarrow> (storage_error, 'a storage_db_scheme) res" where
  "mark_file_ready file_id db =
     (let p = (\<lambda>f. sf_id f = file_id \<and> sf_status f = ''reserved'');
          db' = db\<lparr>stored_files := update_where p (\<lambda>f. f\<lparr>sf_status := ''ready'', sf_reserved_until := None\<rparr>) (stored_files db)\<rparr>
      in case get_file file_id db' of
           None \<Rightarrow> Inl Storage_InvalidRequest
         | Some f \<Rightarrow> if rowcount p (stored_files db) \<noteq> 1 \<and> sf_status f \<noteq> ''ready'' then Inl StorageUnavailable
                     else Inr db')"

definition lock_reserved_file :: "time \<Rightarrow> ident \<Rightarrow> 'a storage_db_scheme \<Rightarrow> (storage_error, unit) res" where
  "lock_reserved_file now file_id db =
     (if rowcount (\<lambda>f. sf_id f = file_id \<and> sf_status f = ''reserved''
                       \<and> (case sf_reserved_until f of None \<Rightarrow> False | Some til \<Rightarrow> til > now)) (stored_files db) \<noteq> 1
      then Inl StorageUnavailable else Inr ())"

section \<open>Scheduling erasure\<close>

definition enqueue_object_cleanup ::
  "ident \<Rightarrow> time \<Rightarrow> string \<Rightarrow> string \<Rightarrow> time option \<Rightarrow> ident option \<Rightarrow> 'a storage_db_scheme
    \<Rightarrow> (storage_error, 'a storage_db_scheme) res" where
  "enqueue_object_cleanup new_id now bucket object_key not_before stored_file_id db =
     (let available_at = (case not_before of None \<Rightarrow> now | Some t \<Rightarrow> t);
          row = \<lparr>c_id = new_id, c_bucket = bucket, c_object_key = object_key, c_stored_file_id = stored_file_id,
                 c_not_before = available_at, c_lease_until = None, c_lease_token = None, c_attempts = 0,
                 c_error_code = None, c_created_at = now\<rparr>;
          conflict = (bucket, object_key) \<in> job_place ` set (storage_cleanup db);
          rows = (if conflict then storage_cleanup db else insert_row row (storage_cleanup db))
      in if \<not> unique_on c_id rows then Inl Storage_IntegrityError
         else Inr (db\<lparr>storage_cleanup :=
                update_where (\<lambda>c. c_bucket c = bucket \<and> c_object_key c = object_key \<and> c_not_before c < available_at)
                  (\<lambda>c. c\<lparr>c_not_before := available_at\<rparr>) rows\<rparr>))"

definition schedule_file_cleanup ::
  "ident \<Rightarrow> time \<Rightarrow> ident \<Rightarrow> time option \<Rightarrow> 'a storage_db_scheme \<Rightarrow> (storage_error, 'a storage_db_scheme) res" where
  "schedule_file_cleanup new_id now file_id not_before0 db =
     (case get_file file_id db of
        None \<Rightarrow> Inl Storage_InvalidRequest
      | Some f0 \<Rightarrow>
          let not_before = (if sf_status f0 = ''reserved''
                then Some (max (case not_before0 of None \<Rightarrow> now | Some t \<Rightarrow> t) (now + WRITE_SETTLE_GRACE))
                else not_before0);
              p = (\<lambda>f. sf_id f = file_id \<and> sf_status f \<in> {''reserved'', ''ready''});
              db1 = db\<lparr>stored_files := update_where p (\<lambda>f. f\<lparr>sf_status := ''delete_pending'', sf_reserved_until := None\<rparr>)
                        (stored_files db)\<rparr>
          in case get_file file_id db1 of
               None \<Rightarrow> Inl Storage_InvalidRequest
             | Some f \<Rightarrow>
                 if rowcount p (stored_files db) = 1 \<or> sf_status f = ''delete_pending''
                 then enqueue_object_cleanup new_id now (sf_bucket f) (sf_object_key f) not_before (Some (sf_id f)) db1
                 else Inr db1)"

definition schedule_document_file_cleanup ::
  "ident \<Rightarrow> time \<Rightarrow> ident \<Rightarrow> DocumentModel list \<Rightarrow> 'a storage_db_scheme \<Rightarrow> (storage_error, 'a storage_db_scheme) res" where
  "schedule_document_file_cleanup new_id now document_id documents db =
     (case get_row d_id document_id documents of
        None \<Rightarrow> Inr db
      | Some document \<Rightarrow>
          (case d_original_file_id document of
             None \<Rightarrow> Inr db
           | Some i \<Rightarrow> if i = '''' \<or> get_file i db = None then Inr db
                       else schedule_file_cleanup new_id now i None db))"

text \<open>One cleanup for each of the listed files; \<open>fresh\<close> draws the identifier of its row.\<close>

fun schedule_files :: "(ident \<Rightarrow> ident) \<Rightarrow> time \<Rightarrow> ident list \<Rightarrow> 'a storage_db_scheme \<Rightarrow> (storage_error, 'a storage_db_scheme) res" where
  "schedule_files fresh now [] db = Inr db"
| "schedule_files fresh now (i # is) db =
     res_bind (schedule_file_cleanup (fresh i) now i None db) (schedule_files fresh now is)"

definition schedule_user_file_cleanup ::
  "(ident \<Rightarrow> ident) \<Rightarrow> time \<Rightarrow> ident \<Rightarrow> 'a storage_db_scheme \<Rightarrow> (storage_error, 'a storage_db_scheme) res" where
  "schedule_user_file_cleanup fresh now user_id db =
     schedule_files fresh now
       (map sf_id (scalars (\<lambda>f. sf_owner_user_id f = user_id \<and> sf_status f \<in> {''reserved'', ''ready'', ''delete_pending''})
          (stored_files db))) db"

section \<open>Copies and uploads\<close>

definition reserve_file_copy ::
  "storage_env \<Rightarrow> ident \<Rightarrow> time \<Rightarrow> StoredFileModel \<Rightarrow> ident \<Rightarrow> 'a storage_db_scheme
    \<Rightarrow> (storage_error, StoredFileModel \<times> 'a storage_db_scheme) res" where
  "reserve_file_copy env new_id now source owner_user_id db =
     (if sf_status source \<noteq> ''ready'' \<or> Some (sf_bucket source) \<noteq> se_r2_bucket_name env then Inl StorageUnavailable
      else reserve_file env new_id now owner_user_id (sf_byte_size source) (sf_sha256 source) (sf_filename source)
             (sf_content_type source) db)"

text \<open>The provider copies an object that exists; anything else, or a failure, raises.\<close>

definition store_copy :: "bool \<Rightarrow> string \<Rightarrow> string \<Rightarrow> 'a storage_db_scheme \<Rightarrow> (storage_error, 'a storage_db_scheme) res" where
  "store_copy ok source_key destination_key db =
     (if \<not> ok \<or> source_key \<notin> set (bucket_objects db) then Inl StorageUnavailable
      else Inr (db\<lparr>bucket_objects := destination_key # bucket_objects db\<rparr>))"

definition copy_reserved_file ::
  "storage_env \<Rightarrow> bool \<Rightarrow> time \<Rightarrow> StoredFileModel \<Rightarrow> StoredFileModel \<Rightarrow> 'a storage_db_scheme
    \<Rightarrow> (storage_error, 'a storage_db_scheme) res" where
  "copy_reserved_file env ok now source destination db =
     (if sf_status source \<noteq> ''ready'' \<or> sf_status destination \<noteq> ''reserved''
         \<or> Some (sf_bucket source) \<noteq> se_r2_bucket_name env \<or> Some (sf_bucket destination) \<noteq> se_r2_bucket_name env
      then Inl StorageUnavailable
      else res_bind (lock_reserved_file now (sf_id destination) db) (\<lambda>_.
           res_bind (store_copy ok (sf_object_key source) (sf_object_key destination) db) (mark_file_ready (sf_id destination))))"

fun reserve_copies ::
  "storage_env \<Rightarrow> (ident \<Rightarrow> ident) \<Rightarrow> time \<Rightarrow> ident \<Rightarrow> DocumentModel list \<Rightarrow> 'a storage_db_scheme
    \<Rightarrow> (storage_error, (ident \<times> StoredFileModel) list \<times> 'a storage_db_scheme) res" where
  "reserve_copies env fresh now owner_user_id [] db = Inr ([], db)"
| "reserve_copies env fresh now owner_user_id (document # rest) db =
     (case d_original_file_id document of
        None \<Rightarrow> reserve_copies env fresh now owner_user_id rest db
      | Some i \<Rightarrow>
          if i = '''' then reserve_copies env fresh now owner_user_id rest db
          else (case get_file i db of
                  None \<Rightarrow> Inl StorageUnavailable
                | Some source \<Rightarrow>
                    res_bind (reserve_file_copy env (fresh (d_id document)) now source owner_user_id db) (\<lambda>(copy, db1).
                    res_bind (reserve_copies env fresh now owner_user_id rest db1) (\<lambda>(copies, db2).
                      Inr ((d_id document, copy) # copies, db2)))))"

definition prepare_document_file_copies ::
  "storage_env \<Rightarrow> (ident \<Rightarrow> ident) \<Rightarrow> time \<Rightarrow> DocumentModel list \<Rightarrow> ident \<Rightarrow> bool \<Rightarrow> 'a storage_db_scheme
    \<Rightarrow> (storage_error, (ident \<times> StoredFileModel) list) res \<times> 'a storage_db_scheme" where
  "prepare_document_file_copies env fresh now documents owner_user_id pending_changes db =
     (if list_all (\<lambda>d. d_original_file_id d \<in> {None, Some ''''}) documents then (Inr [], db)
      else if pending_changes then (Inl Storage_RuntimeError, db)
      else case reserve_copies env fresh now owner_user_id documents db of
             Inl e \<Rightarrow> (Inl e, db)
           | Inr (copies, db') \<Rightarrow> (Inr copies, db'))"

definition attach_document_file_copy ::
  "storage_env \<Rightarrow> bool \<Rightarrow> time \<Rightarrow> DocumentModel \<Rightarrow> DocumentModel \<Rightarrow> StoredFileModel option \<Rightarrow> 'a storage_db_scheme
    \<Rightarrow> (storage_error, DocumentModel \<times> 'a storage_db_scheme) res" where
  "attach_document_file_copy env ok now source_document copied_document reserved_file db =
     (case reserved_file of
        None \<Rightarrow> Inr (copied_document, db)
      | Some reserved \<Rightarrow>
          (case d_original_file_id source_document of
             None \<Rightarrow> Inl StorageUnavailable
           | Some i \<Rightarrow>
               (case get_file i db of
                  None \<Rightarrow> Inl StorageUnavailable
                | Some source \<Rightarrow>
                    res_bind (copy_reserved_file env ok now source reserved db) (\<lambda>db'.
                      Inr (copied_document\<lparr>d_original_file_id := Some (sf_id reserved)\<rparr>, db')))))"

definition discard_file_copies ::
  "(ident \<Rightarrow> ident) \<Rightarrow> time \<Rightarrow> (ident \<times> StoredFileModel) list \<Rightarrow> 'a storage_db_scheme \<Rightarrow> (storage_error, 'a storage_db_scheme) res" where
  "discard_file_copies fresh now copies db =
     schedule_files fresh now (filter (\<lambda>i. get_file i db \<noteq> None) (map (sf_id \<circ> snd) copies)) db"

text \<open>
  Admitting a direct upload reserves the original and a staging object of the same size, whose erasure
  is scheduled at once for after its upload link has expired.
\<close>

definition reserve_upload ::
  "storage_env \<Rightarrow> ident \<Rightarrow> ident \<Rightarrow> ident \<Rightarrow> time \<Rightarrow> ident \<Rightarrow> int \<Rightarrow> string \<Rightarrow> string \<Rightarrow> string \<Rightarrow> 'a storage_db_scheme
    \<Rightarrow> (storage_error, 'a storage_db_scheme) res" where
  "reserve_upload env original_id staging_id cleanup_id now owner_user_id byte_size sha256 filename content_type db =
     res_bind (reserve_file env original_id now owner_user_id byte_size sha256 filename content_type db) (\<lambda>(original, db1).
     res_bind (reserve_file env staging_id now owner_user_id byte_size sha256 filename content_type db1) (\<lambda>(staging, db2).
       let files = update_where (\<lambda>f. sf_id f = staging_id) (\<lambda>f. f\<lparr>sf_object_key := ''staging/'' @ staging_id\<rparr>) (stored_files db2)
       in if \<not> file_keys files then Inl Storage_IntegrityError
          else schedule_file_cleanup cleanup_id now staging_id (Some (now + hours 1 + minutes 2)) (db2\<lparr>stored_files := files\<rparr>)))"

text \<open>Sealing verified bytes under the original's key, in the transaction that publishes it.\<close>

definition seal_original ::
  "bool \<Rightarrow> time \<Rightarrow> StoredFileModel \<Rightarrow> 'a storage_db_scheme \<Rightarrow> (storage_error, 'a storage_db_scheme) res" where
  "seal_original ok now original db =
     res_bind (lock_reserved_file now (sf_id original) db) (\<lambda>_.
       if \<not> ok then Inl StorageUnavailable
       else mark_file_ready (sf_id original) (db\<lparr>bucket_objects := sf_object_key original # bucket_objects db\<rparr>))"

section \<open>Sweeping\<close>

definition reservation_expired :: "time \<Rightarrow> StoredFileModel \<Rightarrow> bool" where
  "reservation_expired now f \<longleftrightarrow> sf_status f = ''reserved''
     \<and> (case sf_reserved_until f of None \<Rightarrow> False | Some til \<Rightarrow> til \<le> now - WRITE_SETTLE_GRACE)"

fun expire_files :: "(ident \<Rightarrow> ident) \<Rightarrow> time \<Rightarrow> ident list \<Rightarrow> 'a storage_db_scheme \<Rightarrow> (storage_error, 'a storage_db_scheme) res" where
  "expire_files fresh now [] db = Inr db"
| "expire_files fresh now (i # is) db =
     (let p = (\<lambda>f. sf_id f = i \<and> reservation_expired now f);
          db1 = db\<lparr>stored_files := update_where p (\<lambda>f. f\<lparr>sf_status := ''delete_pending'', sf_reserved_until := None\<rparr>)
                    (stored_files db)\<rparr>
      in if rowcount p (stored_files db) \<noteq> 1 then expire_files fresh now is db1
         else case get_file i db1 of
                None \<Rightarrow> Inl Storage_InvalidRequest
              | Some f \<Rightarrow>
                  res_bind (enqueue_object_cleanup (fresh i) now (sf_bucket f) (sf_object_key f) (Some now) (Some (sf_id f)) db1)
                    (expire_files fresh now is))"

definition expire_reservations ::
  "(ident \<Rightarrow> ident) \<Rightarrow> time \<Rightarrow> 'a storage_db_scheme \<Rightarrow> (storage_error, 'a storage_db_scheme) res" where
  "expire_reservations fresh now db =
     expire_files fresh now
       (take 25 (map sf_id (sort_key (\<lambda>f. (case sf_reserved_until f of None \<Rightarrow> 0 | Some til \<Rightarrow> til, sf_id f))
          (scalars (reservation_expired now) (stored_files db))))) db"

definition cleanup_due :: "time \<Rightarrow> StorageCleanupModel \<Rightarrow> bool" where
  "cleanup_due now c \<longleftrightarrow> c_not_before c \<le> now \<and> (case c_lease_until c of None \<Rightarrow> True | Some til \<Rightarrow> til \<le> now)"

definition cleanup_grant :: "string \<Rightarrow> time \<Rightarrow> StorageCleanupModel \<Rightarrow> StorageCleanupModel" where
  "cleanup_grant token til c = c\<lparr>c_lease_token := Some token, c_lease_until := Some til, c_attempts := c_attempts c + 1\<rparr>"

definition cleanup_owned :: "string \<Rightarrow> ident \<Rightarrow> StorageCleanupModel \<Rightarrow> bool" where
  "cleanup_owned token i c \<longleftrightarrow> c_id c = i \<and> c_lease_token c = Some token"

definition claim_cleanup :: "time \<Rightarrow> string \<Rightarrow> ident \<Rightarrow> 'a storage_db_scheme \<Rightarrow> bool \<times> 'a storage_db_scheme" where
  "claim_cleanup now token i db =
     (let p = (\<lambda>c. c_id c = i \<and> cleanup_due now c)
      in (rowcount p (storage_cleanup db) = 1,
          db\<lparr>storage_cleanup := update_where p (cleanup_grant token (now + minutes 2)) (storage_cleanup db)\<rparr>))"

definition retry_delay :: "int \<Rightarrow> time" where
  "retry_delay attempts = seconds (min 3600 (5 * 2 ^ nat (min attempts 10)))"

definition retry_cleanup :: "time \<Rightarrow> string \<Rightarrow> StorageCleanupModel \<Rightarrow> 'a storage_db_scheme \<Rightarrow> 'a storage_db_scheme" where
  "retry_cleanup now token job db =
     db\<lparr>storage_cleanup := update_where (cleanup_owned token (c_id job))
          (\<lambda>c. c\<lparr>c_not_before := now + retry_delay (c_attempts job), c_lease_token := None, c_lease_until := None,
                 c_error_code := Some ''object_delete_failed''\<rparr>) (storage_cleanup db)\<rparr>"

definition store_delete :: "string \<Rightarrow> 'a storage_db_scheme \<Rightarrow> 'a storage_db_scheme" where
  "store_delete key db = db\<lparr>bucket_objects := filter (\<lambda>k. k \<noteq> key) (bucket_objects db)\<rparr>"

text \<open>Turning a pending file into a deleted one and giving its capacity back.\<close>

definition release_file :: "ident option \<Rightarrow> 'a storage_db_scheme \<Rightarrow> (storage_error, 'a storage_db_scheme) res" where
  "release_file stored_file_id db =
     (case stored_file_id of
        None \<Rightarrow> Inr db
      | Some i \<Rightarrow>
          (case get_file i db of
             None \<Rightarrow> Inr db
           | Some f \<Rightarrow>
               let p = (\<lambda>g. sf_id g = sf_id f \<and> sf_status g = ''delete_pending'');
                   q = (\<lambda>r. q_id r = 1 \<and> sf_byte_size f \<le> q_used_bytes r);
                   db1 = db\<lparr>stored_files := update_where p (\<lambda>g. g\<lparr>sf_status := ''deleted'', sf_owner_user_id := '''',
                              sf_filename := '''', sf_sha256 := '''', sf_content_type := ''''\<rparr>) (stored_files db)\<rparr>
               in if i = '''' then Inr db
                  else if rowcount p (stored_files db) \<noteq> 1 then Inr db1
                  else if rowcount q (storage_quota db) \<noteq> 1 then Inl Storage_RuntimeError
                  else Inr (db1\<lparr>storage_quota := update_where q (\<lambda>r. r\<lparr>q_used_bytes := q_used_bytes r - sf_byte_size f\<rparr>)
                                  (storage_quota db)\<rparr>)))"

definition finish_cleanup ::
  "time \<Rightarrow> string \<Rightarrow> StorageCleanupModel \<Rightarrow> 'a storage_db_scheme \<Rightarrow> (storage_error, bool) res \<times> 'a storage_db_scheme" where
  "finish_cleanup now token job db =
     (if rowcount (cleanup_owned token (c_id job)) (storage_cleanup db) \<noteq> 1 then (Inr False, db)
      else case release_file (c_stored_file_id job) db of
             Inl e \<Rightarrow> (Inl e, db)
           | Inr db1 \<Rightarrow> (Inr True, db1\<lparr>storage_cleanup := delete_where (cleanup_owned token (c_id job)) (storage_cleanup db1)\<rparr>))"



section \<open>Leases of the sweep\<close>

definition cleanup_held :: "string \<Rightarrow> time \<Rightarrow> StorageCleanupModel \<Rightarrow> bool" where
  "cleanup_held token now c \<longleftrightarrow> c_lease_token c = Some token
     \<and> (case c_lease_until c of None \<Rightarrow> False | Some til \<Rightarrow> now < til)"

interpretation cleanup_lease: leased_rows c_id cleanup_due cleanup_held cleanup_grant
  by unfold_locales (auto simp: cleanup_due_def cleanup_held_def cleanup_grant_def split: option.splits)

text \<open>While one sweep holds a job, another sweep cannot claim it.\<close>

lemma claim_cleanup_once:
  assumes "unique_on c_id (storage_cleanup db)" and "claim_cleanup now token i db = (True, db')"
  shows "fst (claim_cleanup now token' i db') = False"
proof -
  let ?p = "\<lambda>c. c_id c = i \<and> cleanup_due now c"
  have "rowcount ?p (storage_cleanup db) = 1"
    and db': "storage_cleanup db' = update_where ?p (cleanup_grant token (now + minutes 2)) (storage_cleanup db)"
    using assms(2) by (auto simp: claim_cleanup_def Let_def)
  then have "rowcount ?p (storage_cleanup db') = 0"
    unfolding db' by (intro cleanup_lease.second_claim_fails [OF assms(1)]) (auto simp: minutes_def seconds_def)
  then show ?thesis by (simp add: claim_cleanup_def Let_def)
qed

section \<open>The storage invariant\<close>

definition closing :: "StoredFileModel \<Rightarrow> bool" where
  "closing f \<longleftrightarrow> sf_status f \<in> {''delete_pending'', ''deleted''}"

text \<open>A cleanup job is about the object of a file that is on its way out.\<close>

definition job_ok :: "StoredFileModel list \<Rightarrow> StorageCleanupModel \<Rightarrow> bool" where
  "job_ok files c \<longleftrightarrow> (\<exists>f \<in> set files. file_place f = job_place c \<and> closing f
     \<and> (\<forall>i. c_stored_file_id c = Some i \<longrightarrow> i = sf_id f))"

definition is_original :: "string \<Rightarrow> bool" where
  "is_original key \<longleftrightarrow> take 10 key = ''originals/''"

definition live_bytes :: "'a storage_db_scheme \<Rightarrow> int" where
  "live_bytes db = sum_where (\<lambda>f. sf_status f \<noteq> ''deleted'') sf_byte_size (stored_files db)"

definition tables_ok :: "'a storage_db_scheme \<Rightarrow> bool" where
  "tables_ok db \<longleftrightarrow> file_keys (stored_files db) \<and> unique_on c_id (storage_cleanup db)
     \<and> unique_on job_place (storage_cleanup db) \<and> (\<forall>f \<in> set (stored_files db). sf_id f \<noteq> '''')"

definition quota_ok :: "storage_env \<Rightarrow> 'a storage_db_scheme \<Rightarrow> bool" where
  "quota_ok env db \<longleftrightarrow> (storage_quota db = [] \<and> stored_files db = [])
     \<or> (storage_quota db = [\<lparr>q_id = 1, q_used_bytes = live_bytes db\<rparr>] \<and> live_bytes db \<le> se_storage_max_bytes env)"

text \<open>\<open>held\<close> are the jobs running sweeps work on, \<open>erased\<close> those whose object the provider deleted.\<close>

type_synonym claim = "StorageCleanupModel \<times> string"

definition same_target :: "StorageCleanupModel \<Rightarrow> StorageCleanupModel \<Rightarrow> bool" where
  "same_target c d \<longleftrightarrow> job_place c = job_place d \<and> c_stored_file_id c = c_stored_file_id d"

definition claim_ok :: "StoredFileModel list \<Rightarrow> StorageCleanupModel list \<Rightarrow> claim \<Rightarrow> bool" where
  "claim_ok files rows x \<longleftrightarrow> job_ok files (fst x)
     \<and> (\<forall>c \<in> set rows. cleanup_owned (snd x) (c_id (fst x)) c \<longrightarrow> same_target c (fst x))"

definition jobs_ok :: "'a storage_db_scheme \<Rightarrow> claim list \<Rightarrow> bool" where
  "jobs_ok db held \<longleftrightarrow> (\<forall>c \<in> set (storage_cleanup db). job_ok (stored_files db) c)
     \<and> (\<forall>x \<in> set held. claim_ok (stored_files db) (storage_cleanup db) x)"

definition pending_ok :: "'a storage_db_scheme \<Rightarrow> bool" where
  "pending_ok db \<longleftrightarrow> (\<forall>f \<in> set (stored_files db). sf_status f = ''delete_pending''
     \<longrightarrow> (\<exists>c \<in> set (storage_cleanup db). job_place c = file_place f \<and> c_stored_file_id c = Some (sf_id f)))"

definition objects_ok :: "storage_env \<Rightarrow> 'a storage_db_scheme \<Rightarrow> claim list \<Rightarrow> claim list \<Rightarrow> bool" where
  "objects_ok env db held erased \<longleftrightarrow> set erased \<subseteq> set held
     \<and> (\<forall>x \<in> set held. Some (c_bucket (fst x)) = se_r2_bucket_name env)
     \<and> (\<forall>f \<in> set (stored_files db). Some (sf_bucket f) = se_r2_bucket_name env \<longrightarrow>
          (sf_status f = ''ready'' \<longrightarrow> sf_object_key f \<in> set (bucket_objects db))
          \<and> (sf_status f = ''deleted'' \<and> is_original (sf_object_key f) \<longrightarrow> sf_object_key f \<notin> set (bucket_objects db)))
     \<and> (\<forall>x \<in> set erased. is_original (c_object_key (fst x)) \<longrightarrow> c_object_key (fst x) \<notin> set (bucket_objects db))"

definition storage_ok :: "storage_env \<Rightarrow> storage_db \<times> claim list \<times> claim list \<Rightarrow> bool" where
  "storage_ok env s = (case s of (db, held, erased) \<Rightarrow>
     tables_ok db \<and> quota_ok env db \<and> jobs_ok db held \<and> pending_ok db \<and> objects_ok env db held erased)"

text \<open>One transaction of a request handler or one phase of a running sweep.\<close>

inductive storage_step ::
  "storage_env \<Rightarrow> storage_db \<times> claim list \<times> claim list \<Rightarrow> storage_db \<times> claim list \<times> claim list \<Rightarrow> bool" for env where
  st_reserve: "i \<noteq> '''' \<Longrightarrow> reserve_file env i now owner n sha name ctype db = Inr (f, db')
    \<Longrightarrow> storage_step env (db, w, e) (db', w, e)"
| st_upload: "i \<noteq> '''' \<Longrightarrow> j \<noteq> '''' \<Longrightarrow> reserve_upload env i j nid now owner n sha name ctype db = Inr db'
    \<Longrightarrow> storage_step env (db, w, e) (db', w, e)"
| st_seal: "original \<in> set (stored_files db) \<Longrightarrow> Some (sf_bucket original) = se_r2_bucket_name env
    \<Longrightarrow> seal_original ok now original db = Inr db'
    \<Longrightarrow> storage_step env (db, w, e) (db', w, e)"
| st_copy: "destination \<in> set (stored_files db) \<Longrightarrow> copy_reserved_file env ok now source destination db = Inr db'
    \<Longrightarrow> storage_step env (db, w, e) (db', w, e)"
| st_schedule: "schedule_file_cleanup nid now i nb db = Inr db' \<Longrightarrow> storage_step env (db, w, e) (db', w, e)"
| st_request: "f \<in> set (stored_files db) \<Longrightarrow> closing f \<Longrightarrow> sid \<in> {None, Some (sf_id f)}
    \<Longrightarrow> enqueue_object_cleanup nid now (sf_bucket f) (sf_object_key f) nb sid db = Inr db'
    \<Longrightarrow> storage_step env (db, w, e) (db', w, e)"
| st_expire: "expire_reservations fresh now db = Inr db' \<Longrightarrow> storage_step env (db, w, e) (db', w, e)"
| st_client_put: "storage_step env (db, w, e) (db\<lparr>bucket_objects := (''staging/'' @ i) # bucket_objects db\<rparr>, w, e)"
| st_claim: "claim_cleanup now token i db = (True, db') \<Longrightarrow> get_row c_id i (storage_cleanup db') = Some job
    \<Longrightarrow> Some (c_bucket job) = se_r2_bucket_name env \<Longrightarrow> token \<notin> snd ` set w
    \<Longrightarrow> storage_step env (db, w, e) (db', (job, token) # w, e)"
| st_erase: "(job, token) \<in> set w \<Longrightarrow> storage_step env (db, w, e) (store_delete (c_object_key job) db, w, (job, token) # e)"
| st_retry: "(job, token) \<in> set w \<Longrightarrow> storage_step env (db, w, e) (retry_cleanup now token job db, w, e)"
| st_finish: "(job, token) \<in> set e \<Longrightarrow> finish_cleanup now token job db = (r, db') \<Longrightarrow> storage_step env (db, w, e) (db', w, e)"

section \<open>Preservation\<close>

lemma file_keys_update:
  assumes "\<And>f. p f \<Longrightarrow> sf_id (g f) = sf_id f \<and> file_place (g f) = file_place f \<and> sf_byte_size (g f) = sf_byte_size f"
  shows "file_keys (update_where p g fs) = file_keys fs"
proof -
  have "sf_byte_size (if p f then g f else f) = sf_byte_size f" for f using assms by simp
  then have "(\<forall>f \<in> set (update_where p g fs). 0 \<le> sf_byte_size f) = (\<forall>f \<in> set fs. 0 \<le> sf_byte_size f)"
    unfolding set_update_where by (simp only: ball_simps)
  then show ?thesis using assms by (simp add: file_keys_def unique_on_update_where)
qed

lemma same_file:
  assumes "file_keys fs" and "f \<in> set fs" and "g \<in> set fs"
  shows "sf_id f = sf_id g \<Longrightarrow> f = g" and "file_place f = file_place g \<Longrightarrow> f = g"
  using assms unique_onD by (metis file_keys_def)+

lemma job_ok_update:
  assumes "\<And>f. p f \<Longrightarrow> sf_id (g f) = sf_id f \<and> file_place (g f) = file_place f \<and> (closing f \<longrightarrow> closing (g f))"
    and "job_ok fs c"
  shows "job_ok (update_where p g fs) c"
proof -
  obtain f where f: "f \<in> set fs" "file_place f = job_place c" "closing f" "\<forall>i. c_stored_file_id c = Some i \<longrightarrow> i = sf_id f"
    using assms(2) by (auto simp: job_ok_def)
  let ?h = "\<lambda>f. if p f then g f else f"
  have "?h f \<in> set (update_where p g fs)" using f(1) unfolding set_update_where by blast
  moreover have "file_place (?h f) = job_place c" "closing (?h f)" "sf_id (?h f) = sf_id f"
    using f assms(1) [of f] by auto
  ultimately show ?thesis unfolding job_ok_def by (intro bexI [of _ "?h f"]) (use f(4) in auto)
qed

lemma job_ok_insert: "job_ok fs c \<Longrightarrow> job_ok (insert_row f fs) c"
  by (auto simp: job_ok_def)

lemma job_ok_cong: "same_target c d \<Longrightarrow> job_ok fs c = job_ok fs d"
  by (simp add: job_ok_def same_target_def)

text \<open>Rows of the outbox that differ in their schedule only.\<close>

definition like :: "StorageCleanupModel \<Rightarrow> StorageCleanupModel \<Rightarrow> bool" where
  "like c d \<longleftrightarrow> c_id c = c_id d \<and> same_target c d \<and> (c_lease_token d = c_lease_token c \<or> c_lease_token d = None)"

lemma like_owned: "like c d \<Longrightarrow> cleanup_owned token i d \<Longrightarrow> cleanup_owned token i c"
  by (auto simp: like_def cleanup_owned_def)

lemma like_target: "like c d \<Longrightarrow> same_target d x \<longleftrightarrow> same_target c x"
  by (auto simp: like_def same_target_def)

lemma jobs_ok_files:
  assumes "jobs_ok db w" and "storage_cleanup db' = storage_cleanup db"
    and "\<And>c. job_ok (stored_files db) c \<Longrightarrow> job_ok (stored_files db') c"
  shows "jobs_ok db' w"
  using assms by (simp add: jobs_ok_def claim_ok_def)

lemma jobs_ok_rows:
  assumes "jobs_ok db w" and "stored_files db' = stored_files db"
    and rows: "\<And>d. d \<in> set (storage_cleanup db') \<Longrightarrow>
      (\<exists>c \<in> set (storage_cleanup db). like c d) \<or> (c_lease_token d = None \<and> job_ok (stored_files db) d)"
  shows "jobs_ok db' w"
proof -
  have "job_ok (stored_files db) d" if "d \<in> set (storage_cleanup db')" for d
    using rows [OF that]
  proof
    assume "\<exists>c \<in> set (storage_cleanup db). like c d"
    then obtain c where "c \<in> set (storage_cleanup db)" "like c d" by blast
    then show ?thesis using assms(1) job_ok_cong [of c d "stored_files db"] unfolding jobs_ok_def like_def by blast
  qed simp
  moreover have "claim_ok (stored_files db) (storage_cleanup db') x" if x: "x \<in> set w" for x
    unfolding claim_ok_def
  proof (intro conjI ballI impI)
    have ok: "claim_ok (stored_files db) (storage_cleanup db) x" using assms(1) x by (simp add: jobs_ok_def)
    then show "job_ok (stored_files db) (fst x)" by (simp add: claim_ok_def)
    fix d assume d: "d \<in> set (storage_cleanup db')" "cleanup_owned (snd x) (c_id (fst x)) d"
    then obtain c where c: "c \<in> set (storage_cleanup db)" "like c d"
      using rows [OF d(1)] by (auto simp: cleanup_owned_def)
    then show "same_target d (fst x)" using ok like_owned [OF c(2) d(2)] like_target [OF c(2)] by (simp add: claim_ok_def)
  qed
  ultimately show ?thesis using assms(2) by (simp add: jobs_ok_def)
qed

lemma enqueue_ok:
  assumes "enqueue_object_cleanup nid now b k nb sid db = Inr db'" and "unique_on job_place (storage_cleanup db)"
  shows "\<exists>rows. db' = db\<lparr>storage_cleanup := rows\<rparr> \<and> unique_on c_id rows \<and> unique_on job_place rows
    \<and> (\<forall>d \<in> set rows. (\<exists>c \<in> set (storage_cleanup db). like c d)
          \<or> (c_lease_token d = None \<and> job_place d = (b, k) \<and> c_stored_file_id d = sid))
    \<and> (\<forall>c \<in> set (storage_cleanup db). \<exists>d \<in> set rows. like c d)
    \<and> ((b, k) \<notin> job_place ` set (storage_cleanup db) \<longrightarrow> (\<exists>d \<in> set rows. job_place d = (b, k) \<and> c_stored_file_id d = sid))"
proof -
  define available where "available = (case nb of None \<Rightarrow> now | Some t \<Rightarrow> t)"
  define row where "row = \<lparr>c_id = nid, c_bucket = b, c_object_key = k, c_stored_file_id = sid,
      c_not_before = available, c_lease_until = None, c_lease_token = None, c_attempts = 0,
      c_error_code = None, c_created_at = now\<rparr>"
  define rows where "rows = (if (b, k) \<in> job_place ` set (storage_cleanup db) then storage_cleanup db
      else insert_row row (storage_cleanup db))"
  let ?p = "\<lambda>c. c_bucket c = b \<and> c_object_key c = k \<and> c_not_before c < available"
  let ?g = "\<lambda>c. c\<lparr>c_not_before := available\<rparr>"
  have db': "db' = db\<lparr>storage_cleanup := update_where ?p ?g rows\<rparr>" and ids: "unique_on c_id rows"
    using assms(1) by (auto simp: enqueue_object_cleanup_def Let_def available_def row_def rows_def split: if_splits)
  have place: "job_place row = (b, k)" by (simp add: row_def job_place_def)
  have uniq: "unique_on job_place rows" using assms(2) place by (auto simp: rows_def)
  have g: "like c (?g c)" for c by (simp add: like_def same_target_def job_place_def)
  have like_refl: "like c c" for c by (simp add: like_def same_target_def)
  let ?h = "\<lambda>c. if ?p c then ?g c else c"
  have img: "set (update_where ?p ?g rows) = ?h ` set rows" by (rule set_update_where)
  have like_h: "like c (?h c)" for c using g like_refl by simp
  have sub: "set (storage_cleanup db) \<subseteq> set rows" "set rows \<subseteq> insert row (set (storage_cleanup db))"
    by (auto simp: rows_def)
  have "(\<exists>c \<in> set (storage_cleanup db). like c d) \<or> (c_lease_token d = None \<and> job_place d = (b, k) \<and> c_stored_file_id d = sid)"
    if "d \<in> set (update_where ?p ?g rows)" for d
  proof -
    from that obtain c where c: "c \<in> set rows" "d = ?h c" unfolding img by blast
    then have "like c d" using like_h by blast
    moreover have "like row d \<Longrightarrow> c_lease_token d = None \<and> job_place d = (b, k) \<and> c_stored_file_id d = sid"
      using place by (auto simp: like_def same_target_def row_def)
    ultimately show ?thesis using c(1) sub(2) by blast
  qed
  moreover have "\<exists>d \<in> set (update_where ?p ?g rows). like c d" if "c \<in> set (storage_cleanup db)" for c
    using that sub(1) like_h [of c] unfolding img by blast
  moreover have "\<exists>d \<in> set (update_where ?p ?g rows). job_place d = (b, k) \<and> c_stored_file_id d = sid"
    if "(b, k) \<notin> job_place ` set (storage_cleanup db)"
  proof -
    have "row \<in> set rows" using that by (simp add: rows_def)
    moreover have "job_place (?h row) = (b, k)" "c_stored_file_id (?h row) = sid" using like_h [of row] place by (simp_all add: like_def same_target_def row_def)
    ultimately show ?thesis unfolding img by blast
  qed
  moreover have "unique_on c_id (update_where ?p ?g rows)" "unique_on job_place (update_where ?p ?g rows)"
    using ids uniq by (simp_all add: unique_on_update_where job_place_def)
  ultimately show ?thesis using db' by blast
qed

lemma live_bytes_same:
  assumes "stored_files db' = update_where p g (stored_files db)"
    and "\<And>f. p f \<Longrightarrow> (sf_status (g f) = ''deleted'') = (sf_status f = ''deleted'') \<and> sf_byte_size (g f) = sf_byte_size f"
  shows "live_bytes db' = live_bytes db"
  using assms by (auto simp: live_bytes_def intro!: sum_where_same)

lemma quota_ok_same:
  assumes "quota_ok env db" and "storage_quota db' = storage_quota db" and "live_bytes db' = live_bytes db"
    and "stored_files db = [] \<Longrightarrow> stored_files db' = []"
  shows "quota_ok env db'"
  using assms by (auto simp: quota_ok_def)

text \<open>Files that enter the closing states, with the outbox row that goes with it.\<close>

definition pend :: "StoredFileModel \<Rightarrow> StoredFileModel" where
  "pend f = f\<lparr>sf_status := ''delete_pending'', sf_reserved_until := None\<rparr>"

lemma pend_sel [simp]:
  "sf_id (pend f) = sf_id f" "file_place (pend f) = file_place f" "sf_byte_size (pend f) = sf_byte_size f"
  "sf_status (pend f) = ''delete_pending''" "closing (pend f)" "sf_bucket (pend f) = sf_bucket f"
  "sf_object_key (pend f) = sf_object_key f"
  by (simp_all add: pend_def file_place_def closing_def)

lemma objects_ok_pend:
  assumes "objects_ok env db w e" and "\<And>f. p f \<Longrightarrow> sf_status f \<in> {''reserved'', ''ready''}"
    and "stored_files db' = update_where p pend (stored_files db)" and "bucket_objects db' = bucket_objects db"
  shows "objects_ok env db' w e"
  using assms(1) unfolding objects_ok_def assms(3,4) set_update_where by auto

lemma tables_ok_files:
  assumes "tables_ok db" and "stored_files db' = update_where p g (stored_files db)"
    and "storage_cleanup db' = storage_cleanup db"
    and "\<And>f. p f \<Longrightarrow> sf_id (g f) = sf_id f \<and> file_place (g f) = file_place f \<and> sf_byte_size (g f) = sf_byte_size f"
  shows "tables_ok db'"
proof -
  have "sf_id (if p f then g f else f) = sf_id f" for f using assms(4) by simp
  then have "(\<forall>f \<in> set (stored_files db'). sf_id f \<noteq> '''') = (\<forall>f \<in> set (stored_files db). sf_id f \<noteq> '''')"
    unfolding assms(2) set_update_where by (simp only: ball_simps)
  then show ?thesis
    using assms(1) file_keys_update [of p g "stored_files db"] assms(2-4) by (simp add: tables_ok_def)
qed

lemma pend_storage_ok:
  assumes ok: "storage_ok env (db, w, e)" and f: "f \<in> set (stored_files db)"
    and p: "\<And>g. p g \<Longrightarrow> sf_id g = sf_id f \<and> sf_status g \<in> {''reserved'', ''ready''}"
    and now_pending: "p f \<or> sf_status f = ''delete_pending''"
    and enq: "enqueue_object_cleanup nid now (sf_bucket f) (sf_object_key f) nb (Some (sf_id f))
      (db\<lparr>stored_files := update_where p pend (stored_files db)\<rparr>) = Inr db'"
  shows "storage_ok env (db', w, e)"
proof -
  let ?files = "update_where p pend (stored_files db)"
  let ?db1 = "db\<lparr>stored_files := ?files\<rparr>"
  have t: "tables_ok db" and q: "quota_ok env db" and j: "jobs_ok db w" and pe: "pending_ok db" and o: "objects_ok env db w e"
    using ok by (simp_all add: storage_ok_def)
  have keys: "file_keys (stored_files db)" using t by (simp add: tables_ok_def)
  have only: "g = f" if "g \<in> set (stored_files db)" "p g" for g
    using same_file(1) [OF keys that(1) f] p [OF that(2)] by simp
  have place: "(sf_bucket f, sf_object_key f) = file_place f" by (simp add: file_place_def)
  obtain rows where db': "db' = ?db1\<lparr>storage_cleanup := rows\<rparr>" and ids: "unique_on c_id rows" and places: "unique_on job_place rows"
    and new: "\<forall>d \<in> set rows. (\<exists>c \<in> set (storage_cleanup db). like c d)
          \<or> (c_lease_token d = None \<and> job_place d = file_place f \<and> c_stored_file_id d = Some (sf_id f))"
    and old: "\<forall>c \<in> set (storage_cleanup db). \<exists>d \<in> set rows. like c d"
    and ins: "file_place f \<notin> job_place ` set (storage_cleanup db)
          \<longrightarrow> (\<exists>d \<in> set rows. job_place d = file_place f \<and> c_stored_file_id d = Some (sf_id f))"
    using enqueue_ok [OF enq] t unfolding place by (auto simp: tables_ok_def)
  define f' where "f' = (if p f then pend f else f)"
  have f': "f' \<in> set ?files" "file_place f' = file_place f" "closing f'" "sf_id f' = sf_id f"
    using f now_pending by (auto simp: f'_def set_update_where closing_def)
  have j1: "jobs_ok ?db1 w"
    by (rule jobs_ok_files [OF j]) (auto intro: job_ok_update)
  have "jobs_ok db' w"
  proof (rule jobs_ok_rows [OF j1])
    show "(\<exists>c \<in> set (storage_cleanup ?db1). like c d) \<or> (c_lease_token d = None \<and> job_ok (stored_files ?db1) d)"
      if "d \<in> set (storage_cleanup db')" for d
      using that new f' by (auto simp: db' job_ok_def intro!: bexI [of _ f'])
  qed (simp add: db')
  moreover have "tables_ok db'"
    using tables_ok_files [OF t, of ?db1 p pend] ids places by (simp add: tables_ok_def db')
  moreover have "quota_ok env db'"
  proof (rule quota_ok_same [OF q])
    show "live_bytes db' = live_bytes db" by (rule live_bytes_same [of _ p pend]) (auto simp: db' dest: p)
  qed (simp_all add: db' update_where_def)
  moreover have "objects_ok env db' w e"
    by (rule objects_ok_pend [OF o, of p]) (auto simp: db' dest: p)
  moreover have "pending_ok db'"
    unfolding pending_ok_def
  proof (intro ballI impI)
    fix g' assume g': "g' \<in> set (stored_files db')" "sf_status g' = ''delete_pending''"
    then obtain g where g: "g \<in> set (stored_files db)" "g' = (if p g then pend g else g)"
      by (auto simp: db' set_update_where)
    show "\<exists>c \<in> set (storage_cleanup db'). job_place c = file_place g' \<and> c_stored_file_id c = Some (sf_id g')"
    proof (cases "sf_status g = ''delete_pending''")
      case True
      then obtain c where "c \<in> set (storage_cleanup db)" "job_place c = file_place g" "c_stored_file_id c = Some (sf_id g)"
        using pe g(1) by (auto simp: pending_ok_def)
      then show ?thesis using old g(2) by (force simp: db' like_def same_target_def)
    next
      case False
      then have "p g" using g g'(2) by (simp split: if_splits)
      then have [simp]: "g = f" using only g(1) by simp
      have "file_place f \<notin> job_place ` set (storage_cleanup db)"
      proof
        assume "file_place f \<in> job_place ` set (storage_cleanup db)"
        then obtain h where "h \<in> set (stored_files db)" "file_place h = file_place f" "closing h"
          using j by (auto simp: jobs_ok_def job_ok_def)
        then have "closing f" using same_file(2) [OF keys _ f] by auto
        then show False using p [OF \<open>p g\<close>] by (auto simp: closing_def)
      qed
      then show ?thesis using ins g(2) by (simp add: db')
    qed
  qed
  ultimately show ?thesis by (simp add: storage_ok_def)
qed

lemma schedule_file_cleanup_ok:
  assumes "storage_ok env (db, w, e)" and "schedule_file_cleanup nid now i nb db = Inr db'"
  shows "storage_ok env (db', w, e)"
proof -
  let ?p = "\<lambda>f. sf_id f = i \<and> sf_status f \<in> {''reserved'', ''ready''}"
  let ?db1 = "db\<lparr>stored_files := update_where ?p pend (stored_files db)\<rparr>"
  have pend: "(\<lambda>f. f\<lparr>sf_status := ''delete_pending'', sf_reserved_until := None\<rparr>) = pend" by (simp add: pend_def fun_eq_iff)
  have keys: "file_keys (stored_files db)" using assms(1) by (simp add: storage_ok_def tables_ok_def)
  obtain f where get: "get_file i db = Some f" using assms(2) by (auto simp: schedule_file_cleanup_def split: option.splits)
  then have f: "f \<in> set (stored_files db)" "sf_id f = i" using get_row_SomeD unfolding get_file_def by metis+
  have get1: "get_file i ?db1 = Some (if ?p f then pend f else f)"
    using get by (simp add: get_file_def get_row_update_where)
  show ?thesis
  proof (cases "?p f \<or> sf_status f = ''delete_pending''")
    case True
    then obtain nb' where "enqueue_object_cleanup nid now (sf_bucket f) (sf_object_key f) nb' (Some (sf_id f)) ?db1 = Inr db'"
      using assms(2) get get1 f(2) unfolding schedule_file_cleanup_def pend by (auto simp: Let_def split: if_splits)
    then show ?thesis using True f(2) by (intro pend_storage_ok [OF assms(1) f(1), of ?p]) auto
  next
    case False
    have "\<not> ?p g" if "g \<in> set (stored_files db)" for g
    proof
      assume "?p g"
      then have "g = f" using same_file(1) [OF keys that f(1)] f(2) by simp
      then show False using \<open>?p g\<close> False by simp
    qed
    then have none: "rowcount ?p (stored_files db) = 0"
      using rowcount_pos [of ?p "stored_files db"] by blast
    have same: "?db1 = db" using update_where_none [OF none, of pend] by simp
    have "get_file i db = Some f" "sf_status f \<noteq> ''delete_pending''" using get False by simp_all
    then have "db' = db" using assms(2) none same unfolding schedule_file_cleanup_def pend Let_def by simp
    then show ?thesis using assms(1) by simp
  qed
qed

lemma expire_files_ok:
  "storage_ok env (db, w, e) \<Longrightarrow> expire_files fresh now is db = Inr db' \<Longrightarrow> storage_ok env (db', w, e)"
proof (induction "is" arbitrary: db)
  case Nil
  then show ?case by simp
next
  case (Cons i "is")
  let ?p = "\<lambda>f. sf_id f = i \<and> reservation_expired now f"
  let ?db1 = "db\<lparr>stored_files := update_where ?p pend (stored_files db)\<rparr>"
  have pend: "(\<lambda>f. f\<lparr>sf_status := ''delete_pending'', sf_reserved_until := None\<rparr>) = pend" by (simp add: pend_def fun_eq_iff)
  have keys: "unique_on sf_id (stored_files db)" using Cons.prems(1) by (simp add: storage_ok_def tables_ok_def file_keys_def)
  show ?case
  proof (cases "\<exists>f \<in> set (stored_files db). ?p f")
    case False
    then have "rowcount ?p (stored_files db) = 0" using rowcount_pos [of ?p "stored_files db"] by auto
    moreover from this have "?db1 = db" by (simp add: update_where_none)
    ultimately have "expire_files fresh now is db = Inr db'" using Cons.prems(2) by (simp add: pend Let_def)
    then show ?thesis by (rule Cons.IH [OF Cons.prems(1)])
  next
    case True
    then obtain f where f: "f \<in> set (stored_files db)" "?p f" by blast
    have one: "rowcount ?p (stored_files db) = 1" using True rowcount_one_iff [OF keys, of ?p i] by simp
    have get: "get_file i ?db1 = Some (pend f)"
      using get_row_unique [OF keys f(1)] f(2) by (simp add: get_file_def get_row_update_where)
    obtain db2 where enq: "enqueue_object_cleanup (fresh i) now (sf_bucket f) (sf_object_key f) (Some now) (Some (sf_id f)) ?db1 = Inr db2"
      and rest: "expire_files fresh now is db2 = Inr db'"
      using Cons.prems(2) one get by (auto simp: pend Let_def res_bind_ok)
    have "storage_ok env (db2, w, e)"
      by (rule pend_storage_ok [OF Cons.prems(1) f(1) _ _ enq]) (use f(2) in \<open>auto simp: reservation_expired_def\<close>)
    then show ?thesis using rest by (rule Cons.IH)
  qed
qed

lemma request_cleanup_ok:
  assumes ok: "storage_ok env (db, w, e)" and f: "f \<in> set (stored_files db)" "closing f" and sid: "sid \<in> {None, Some (sf_id f)}"
    and enq: "enqueue_object_cleanup nid now (sf_bucket f) (sf_object_key f) nb sid db = Inr db'"
  shows "storage_ok env (db', w, e)"
proof -
  have t: "tables_ok db" and q: "quota_ok env db" and j: "jobs_ok db w" and pe: "pending_ok db" and o: "objects_ok env db w e"
    using ok by (simp_all add: storage_ok_def)
  have place: "(sf_bucket f, sf_object_key f) = file_place f" by (simp add: file_place_def)
  obtain rows where db': "db' = db\<lparr>storage_cleanup := rows\<rparr>" and ids: "unique_on c_id rows" and places: "unique_on job_place rows"
    and new: "\<forall>d \<in> set rows. (\<exists>c \<in> set (storage_cleanup db). like c d)
          \<or> (c_lease_token d = None \<and> job_place d = file_place f \<and> c_stored_file_id d = sid)"
    and old: "\<forall>c \<in> set (storage_cleanup db). \<exists>d \<in> set rows. like c d"
    using enqueue_ok [OF enq] t unfolding place by (auto simp: tables_ok_def)
  have "jobs_ok db' w"
  proof (rule jobs_ok_rows [OF j])
    show "(\<exists>c \<in> set (storage_cleanup db). like c d) \<or> (c_lease_token d = None \<and> job_ok (stored_files db) d)"
      if "d \<in> set (storage_cleanup db')" for d
      using that new f sid by (auto simp: db' job_ok_def intro!: bexI [of _ f])
  qed (simp add: db')
  moreover have "pending_ok db'"
    using pe old unfolding pending_ok_def db' like_def same_target_def by (simp, metis)
  ultimately show ?thesis
    using t q o ids places by (simp add: storage_ok_def db' tables_ok_def quota_ok_def live_bytes_def objects_ok_def)
qed

lemma reserve_file_ok:
  assumes ok: "storage_ok env (db, w, e)" and "i \<noteq> ''''"
    and res: "reserve_file env i now owner n sha name ctype db = Inr (f, db')"
  shows "storage_ok env (db', w, e)" and "f \<in> set (stored_files db')" and "sf_id f = i" and "sf_status f = ''reserved''"
proof -
  have t: "tables_ok db" and q: "quota_ok env db" and j: "jobs_ok db w" and pe: "pending_ok db" and o: "objects_ok env db w e"
    using ok by (simp_all add: storage_ok_def)
  let ?p = "\<lambda>q. q_id q = 1 \<and> q_used_bytes q + n \<le> se_storage_max_bytes env"
  let ?quota = "if get_row q_id 1 (storage_quota db) = None then insert_row \<lparr>q_id = 1, q_used_bytes = 0\<rparr> (storage_quota db)
      else storage_quota db"
  have f: "sf_id f = i" "sf_status f = ''reserved''" "sf_byte_size f = n"
    and keys: "file_keys (insert_row f (stored_files db))" and one: "rowcount ?p ?quota = 1"
    and db': "db' = db\<lparr>storage_quota := update_where ?p (\<lambda>q. q\<lparr>q_used_bytes := q_used_bytes q + n\<rparr>) ?quota,
                        stored_files := insert_row f (stored_files db)\<rparr>"
    using res by (auto simp: reserve_file_def Let_def split: option.splits if_splits)
  have base: "?quota = [\<lparr>q_id = 1, q_used_bytes = live_bytes db\<rparr>]"
    using q by (auto simp: quota_ok_def get_row_def insert_row_def live_bytes_def sum_where_def)
  have live: "live_bytes db' = live_bytes db + n" using f by (simp add: live_bytes_def db')
  have fits: "live_bytes db + n \<le> se_storage_max_bytes env"
    using one unfolding base by (simp add: rowcount_def split: if_splits)
  have "quota_ok env db'"
    using fits live unfolding quota_ok_def db' base by (simp add: update_where_def)
  moreover have "tables_ok db'" using t keys f assms(2) by (simp add: tables_ok_def db')
  moreover have "jobs_ok db' w" by (rule jobs_ok_files [OF j]) (simp_all add: db' job_ok_insert)
  moreover have "pending_ok db'" using pe f by (auto simp: pending_ok_def db')
  moreover have "objects_ok env db' w e" using o f by (auto simp: objects_ok_def db')
  ultimately show "storage_ok env (db', w, e)" by (simp add: storage_ok_def)
  show "f \<in> set (stored_files db')" "sf_id f = i" "sf_status f = ''reserved''" using f by (simp_all add: db')
qed

lemma rekey_ok:
  assumes ok: "storage_ok env (db, w, e)" and f: "f \<in> set (stored_files db)" "sf_id f = i" "sf_status f = ''reserved''"
    and keys: "file_keys (update_where (\<lambda>f. sf_id f = i) (\<lambda>f. f\<lparr>sf_object_key := k\<rparr>) (stored_files db))"
  shows "storage_ok env (db\<lparr>stored_files := update_where (\<lambda>f. sf_id f = i) (\<lambda>f. f\<lparr>sf_object_key := k\<rparr>) (stored_files db)\<rparr>, w, e)"
proof -
  let ?g = "\<lambda>f. f\<lparr>sf_object_key := k\<rparr>"
  let ?files = "update_where (\<lambda>f. sf_id f = i) ?g (stored_files db)"
  let ?db = "db\<lparr>stored_files := ?files\<rparr>"
  have t: "tables_ok db" and q: "quota_ok env db" and j: "jobs_ok db w" and pe: "pending_ok db" and o: "objects_ok env db w e"
    using ok by (simp_all add: storage_ok_def)
  have fk: "file_keys (stored_files db)" using t by (simp add: tables_ok_def)
  have files: "set ?files = insert (?g f) (set (stored_files db) - {f})"
  proof (rule set_update_one [OF f(1)])
    show "sf_id g = i \<longleftrightarrow> g = f" if "g \<in> set (stored_files db)" for g using same_file(1) [OF fk that f(1)] f(2) by auto
  qed
  have other: "g \<in> set ?files" if "g \<in> set (stored_files db)" "sf_status g \<noteq> ''reserved''" for g
    using that f(3) unfolding files by auto
  have "job_ok ?files c" if c: "job_ok (stored_files db) c" for c
  proof -
    obtain h where h: "h \<in> set (stored_files db)" "file_place h = job_place c" "closing h"
      "\<forall>i. c_stored_file_id c = Some i \<longrightarrow> i = sf_id h"
      using c by (auto simp: job_ok_def)
    then have "h \<in> set ?files" by (intro other) (auto simp: closing_def)
    then show ?thesis using h(2-4) unfolding job_ok_def by blast
  qed
  then have "jobs_ok ?db w" by (intro jobs_ok_files [OF j]) simp_all
  moreover have "pending_ok ?db" using pe f(3) unfolding pending_ok_def by (simp add: files)
  moreover have "objects_ok env ?db w e" using o f(3) unfolding objects_ok_def by (simp add: files)
  moreover have "tables_ok ?db" using t keys f(1) unfolding tables_ok_def by (simp add: files)
  moreover have "quota_ok env ?db"
  proof (rule quota_ok_same [OF q])
    show "live_bytes ?db = live_bytes db" by (rule live_bytes_same [of _ "\<lambda>f. sf_id f = i" ?g]) simp_all
  qed (simp_all add: update_where_def)
  ultimately show ?thesis by (simp add: storage_ok_def)
qed

lemma publish_ok:
  assumes ok: "storage_ok env (db, w, e)" and d: "d \<in> set (stored_files db)" "Some (sf_bucket d) = se_r2_bucket_name env"
    and lock: "lock_reserved_file now (sf_id d) db = Inr ()"
    and mark: "mark_file_ready (sf_id d) (db\<lparr>bucket_objects := sf_object_key d # bucket_objects db\<rparr>) = Inr db'"
  shows "storage_ok env (db', w, e)"
proof -
  have t: "tables_ok db" and q: "quota_ok env db" and j: "jobs_ok db w" and pe: "pending_ok db" and o: "objects_ok env db w e"
    using ok by (simp_all add: storage_ok_def)
  have fk: "file_keys (stored_files db)" using t by (simp add: tables_ok_def)
  let ?p = "\<lambda>f. sf_id f = sf_id d \<and> sf_status f = ''reserved''"
  let ?g = "\<lambda>f. f\<lparr>sf_status := ''ready'', sf_reserved_until := None\<rparr>"
  have db': "db' = db\<lparr>bucket_objects := sf_object_key d # bucket_objects db, stored_files := update_where ?p ?g (stored_files db)\<rparr>"
    using mark by (auto simp: mark_file_ready_def Let_def split: option.splits if_splits)
  obtain r where r: "r \<in> set (stored_files db)" "?p r"
    using lock rowcount_pos [of "\<lambda>f. sf_id f = sf_id d \<and> sf_status f = ''reserved''
        \<and> (case sf_reserved_until f of None \<Rightarrow> False | Some til \<Rightarrow> til > now)" "stored_files db"]
    by (auto simp: lock_reserved_file_def split: if_splits)
  have reserved: "sf_status d = ''reserved''" using same_file(1) [OF fk r(1) d(1)] r(2) by simp
  have not_closing: "sf_object_key g \<noteq> sf_object_key d"
    if "g \<in> set (stored_files db)" "closing g" "Some (sf_bucket g) = se_r2_bucket_name env" for g
  proof
    assume "sf_object_key g = sf_object_key d"
    then have "file_place g = file_place d" using that(3) d(2) by (metis file_place_def option.inject)
    then have "g = d" using same_file(2) [OF fk that(1) d(1)] by simp
    then show False using that(2) reserved by (simp add: closing_def)
  qed
  have g: "?p f \<Longrightarrow> file_place (?g f) = file_place f" for f by (simp add: file_place_def)
  have "jobs_ok db' w"
    by (rule jobs_ok_files [OF j]) (auto simp: db' g closing_def intro!: job_ok_update)
  moreover have "tables_ok db'"
    by (rule tables_ok_files [OF t, of _ ?p ?g]) (auto simp: db' g)
  moreover have "quota_ok env db'"
  proof (rule quota_ok_same [OF q])
    show "live_bytes db' = live_bytes db" by (rule live_bytes_same [of db' ?p ?g]) (simp_all add: db')
  qed (simp_all add: db' update_where_def)
  moreover have "pending_ok db'"
    using pe unfolding pending_ok_def db' by (auto simp: set_update_where)
  moreover have "objects_ok env db' w e"
  proof -
    have erased: "c_object_key (fst x) \<noteq> sf_object_key d" if "x \<in> set e" for x
    proof -
      have x: "x \<in> set w" "Some (c_bucket (fst x)) = se_r2_bucket_name env" using o that by (auto simp: objects_ok_def)
      then have "job_ok (stored_files db) (fst x)" using j by (simp add: jobs_ok_def claim_ok_def)
      then obtain h where "h \<in> set (stored_files db)" "file_place h = job_place (fst x)" "closing h"
        by (auto simp: job_ok_def)
      then show ?thesis using not_closing [of h] x(2) by (auto simp: file_place_def job_place_def)
    qed
    have "(sf_status f' = ''ready'' \<longrightarrow> sf_object_key f' \<in> set (bucket_objects db'))
        \<and> (sf_status f' = ''deleted'' \<and> is_original (sf_object_key f') \<longrightarrow> sf_object_key f' \<notin> set (bucket_objects db'))"
      if "f' \<in> set (stored_files db')" "Some (sf_bucket f') = se_r2_bucket_name env" for f'
    proof -
      from that(1) obtain f where f: "f \<in> set (stored_files db)" "f' = (if ?p f then ?g f else f)"
        by (auto simp: db' set_update_where)
      show ?thesis
      proof (cases "?p f")
        case True
        then have "f = d" using same_file(1) [OF fk f(1) d(1)] by simp
        then show ?thesis using f(2) True by (simp add: db')
      next
        case False
        then have "f' = f" using f(2) by auto
        moreover have "(sf_status f = ''ready'' \<longrightarrow> sf_object_key f \<in> set (bucket_objects db))
            \<and> (sf_status f = ''deleted'' \<and> is_original (sf_object_key f) \<longrightarrow> sf_object_key f \<notin> set (bucket_objects db))"
          using o f(1) that(2) calculation unfolding objects_ok_def by blast
        moreover have "sf_status f = ''deleted'' \<Longrightarrow> sf_object_key f \<noteq> sf_object_key d"
          using not_closing [OF f(1)] that(2) calculation(1) by (simp add: closing_def)
        ultimately show ?thesis by (auto simp: db')
      qed
    qed
    then show ?thesis using o erased unfolding objects_ok_def by (auto simp: db')
  qed
  ultimately show ?thesis by (simp add: storage_ok_def)
qed

lemma claim_cleanup_ok:
  assumes ok: "storage_ok env (db, w, e)" and claim: "claim_cleanup now token i db = (True, db')"
    and job: "get_row c_id i (storage_cleanup db') = Some job" and bucket: "Some (c_bucket job) = se_r2_bucket_name env"
    and fresh: "token \<notin> snd ` set w"
  shows "storage_ok env (db', (job, token) # w, e)"
proof -
  have t: "tables_ok db" and q: "quota_ok env db" and j: "jobs_ok db w" and pe: "pending_ok db" and o: "objects_ok env db w e"
    using ok by (simp_all add: storage_ok_def)
  let ?p = "\<lambda>c. c_id c = i \<and> cleanup_due now c" and ?g = "cleanup_grant token (now + minutes 2)"
  have db': "db' = db\<lparr>storage_cleanup := update_where ?p ?g (storage_cleanup db)\<rparr>"
    using claim by (simp add: claim_cleanup_def Let_def)
  have g: "c_id (?g c) = c_id c" "same_target (?g c) d = same_target c d" "job_place (?g c) = job_place c"
    "c_stored_file_id (?g c) = c_stored_file_id c" "c_lease_token (?g c) = Some token" for c d
    by (simp_all add: cleanup_grant_def same_target_def job_place_def)
  have ids: "unique_on c_id (storage_cleanup db')" and places: "unique_on job_place (storage_cleanup db')"
    using t g by (simp_all add: db' tables_ok_def unique_on_update_where)
  have rows: "\<exists>c \<in> set (storage_cleanup db). same_target c d \<and> (c_lease_token d = Some token \<or> c = d)"
    if "d \<in> set (storage_cleanup db')" for d
    using that g by (auto simp: db' set_update_where same_target_def)
  have row_ok: "job_ok (stored_files db) d" if d: "d \<in> set (storage_cleanup db')" for d
  proof -
    obtain c where "c \<in> set (storage_cleanup db)" "same_target c d" using rows [OF d] by blast
    then show ?thesis using j job_ok_cong [of c d "stored_files db"] by (simp add: jobs_ok_def)
  qed
  have "claim_ok (stored_files db) (storage_cleanup db') x" if x: "x \<in> set w" for x
  proof -
    have old: "claim_ok (stored_files db) (storage_cleanup db) x" using j x by (simp add: jobs_ok_def)
    have "same_target d (fst x)" if d: "d \<in> set (storage_cleanup db')" "cleanup_owned (snd x) (c_id (fst x)) d" for d
    proof -
      have "c_lease_token d \<noteq> Some token" using d(2) fresh x by (auto simp: cleanup_owned_def)
      then have "d \<in> set (storage_cleanup db)" using rows [OF d(1)] by blast
      then show ?thesis using old d(2) by (simp add: claim_ok_def)
    qed
    then show ?thesis using old by (simp add: claim_ok_def)
  qed
  moreover have "claim_ok (stored_files db) (storage_cleanup db') (job, token)"
  proof -
    have mem: "job \<in> set (storage_cleanup db')" using get_row_SomeD [OF job] by simp
    have "same_target d job" if "d \<in> set (storage_cleanup db')" "c_id d = c_id job" for d
      using unique_onD [OF ids that(1) mem] that(2) by (simp add: same_target_def)
    then show ?thesis using row_ok [OF mem] by (simp add: claim_ok_def cleanup_owned_def)
  qed
  ultimately have "jobs_ok db' ((job, token) # w)" using row_ok by (simp add: jobs_ok_def db')
  moreover have "pending_ok db'"
  proof -
    have "\<exists>d \<in> set (storage_cleanup db'). job_place d = job_place c \<and> c_stored_file_id d = c_stored_file_id c"
      if "c \<in> set (storage_cleanup db)" for c
      using that g by (intro bexI [of _ "if ?p c then ?g c else c"]) (auto simp: db' set_update_where)
    moreover have "stored_files db' = stored_files db" by (simp add: db')
    ultimately show ?thesis using pe unfolding pending_ok_def by metis
  qed
  moreover have "objects_ok env db' ((job, token) # w) e"
    using o bucket unfolding objects_ok_def by (auto simp: db')
  ultimately show ?thesis
    using t q ids places by (simp add: storage_ok_def db' tables_ok_def quota_ok_def live_bytes_def)
qed

lemma erase_ok:
  assumes ok: "storage_ok env (db, w, e)" and x: "x \<in> set w"
  shows "storage_ok env (store_delete (c_object_key (fst x)) db, w, x # e)"
proof -
  let ?k = "c_object_key (fst x)" and ?db = "store_delete (c_object_key (fst x)) db"
  have t: "tables_ok db" and q: "quota_ok env db" and j: "jobs_ok db w" and pe: "pending_ok db" and o: "objects_ok env db w e"
    using ok by (simp_all add: storage_ok_def)
  have fk: "file_keys (stored_files db)" using t by (simp add: tables_ok_def)
  have objs: "set (bucket_objects ?db) = set (bucket_objects db) - {?k}" by (auto simp: store_delete_def)
  obtain h where h: "h \<in> set (stored_files db)" "file_place h = job_place (fst x)" "closing h"
    using j x by (auto simp: jobs_ok_def claim_ok_def job_ok_def)
  have bucket: "Some (c_bucket (fst x)) = se_r2_bucket_name env" using o x by (simp add: objects_ok_def)
  have keep: "sf_object_key f \<noteq> ?k"
    if "f \<in> set (stored_files db)" "Some (sf_bucket f) = se_r2_bucket_name env" "sf_status f = ''ready''" for f
  proof
    assume "sf_object_key f = ?k"
    then have "file_place f = file_place h" using that(2) bucket h(2) by (metis file_place_def job_place_def option.inject)
    then have "f = h" using same_file(2) [OF fk that(1) h(1)] by simp
    then show False using that(3) h(3) by (simp add: closing_def)
  qed
  have "objects_ok env ?db w (x # e)"
    using o x keep unfolding objects_ok_def objs by (simp add: store_delete_def)
  then show ?thesis
    using t q j pe
    by (simp add: storage_ok_def store_delete_def tables_ok_def quota_ok_def live_bytes_def jobs_ok_def pending_ok_def)
qed

lemma retry_ok:
  assumes ok: "storage_ok env (db, w, e)"
  shows "storage_ok env (retry_cleanup now token job db, w, e)"
proof -
  have t: "tables_ok db" and q: "quota_ok env db" and j: "jobs_ok db w" and pe: "pending_ok db" and o: "objects_ok env db w e"
    using ok by (simp_all add: storage_ok_def)
  let ?p = "cleanup_owned token (c_id job)"
  let ?g = "\<lambda>c. c\<lparr>c_not_before := now + retry_delay (c_attempts job), c_lease_token := None, c_lease_until := None,
                 c_error_code := Some ''object_delete_failed''\<rparr>"
  define db' where "db' = retry_cleanup now token job db"
  have db': "db' = db\<lparr>storage_cleanup := update_where ?p ?g (storage_cleanup db)\<rparr>"
    by (simp add: db'_def retry_cleanup_def)
  have g: "like c (if ?p c then ?g c else c)" for c by (simp add: like_def same_target_def job_place_def)
  have "jobs_ok db' w"
  proof (rule jobs_ok_rows [OF j])
    fix d assume "d \<in> set (storage_cleanup db')"
    then obtain c where "c \<in> set (storage_cleanup db)" "d = (if ?p c then ?g c else c)"
      by (auto simp: db' set_update_where)
    then show "(\<exists>c \<in> set (storage_cleanup db). like c d) \<or> (c_lease_token d = None \<and> job_ok (stored_files db) d)"
      using g by blast
  qed (simp add: db')
  moreover have "pending_ok db'"
  proof -
    have "\<exists>d \<in> set (storage_cleanup db'). job_place d = job_place c \<and> c_stored_file_id d = c_stored_file_id c"
      if "c \<in> set (storage_cleanup db)" for c
    proof -
      have "storage_cleanup db' = update_where ?p ?g (storage_cleanup db)" by (simp add: db')
      then have "(if ?p c then ?g c else c) \<in> set (storage_cleanup db')" using update_where_mem [OF that, of ?p ?g] by (simp only:)
      then obtain d where "d \<in> set (storage_cleanup db')" "like c d" using g by blast
      then show ?thesis by (auto simp: like_def same_target_def)
    qed
    moreover have "stored_files db' = stored_files db" by (simp add: db')
    ultimately show ?thesis using pe unfolding pending_ok_def by metis
  qed
  moreover have "unique_on c_id (storage_cleanup db')" "unique_on job_place (storage_cleanup db')"
    using t by (simp_all add: db' tables_ok_def unique_on_update_where job_place_def)
  ultimately have "storage_ok env (db', w, e)"
    using t q o by (simp add: storage_ok_def db' tables_ok_def quota_ok_def live_bytes_def objects_ok_def)
  then show ?thesis by (simp add: db'_def)
qed

lemma release_file_ok:
  assumes ok: "storage_ok env (db, w, e)" and x: "x \<in> set e"
  shows "\<exists>db1. release_file (c_stored_file_id (fst x)) db = Inr db1 \<and> tables_ok db1 \<and> quota_ok env db1 \<and> jobs_ok db1 w
    \<and> objects_ok env db1 w e \<and> storage_cleanup db1 = storage_cleanup db
    \<and> (\<forall>f \<in> set (stored_files db1). sf_status f = ''delete_pending''
         \<longrightarrow> f \<in> set (stored_files db) \<and> Some (sf_id f) \<noteq> c_stored_file_id (fst x))"
proof -
  have t: "tables_ok db" and q: "quota_ok env db" and j: "jobs_ok db w" and o: "objects_ok env db w e"
    using ok by (simp_all add: storage_ok_def)
  have fk: "file_keys (stored_files db)" and ids: "unique_on sf_id (stored_files db)"
    using t by (simp_all add: tables_ok_def file_keys_def)
  have xw: "x \<in> set w" using o x by (auto simp: objects_ok_def)
  obtain h where h: "h \<in> set (stored_files db)" "file_place h = job_place (fst x)" "closing h"
    and sid: "\<forall>i. c_stored_file_id (fst x) = Some i \<longrightarrow> i = sf_id h"
    using j xw by (auto simp: jobs_ok_def claim_ok_def job_ok_def)
  show ?thesis
  proof (cases "c_stored_file_id (fst x)")
    case None
    then show ?thesis using t q j o by (simp add: release_file_def)
  next
    case (Some i)
    then have i: "i = sf_id h" using sid by blast
    have get: "get_file i db = Some h" using get_row_unique [OF ids h(1)] by (simp add: get_file_def i)
    have nonempty: "i \<noteq> ''''" using t h(1) i by (simp add: tables_ok_def)
    let ?p = "\<lambda>g. sf_id g = sf_id h \<and> sf_status g = ''delete_pending''"
    let ?g = "\<lambda>g. g\<lparr>sf_status := ''deleted'', sf_owner_user_id := '''', sf_filename := '''', sf_sha256 := '''', sf_content_type := ''''\<rparr>"
    have only: "g = h" if "g \<in> set (stored_files db)" "sf_id g = sf_id h" for g using same_file(1) [OF fk that(1) h(1)] that(2) .
    show ?thesis
    proof (cases "sf_status h = ''delete_pending''")
      case False
      then have "\<not> ?p g" if "g \<in> set (stored_files db)" for g using only that by blast
      then have none: "rowcount ?p (stored_files db) = 0" using rowcount_pos [of ?p "stored_files db"] by blast
      have "release_file (Some i) db = Inr db"
        using get nonempty none update_where_none [OF none, of ?g] by (simp add: release_file_def Let_def)
      moreover have "Some (sf_id f) \<noteq> Some i" if "f \<in> set (stored_files db)" "sf_status f = ''delete_pending''" for f
        using only that False i by auto
      ultimately show ?thesis using t q j o Some by auto
    next
      case True
      have one: "rowcount ?p (stored_files db) = 1"
        using rowcount_one_iff [OF ids, of ?p "sf_id h"] h(1) True by auto
      have size: "sf_byte_size h \<le> live_bytes db"
        using fk h(1) True by (auto simp: live_bytes_def file_keys_def intro!: sum_where_member)
      have quota: "storage_quota db = [\<lparr>q_id = 1, q_used_bytes = live_bytes db\<rparr>]" "live_bytes db \<le> se_storage_max_bytes env"
        using q h(1) by (auto simp: quota_ok_def)
      define db1 where "db1 = db\<lparr>stored_files := update_where ?p ?g (stored_files db),
          storage_quota := [\<lparr>q_id = 1, q_used_bytes = live_bytes db - sf_byte_size h\<rparr>]\<rparr>"
      have rel: "release_file (Some i) db = Inr db1"
        using get nonempty one size by (simp add: release_file_def Let_def quota(1) rowcount_def [of _ "[_]"] update_where_def [of _ _ "[_]"] db1_def)
      have files: "set (stored_files db1) = insert (?g h) (set (stored_files db) - {h})"
        unfolding db1_def using only True by (simp, intro set_update_one [OF h(1)]) auto
      have live: "live_bytes db1 = live_bytes db - sf_byte_size h"
        using sum_where_update_one [OF ids h(1), of ?p "\<lambda>f. sf_status f \<noteq> ''deleted''" sf_byte_size ?g] True
        by (simp add: live_bytes_def db1_def)
      have "0 \<le> sf_byte_size h" using fk h(1) by (simp add: file_keys_def)
      then have "quota_ok env db1" using live quota(2) by (simp add: quota_ok_def db1_def)
      moreover have "tables_ok db1"
        by (rule tables_ok_files [OF t, of _ ?p ?g]) (simp_all add: db1_def file_place_def)
      moreover have "jobs_ok db1 w"
      proof (rule jobs_ok_files [OF j])
        show "job_ok (stored_files db1) c" if "job_ok (stored_files db) c" for c
          using job_ok_update [OF _ that, of ?p ?g] by (simp add: db1_def file_place_def closing_def)
      qed (simp add: db1_def)
      moreover have "objects_ok env db1 w e"
      proof -
        have key: "sf_object_key h = c_object_key (fst x)" using h(2) by (simp add: file_place_def job_place_def)
        have "is_original (sf_object_key h) \<longrightarrow> sf_object_key h \<notin> set (bucket_objects db)"
          using o x key by (simp add: objects_ok_def)
        then show ?thesis using o unfolding objects_ok_def files by (simp add: db1_def)
      qed
      moreover have "f \<in> set (stored_files db) \<and> Some (sf_id f) \<noteq> Some i"
        if "f \<in> set (stored_files db1)" "sf_status f = ''delete_pending''" for f
        using that only i unfolding files by auto
      ultimately show ?thesis using rel Some by (intro exI [of _ db1]) (simp add: db1_def)
    qed
  qed
qed

lemma finish_cleanup_ok:
  assumes ok: "storage_ok env (db, w, e)" and x: "(job, token) \<in> set e" and fin: "finish_cleanup now token job db = (r, db')"
  shows "storage_ok env (db', w, e)" and "is_ok r"
proof -
  obtain db1 where rel: "release_file (c_stored_file_id job) db = Inr db1" and t: "tables_ok db1" and q: "quota_ok env db1"
    and j: "jobs_ok db1 w" and o: "objects_ok env db1 w e" and cl: "storage_cleanup db1 = storage_cleanup db"
    and pend: "\<forall>f \<in> set (stored_files db1). sf_status f = ''delete_pending''
         \<longrightarrow> f \<in> set (stored_files db) \<and> Some (sf_id f) \<noteq> c_stored_file_id job"
    using release_file_ok [OF ok x] by auto
  let ?p = "cleanup_owned token (c_id job)"
  let ?db2 = "db1\<lparr>storage_cleanup := delete_where ?p (storage_cleanup db1)\<rparr>"
  have out: "(r, db') = (if rowcount ?p (storage_cleanup db) \<noteq> 1 then (Inr False, db) else (Inr True, ?db2))"
    using fin rel by (auto simp: finish_cleanup_def split: if_splits)
  have xw: "(job, token) \<in> set w" using ok x by (auto simp: storage_ok_def objects_ok_def)
  have target: "c_stored_file_id c = c_stored_file_id job" if "c \<in> set (storage_cleanup db)" "?p c" for c
  proof -
    have "claim_ok (stored_files db) (storage_cleanup db) (job, token)" using ok xw by (simp add: storage_ok_def jobs_ok_def)
    then show ?thesis using that by (simp add: claim_ok_def same_target_def)
  qed
  have "pending_ok ?db2"
    unfolding pending_ok_def
  proof (intro ballI impI)
    fix f assume f: "f \<in> set (stored_files ?db2)" "sf_status f = ''delete_pending''"
    then have old: "f \<in> set (stored_files db)" "Some (sf_id f) \<noteq> c_stored_file_id job" using pend by auto
    then obtain c where c: "c \<in> set (storage_cleanup db)" "job_place c = file_place f" "c_stored_file_id c = Some (sf_id f)"
      using ok f(2) by (auto simp: storage_ok_def pending_ok_def)
    then have "\<not> ?p c" using target [OF c(1)] old(2) by auto
    then show "\<exists>c \<in> set (storage_cleanup ?db2). job_place c = file_place f \<and> c_stored_file_id c = Some (sf_id f)"
      using c cl by auto
  qed
  moreover have "jobs_ok ?db2 w"
    by (rule jobs_ok_rows [OF j]) (auto simp: like_def same_target_def)
  moreover have "tables_ok ?db2" using t by (simp add: tables_ok_def unique_on_delete)
  ultimately have "storage_ok env (?db2, w, e)"
    using q o by (simp add: storage_ok_def quota_ok_def live_bytes_def objects_ok_def)
  then show "storage_ok env (db', w, e)" using out ok by (auto split: if_splits)
  show "is_ok r" using out by (auto split: if_splits)
qed

lemma reserve_upload_ok:
  assumes ok: "storage_ok env (db, w, e)" and "i \<noteq> ''''" and "j \<noteq> ''''"
    and res: "reserve_upload env i j nid now owner n sha name ctype db = Inr db'"
  shows "storage_ok env (db', w, e)"
proof -
  obtain f db1 g db2 where r1: "reserve_file env i now owner n sha name ctype db = Inr (f, db1)"
    and r2: "reserve_file env j now owner n sha name ctype db1 = Inr (g, db2)"
    and keys: "file_keys (update_where (\<lambda>f. sf_id f = j) (\<lambda>f. f\<lparr>sf_object_key := ''staging/'' @ j\<rparr>) (stored_files db2))"
    and sched: "schedule_file_cleanup nid now j (Some (now + hours 1 + minutes 2))
      (db2\<lparr>stored_files := update_where (\<lambda>f. sf_id f = j) (\<lambda>f. f\<lparr>sf_object_key := ''staging/'' @ j\<rparr>) (stored_files db2)\<rparr>) = Inr db'"
    using res by (auto simp: reserve_upload_def res_bind_ok Let_def split: if_splits)
  note g = reserve_file_ok [OF reserve_file_ok(1) [OF ok assms(2) r1] assms(3) r2]
  show ?thesis using rekey_ok [OF g keys] sched by (rule schedule_file_cleanup_ok)
qed

lemma storage_step_ok: "storage_step env s s' \<Longrightarrow> storage_ok env s \<Longrightarrow> storage_ok env s'"
proof (induction rule: storage_step.induct)
  case (st_seal original db ok now db' w e)
  then show ?case
    by (auto simp: seal_original_def res_bind_ok split: if_splits intro: publish_ok)
next
  case (st_copy destination db ok now source db' w e)
  then show ?case
    by (auto simp: copy_reserved_file_def store_copy_def res_bind_ok split: if_splits intro: publish_ok)
next
  case (st_expire fresh now db db' w e)
  then show ?case using expire_files_ok unfolding expire_reservations_def by blast
next
  case (st_client_put db w e i)
  have "\<not> is_original (''staging/'' @ i)" by (simp add: is_original_def)
  then show ?case using st_client_put
    by (auto simp: storage_ok_def tables_ok_def quota_ok_def live_bytes_def jobs_ok_def pending_ok_def objects_ok_def)
next
  case (st_erase job token w db e)
  then show ?case using erase_ok [of env db w e "(job, token)"] by simp
qed (auto intro: reserve_file_ok(1) reserve_upload_ok schedule_file_cleanup_ok request_cleanup_ok claim_cleanup_ok
    retry_ok finish_cleanup_ok(1))

definition storage_init :: "storage_db \<times> claim list \<times> claim list \<Rightarrow> bool" where
  "storage_init s \<longleftrightarrow> s = (\<lparr>stored_files = [], storage_quota = [], storage_cleanup = [], bucket_objects = []\<rparr>, [], [])"

lemma storage_init_ok: "storage_init s \<Longrightarrow> storage_ok env s"
  by (simp add: storage_init_def storage_ok_def tables_ok_def quota_ok_def jobs_ok_def pending_ok_def objects_ok_def
      file_keys_def unique_on_def)

interpretation storage: invariant_system storage_init "storage_step env" "storage_ok env" for env
  by unfold_locales (auto intro: storage_init_ok storage_step_ok)

text \<open>
  C34. Whatever uploads, copies, deletions and concurrent sweeps do, the recorded usage is exactly the size
  of all files not yet erased and never exceeds the configured capacity; and every file waiting for
  deletion has a cleanup job of its own, so its capacity is not leaked.
\<close>

theorem storage_accounting:
  assumes "reachable storage_init (storage_step env) (db, held, erased)"
  shows "(storage_quota db = [] \<and> stored_files db = []
      \<or> storage_quota db = [\<lparr>q_id = 1, q_used_bytes = live_bytes db\<rparr>] \<and> live_bytes db \<le> se_storage_max_bytes env)
    \<and> (\<forall>f \<in> set (stored_files db). sf_status f = ''delete_pending'' \<longrightarrow>
         (\<exists>c \<in> set (storage_cleanup db). job_place c = file_place f \<and> c_stored_file_id c = Some (sf_id f)))"
  using storage.reachable_inv [OF assms] by (simp add: storage_ok_def quota_ok_def pending_ok_def)


section \<open>A whole sweep\<close>











section \<open>Instances\<close>

definition sample_storage_env :: storage_env where
  "sample_storage_env = \<lparr>se_storage_provider = ''r2'', se_r2_bucket_name = Some ''b'', se_storage_max_bytes = 100\<rparr>"

definition empty_storage :: storage_db where
  "empty_storage = \<lparr>stored_files = [], storage_quota = [], storage_cleanup = [], bucket_objects = []\<rparr>"

definition res_or :: "('e, 's) res \<Rightarrow> 's \<Rightarrow> 's" where
  "res_or r s = (case r of Inl _ \<Rightarrow> s | Inr s' \<Rightarrow> s')"

lemma res_or_run: "is_ok r \<Longrightarrow> r = Inr (res_or r s)"
  by (auto simp: res_or_def elim: is_okE)

definition sample_reserved :: storage_db where
  "sample_reserved = snd (res_or (reserve_file sample_storage_env ''f1'' 0 ''u'' 40 ''h'' ''n'' ''t'' empty_storage)
     (undefined, empty_storage))"

definition sample_original :: StoredFileModel where
  "sample_original = hd (stored_files sample_reserved)"

definition sample_sealed :: storage_db where
  "sample_sealed = res_or (seal_original True 1 sample_original sample_reserved) sample_reserved"

definition sample_scheduled :: storage_db where
  "sample_scheduled = res_or (schedule_file_cleanup ''c1'' 2 ''f1'' None sample_sealed) sample_sealed"

lemma sample_storage_runs:
  "reserve_file sample_storage_env ''f1'' 0 ''u'' 40 ''h'' ''n'' ''t'' empty_storage = Inr (sample_original, sample_reserved)"
  "seal_original True 1 sample_original sample_reserved = Inr sample_sealed"
  "schedule_file_cleanup ''c1'' 2 ''f1'' None sample_sealed = Inr sample_scheduled"
proof -
  let ?r = "reserve_file sample_storage_env ''f1'' 0 ''u'' 40 ''h'' ''n'' ''t'' empty_storage"
  have ok: "is_ok ?r" and first: "fst (projr ?r) = hd (stored_files (snd (projr ?r)))" by code_simp+
  obtain f db where r: "?r = Inr (f, db)" using ok by (metis is_okE surj_pair)
  then have "sample_reserved = db" by (simp add: sample_reserved_def res_or_def)
  then show "?r = Inr (sample_original, sample_reserved)" using first r by (simp add: sample_original_def)
  show "seal_original True 1 sample_original sample_reserved = Inr sample_sealed"
    unfolding sample_sealed_def by (rule res_or_run) code_simp
  show "schedule_file_cleanup ''c1'' 2 ''f1'' None sample_sealed = Inr sample_scheduled"
    unfolding sample_scheduled_def by (rule res_or_run) code_simp
qed

lemma sample_storage_reachable:
  "reachable storage_init (storage_step sample_storage_env) (sample_sealed, [], [])"
  "reachable storage_init (storage_step sample_storage_env) (sample_scheduled, [], [])"
proof -
  have "reachable storage_init (storage_step sample_storage_env) (empty_storage, [], [])"
    by (rule reachable.start) (simp add: storage_init_def empty_storage_def)
  then have res: "reachable storage_init (storage_step sample_storage_env) (sample_reserved, [], [])"
    using st_reserve [OF _ sample_storage_runs(1)] by (rule reachable.next_state) simp
  have orig: "sample_original \<in> set (stored_files sample_reserved)" "Some (sf_bucket sample_original) = se_r2_bucket_name sample_storage_env"
    by code_simp+
  show sealed: "reachable storage_init (storage_step sample_storage_env) (sample_sealed, [], [])"
    using res st_seal [OF orig sample_storage_runs(2)] by (rule reachable.next_state)
  show "reachable storage_init (storage_step sample_storage_env) (sample_scheduled, [], [])"
    using sealed st_schedule [OF sample_storage_runs(3)] by (rule reachable.next_state)
qed

theorem storage_accounting_witness:
  "live_bytes sample_sealed = 40 \<and> live_bytes sample_sealed \<le> se_storage_max_bytes sample_storage_env"
proof -
  have "stored_files sample_sealed \<noteq> []" "live_bytes sample_sealed = 40" by code_simp+
  then show ?thesis using storage_accounting [OF sample_storage_reachable(1)] by simp
qed



end
