(* ===== verification/Text_Model.thy ===== *)
theory Text_Model
  imports Agents_Prelude "HOL-Library.Sublist"
begin

text \<open>
  Text as the retrieval components read it. A string is the list of its UTF-8 bytes; Python's \<open>len\<close>,
  indexing and slicing count code points, which are the groups of bytes computed here. Comparison,
  concatenation and the substring test agree on both readings. The sources recognise words in Latin
  letters, digits and Hangul syllables; text is read as consisting of these, ASCII punctuation and
  ASCII white space, where NFKC normalisation is the identity and \<open>casefold\<close> lower-cases A to Z.
\<close>

section \<open>Code points\<close>

abbreviation byte :: "char \<Rightarrow> nat" where
  "byte c \<equiv> of_char c"

definition trailing_bytes :: "char \<Rightarrow> nat" where
  "trailing_bytes c = (if byte c < 192 then 0 else if byte c < 224 then 1 else if byte c < 240 then 2 else 3)"

fun code_points :: "string \<Rightarrow> string list" where
  "code_points [] = []"
| "code_points (c # cs) = (c # take (trailing_bytes c) cs) # code_points (drop (trailing_bytes c) cs)"

lemma concat_code_points [simp]: "concat (code_points s) = s"
  by (induction s rule: code_points.induct) simp_all

definition py_len :: "string \<Rightarrow> nat" where
  "py_len s = length (code_points s)"

definition py_slice :: "nat \<Rightarrow> nat \<Rightarrow> string \<Rightarrow> string" where
  "py_slice start stop s = concat (drop start (take stop (code_points s)))"

lemma py_len_Nil [simp]: "py_len [] = 0"
  by (simp add: py_len_def)

lemma py_len_zero [simp]: "py_len s = 0 \<longleftrightarrow> s = []"
  by (cases s) (simp_all add: py_len_def)

lemma py_slice_all [simp]: "py_slice 0 (py_len s) s = s"
  by (simp add: py_slice_def py_len_def)

lemma py_slice_append: "i \<le> j \<Longrightarrow> j \<le> k \<Longrightarrow> py_slice i j s @ py_slice j k s = py_slice i k s"
proof -
  assume ij: "i \<le> j" and jk: "j \<le> k"
  let ?g = "code_points s"
  have "take k ?g = take j ?g @ drop j (take k ?g)" using jk by (metis append_take_drop_id min.absorb1 take_take)
  then have "drop i (take k ?g) = drop i (take j ?g) @ drop (i - length (take j ?g)) (drop j (take k ?g))"
    by (metis drop_append)
  moreover have "drop (i - length (take j ?g)) (drop j (take k ?g)) = drop j (take k ?g)"
    using ij by (cases "j \<le> length ?g") auto
  ultimately show ?thesis by (simp add: py_slice_def flip: concat_append)
qed

text \<open>Every code point of a slice is one of the text, and the slice has as many as the bounds say.\<close>

lemma code_points_concat_take: "code_points (concat (take n (code_points s))) = take n (code_points s)"
proof (induction s arbitrary: n rule: code_points.induct)
  case (2 c cs)
  show ?case
  proof (cases n)
    case (Suc m)
    let ?t = "trailing_bytes c" and ?rest = "concat (take m (code_points (drop (trailing_bytes c) cs)))"
    have short: "?rest = []" if "length cs < ?t" using that by simp
    have "take ?t (take ?t cs @ ?rest) = take ?t cs" "drop ?t (take ?t cs @ ?rest) = ?rest"
      using short by (cases "length cs < ?t"; simp)+
    then show ?thesis using 2 by (simp add: Suc)
  qed simp
qed simp

lemma code_points_concat_drop: "code_points (concat (drop n (code_points s))) = drop n (code_points s)"
proof (induction s arbitrary: n rule: code_points.induct)
  case (2 c cs)
  then show ?case by (cases n) simp_all
qed simp

lemma code_points_slice: "code_points (py_slice start stop s) = drop start (take stop (code_points s))"
  using code_points_concat_drop [of start "concat (take stop (code_points s))"]
  by (simp only: py_slice_def code_points_concat_take)

lemma py_len_slice: "start \<le> stop \<Longrightarrow> py_len (py_slice start stop s) = min stop (py_len s) - min start (py_len s)"
  by (simp add: py_len_def code_points_slice min_def)

section \<open>Substrings and words\<close>

fun contains :: "string \<Rightarrow> string \<Rightarrow> bool" where
  "contains sub [] = (sub = [])"
| "contains sub (c # cs) = (take (length sub) (c # cs) = sub \<or> contains sub cs)"

lemma contains_iff: "contains sub s \<longleftrightarrow> sublist sub s"
proof (induction s)
  case (Cons c cs)
  have "take (length sub) (c # cs) = sub \<longleftrightarrow> prefix sub (c # cs)"
    by (metis append_eq_conv_conj prefix_def take_is_prefix)
  then show ?case using Cons by (simp add: sublist_Cons_right)
qed simp

definition has_any :: "string \<Rightarrow> string list \<Rightarrow> bool" where
  "has_any value hints = list_ex (\<lambda>hint. contains hint value) hints"

text \<open>The maximal stretches satisfying a predicate: \<open>str.split()\<close> and \<open>re.findall\<close> of a character class.\<close>

function runs :: "('b \<Rightarrow> bool) \<Rightarrow> 'b list \<Rightarrow> 'b list list" where
  "runs p [] = []"
| "runs p (x # xs) = (if p x then (x # takeWhile p xs) # runs p (dropWhile p xs) else runs p xs)"
  by pat_completeness auto
termination by (relation "measure (\<lambda>(_, xs). length xs)") (auto simp: le_imp_less_Suc length_dropWhile_le)

lemma concat_runs: "concat (runs p xs) = filter p xs"
proof (induction p xs rule: runs.induct)
  case (2 p x xs)
  have "takeWhile p xs @ filter p (dropWhile p xs) = filter p xs"
    by (induction xs) auto
  then show ?case using 2 by auto
qed simp

lemma runs_members: "w \<in> set (runs p xs) \<Longrightarrow> w \<noteq> [] \<and> (\<forall>x \<in> set w. p x)"
proof (induction p xs rule: runs.induct)
  case (2 p x xs)
  then show ?case by (cases "p x") (auto dest: set_takeWhileD)
qed simp

definition py_split :: "string \<Rightarrow> string list" where
  "py_split s = runs (\<lambda>c. \<not> py_space c) s"

text \<open>\<open>str.splitlines\<close>, with the line boundaries of ASCII.\<close>

definition line_break :: "char \<Rightarrow> bool" where
  "line_break c \<longleftrightarrow> c \<in> set [CHR 0x0A, CHR 0x0B, CHR 0x0C, CHR 0x0D, CHR 0x1C, CHR 0x1D, CHR 0x1E]"

fun splitlines_from :: "string \<Rightarrow> string \<Rightarrow> string list" where
  "splitlines_from line [] = (if line = '''' then [] else [line])"
| "splitlines_from line (c # cs) =
     (if line_break c
      then line # splitlines_from '''' (if c = CHR 0x0D \<and> take 1 cs = [CHR 0x0A] then drop 1 cs else cs)
      else splitlines_from (line @ [c]) cs)"

definition py_splitlines :: "string \<Rightarrow> string list" where
  "py_splitlines s = splitlines_from '''' s"

fun py_join :: "string \<Rightarrow> string list \<Rightarrow> string" where
  "py_join sep [] = ''''"
| "py_join sep [x] = x"
| "py_join sep (x # y # ys) = x @ sep @ py_join sep (y # ys)"

definition ascii_alnum :: "char \<Rightarrow> bool" where
  "ascii_alnum c \<longleftrightarrow> 48 \<le> byte c \<and> byte c \<le> 57 \<or> 65 \<le> byte c \<and> byte c \<le> 90 \<or> 97 \<le> byte c \<and> byte c \<le> 122"

definition ascii_digit :: "char \<Rightarrow> bool" where
  "ascii_digit c \<longleftrightarrow> 48 \<le> byte c \<and> byte c \<le> 57"

text \<open>The syllables from U+AC00 to U+D7A3, three bytes each.\<close>

fun hangul_syllable :: "string \<Rightarrow> bool" where
  "hangul_syllable [a, b, c] \<longleftrightarrow>
     224 \<le> byte a \<and> byte a < 240 \<and> 128 \<le> byte b \<and> byte b < 192 \<and> 128 \<le> byte c \<and> byte c < 192
     \<and> 44032 \<le> (byte a - 224) * 4096 + (byte b - 128) * 64 + (byte c - 128)
     \<and> (byte a - 224) * 4096 + (byte b - 128) * 64 + (byte c - 128) \<le> 55203"
| "hangul_syllable _ \<longleftrightarrow> False"

definition word_point :: "string \<Rightarrow> bool" where
  "word_point g \<longleftrightarrow> (case g of [c] \<Rightarrow> ascii_alnum c | _ \<Rightarrow> hangul_syllable g)"

text \<open>The words of a text: \<open>re.findall\<close> of the class of Latin letters, digits and Hangul syllables.\<close>

definition find_words :: "string \<Rightarrow> string list" where
  "find_words value = map concat (runs word_point (code_points value))"

end
