(* ===== verification/Context_Pipeline.thy ===== *)
theory Context_Pipeline
  imports Context_Fusion Knowledge_Auth Text_Model
begin

text \<open>
  The retrieval pipeline after planning: gathering, fusion, reranking and packing
  (\<open>agents/context_forge/\<close>: \<open>candidates.py\<close>, \<open>reranking.py\<close>, \<open>packing.py\<close>, \<open>source_policy.py\<close>,
  \<open>observability.py\<close>, \<open>service.py\<close>), and the token windows of \<open>knowledge/evidence_windows.py\<close>.
  The planner, the retrieval queries, the tokenizer, the scoring models and the clock are arguments;
  whatever they answer or refuse, the theorems hold.
\<close>

section \<open>Plans and results\<close>

record CandidateLimits =
  cl_vector_limit :: nat
  cl_lexical_limit :: nat
  cl_structured_limit :: nat
  cl_rerank_limit :: nat
  cl_injected_limit :: nat
  cl_char_budget :: nat

record RetrievalRoutingDecision =
  rd_route :: string
  rd_reason :: string
  rd_rewritten_query :: string
  rd_document_scope :: string

record RetrievalPlan =
  pl_intent :: string
  pl_original_query :: string
  pl_rewritten_query :: string
  pl_route_decision :: RetrievalRoutingDecision
  pl_structured_entity_types :: "string list"
  pl_limits :: CandidateLimits

record ContextForgeRequest =
  cf_user_id :: ident
  cf_query :: string
  cf_selection_context :: KnowledgeBaseSelectionContext
  cf_selected_document_id :: "ident option"
  cf_force_retrieval :: bool

record RejectedCandidateSummary =
  rj_chunk_id :: ident
  rj_document_id :: ident
  rj_reason :: string

record RetrievalEvidence =
  ev_intent :: string
  ev_candidate_count :: nat
  ev_injected_count :: nat
  ev_rejected_count :: nat
  ev_source_counts :: "(string \<times> nat) list"
  ev_structured_entity_types :: "string list"
  ev_reranker :: string
  ev_budget_truncated :: bool

record 's ContextForgeResult =
  fr_plan :: RetrievalPlan
  fr_decision :: RetrievalRoutingDecision
  fr_answer_mode :: string
  fr_retrieved_chunks :: "'s RetrievedChunk list"
  fr_evidence :: RetrievalEvidence
  fr_rejected_candidates :: "RejectedCandidateSummary list"

section \<open>Token windows\<close>

record tokenizer =
  tk_encode :: "string \<Rightarrow> nat list"
  tk_pair_size :: "string \<Rightarrow> string \<Rightarrow> int"
  tk_decode :: "nat list \<Rightarrow> string"
  tk_pair_specials :: int

definition slice :: "int \<Rightarrow> int \<Rightarrow> 'b list \<Rightarrow> 'b list" where
  "slice start stop xs = drop (nat start) (take (nat stop) xs)"

text \<open>The largest stretch from \<open>start\<close> that fits together with the query; \<open>None\<close> is the \<open>ValueError\<close>.\<close>

function fit_window :: "tokenizer \<Rightarrow> string \<Rightarrow> int \<Rightarrow> nat list \<Rightarrow> int \<Rightarrow> int \<Rightarrow> (string \<times> int) option" where
  "fit_window tk query max_length ids start stop =
     (if start < stop
      then let window = tk_decode tk (slice start stop ids); size = tk_pair_size tk query window
           in if size \<le> max_length then Some (window, stop)
              else fit_window tk query max_length ids start (stop - max 1 (size - max_length))
      else None)"
  by pat_completeness auto
termination by (relation "measure (\<lambda>(_, _, _, _, start, stop). nat (stop - start))") auto

declare fit_window.simps [simp del]

function windows_from ::
  "tokenizer \<Rightarrow> string \<Rightarrow> int \<Rightarrow> int \<Rightarrow> nat list \<Rightarrow> int \<Rightarrow> string list \<Rightarrow> string list option" where
  "windows_from tk query max_length available ids start windows =
     (if start < int (length ids)
      then if length windows \<ge> 16 then None
           else (case fit_window tk query max_length ids start (min (int (length ids)) (start + available)) of
                   None \<Rightarrow> None
                 | Some (window, stop) \<Rightarrow>
                     if stop = int (length ids) then Some (windows @ [window])
                     else windows_from tk query max_length available ids
                            (max (start + 1) (stop - min 32 (available div 4))) (windows @ [window]))
      else Some windows)"
  by pat_completeness auto
termination by (relation "measure (\<lambda>(_, _, _, _, ids, start, _). nat (int (length ids) - start))") auto

declare windows_from.simps [simp del]

definition cross_encoder_windows :: "tokenizer \<Rightarrow> string \<Rightarrow> string \<Rightarrow> int \<Rightarrow> string list option" where
  "cross_encoder_windows tk text query max_length =
     (if \<not> (1 \<le> max_length \<and> max_length \<le> 100000) then None
      else
        let available = max_length - int (length (tk_encode tk query)) - tk_pair_specials tk;
            ids = tk_encode tk text
        in if available < 1 then None
           else if ids = [] then Some ['''']
           else windows_from tk query max_length available ids 0 [])"

section \<open>Rerankers\<close>

definition candidate_text :: "'s RetrievalCandidate \<Rightarrow> string" where
  "candidate_text c = py_strip (ch_content (rc_chunk (cd_chunk c)))"

definition effective_score :: "'s RetrievalCandidate \<Rightarrow> 's" where
  "effective_score c = (case cd_rerank_score c of None \<Rightarrow> cd_score c | Some s \<Rightarrow> s)"

definition sort_candidates :: "'s::linorder RetrievalCandidate list \<Rightarrow> 's RetrievalCandidate list" where
  "sort_candidates cs = sort_key (\<lambda>c. (Desc (effective_score c), ch_ordinal (rc_chunk (cd_chunk c)))) cs"

text \<open>A reranker returns the candidates and the name under which the run is recorded.\<close>

type_synonym 's ranked = "'s RetrievalCandidate list \<times> string"

definition deterministic_rerank :: "RetrievalPlan \<Rightarrow> 's::linorder RetrievalCandidate list \<Rightarrow> 's ranked" where
  "deterministic_rerank plan candidates = (sort_candidates candidates, ''deterministic'')"

record 's cross_encoder =
  ce_model_name :: string
  ce_tokenizer :: tokenizer
  ce_max_length :: int
  ce_predict :: "(string \<times> string) list \<Rightarrow> 's list option"
  ce_finite :: "'s \<Rightarrow> bool"

fun group_max :: "'s::linorder list \<Rightarrow> 's" where
  "group_max (x # xs) = foldl max x xs"

fun group_scores :: "'b list list \<Rightarrow> 's::linorder list \<Rightarrow> 's list" where
  "group_scores [] raw = []"
| "group_scores (g # gs) raw = group_max (take (length g) raw) # group_scores gs (drop (length g) raw)"

definition cross_scored :: "string \<Rightarrow> 's RetrievalCandidate \<Rightarrow> 's \<Rightarrow> string list \<Rightarrow> 's RetrievalCandidate" where
  "cross_scored model_name c score ws = c\<lparr>cd_rerank_score := Some score,
     cd_reasons := cd_reasons c
       @ (if length ws > 1 then [''cross_encoder:windows:'' @ py_str_int (int (length ws))] else [])
       @ [''cross_encoder:'' @ model_name]\<rparr>"

text \<open>The outcome of a reranker with a fallback: \<open>None\<close> keeps the fused order.\<close>

definition cross_encoder_scored ::
  "'s::linorder cross_encoder \<Rightarrow> RetrievalPlan \<Rightarrow> 's RetrievalCandidate list \<Rightarrow> 's RetrievalCandidate list option" where
  "cross_encoder_scored ce plan candidates =
     (let groups = map (\<lambda>c. cross_encoder_windows (ce_tokenizer ce) (candidate_text c) (pl_rewritten_query plan) (ce_max_length ce))
                     candidates
      in if None \<in> set groups then None
         else
           let windows = map the groups;
               pairs = concat (map (map (Pair (pl_rewritten_query plan))) windows)
           in case ce_predict ce pairs of
                None \<Rightarrow> None
              | Some raw \<Rightarrow>
                  if length raw \<noteq> length pairs \<or> \<not> list_all (ce_finite ce) raw then None
                  else Some (sort_candidates (map (\<lambda>(c, score, ws). cross_scored (ce_model_name ce) c score ws)
                              (zip candidates (zip (group_scores windows raw) windows)))))"

definition cross_encoder_rerank ::
  "'s::linorder cross_encoder \<Rightarrow> RetrievalPlan \<Rightarrow> 's RetrievalCandidate list \<Rightarrow> 's ranked" where
  "cross_encoder_rerank ce plan candidates =
     (if candidates = [] then ([], ''cross_encoder'')
      else case cross_encoder_scored ce plan candidates of
             None \<Rightarrow> (candidates, ''cross_encoder_fallback_deterministic'')
           | Some scored \<Rightarrow> (scored, ''cross_encoder''))"

datatype 's score_value = NotAScore | ScoreValue 's

datatype 's score_answer = ProviderError | Unavailable | Scores "(string \<times> 's score_value) list"

type_synonym jev_record = "string \<times> string \<times> bool"

record 's jev_env =
  je_model :: string
  je_offline :: bool
  je_has_key :: bool
  je_timeout :: time
  je_batch_size :: nat
  je_max_input_bytes :: nat
  je_clock :: "nat \<Rightarrow> time"
  je_excerpt :: "string \<Rightarrow> string \<Rightarrow> string"
  je_payload_bytes :: "string \<Rightarrow> jev_record list \<Rightarrow> nat"
  je_score :: "string \<Rightarrow> jev_record list \<Rightarrow> time \<Rightarrow> 's score_answer"
  je_in_range :: "'s \<Rightarrow> bool"

text \<open>The records of one request: candidates are added until the payload would exceed its bound.\<close>

fun batch_records ::
  "'s jev_env \<Rightarrow> string \<Rightarrow> nat \<Rightarrow> 's RetrievalCandidate list \<Rightarrow> jev_record list \<Rightarrow> jev_record list" where
  "batch_records je query position [] records = records"
| "batch_records je query position (c # cs) records =
     (let content = candidate_text c; excerpt = je_excerpt je content query;
          records' = records @ [(''candidate_'' @ py_str_int (int position), excerpt, excerpt \<noteq> content)]
      in if je_payload_bytes je query records' > je_max_input_bytes je then records
         else batch_records je query (position + 1) cs records')"

definition jev_scored :: "string \<Rightarrow> 's RetrievalCandidate \<Rightarrow> 's \<Rightarrow> bool \<Rightarrow> 's RetrievalCandidate" where
  "jev_scored model c score truncated = c\<lparr>cd_rerank_score := Some score,
     cd_reasons := cd_reasons c @ [''jev:'' @ model] @ (if truncated then [''jev:excerpt_truncated''] else [])\<rparr>"

fun score_batch ::
  "'s jev_env \<Rightarrow> (string \<times> 's score_value) list \<Rightarrow> jev_record list \<Rightarrow> 's RetrievalCandidate list
    \<Rightarrow> 's RetrievalCandidate list option" where
  "score_batch je scores ((i, excerpt, truncated) # records) (c # cs) =
     (case map_of scores i of
        Some (ScoreValue s) \<Rightarrow>
          if je_in_range je s
          then map_option (Cons (jev_scored (je_model je) c s truncated)) (score_batch je scores records cs)
          else None
      | _ \<Rightarrow> None)"
| "score_batch je scores [] cs = Some []"
| "score_batch je scores (r # records) [] = None"

lemma batch_records_length:
  "length records \<le> length (batch_records je query position cs records)
    \<and> length (batch_records je query position cs records) \<le> length records + length cs"
proof (induction je query position cs records rule: batch_records.induct)
  case (2 je query position c cs records)
  let ?records' = "records @ [(''candidate_'' @ py_str_int (int position), je_excerpt je (candidate_text c) query,
      je_excerpt je (candidate_text c) query \<noteq> candidate_text c)]"
  show ?case
  proof (cases "je_payload_bytes je query ?records' > je_max_input_bytes je")
    case False
    then show ?thesis using 2 [OF refl refl refl False] by (simp add: Let_def)
  qed (simp add: Let_def)
qed simp

function jev_batches ::
  "'s jev_env \<Rightarrow> string \<Rightarrow> nat \<Rightarrow> nat \<Rightarrow> 's RetrievalCandidate list \<Rightarrow> 's RetrievalCandidate list option" where
  "jev_batches je query offset reads candidates =
     (if candidates = [] then Some []
      else
        let deadline = je_clock je 0 + je_timeout je;
            records = batch_records je query offset (take (je_batch_size je) candidates) [];
            remaining = deadline - je_clock je reads
        in if records = [] \<or> remaining \<le> 0 then None
           else case je_score je query records remaining of
                  ProviderError \<Rightarrow> None
                | Unavailable \<Rightarrow> None
                | Scores scores \<Rightarrow>
                    if je_clock je (reads + 1) \<ge> deadline \<or> fst ` set scores \<noteq> fst ` set records then None
                    else (case score_batch je scores records candidates of
                            None \<Rightarrow> None
                          | Some scored \<Rightarrow>
                              map_option (append scored)
                                (jev_batches je query (offset + length records) (reads + 2) (drop (length records) candidates))))"
  by pat_completeness auto
termination by (relation "measure (\<lambda>(_, _, _, _, candidates). length candidates)") (auto simp: Let_def)

declare jev_batches.simps [simp del]

definition jev_rerank :: "'s::linorder jev_env \<Rightarrow> RetrievalPlan \<Rightarrow> 's RetrievalCandidate list \<Rightarrow> 's ranked" where
  "jev_rerank je plan candidates =
     (let fallback = (candidates, ''jev_fallback_deterministic'')
      in if candidates = [] then ([], ''jev'')
         else if je_offline je \<or> \<not> je_has_key je \<or> length (pl_rewritten_query plan) > 4096 then fallback
         else case jev_batches je (pl_rewritten_query plan) 0 1 candidates of
                None \<Rightarrow> fallback
              | Some scored \<Rightarrow>
                  (map snd (sort_key (\<lambda>(i, c). (Desc (effective_score c), i)) (enumerate 0 scored)), ''jev''))"

section \<open>Packing\<close>

definition rejected :: "'s RetrievalCandidate \<Rightarrow> string \<Rightarrow> RejectedCandidateSummary" where
  "rejected c reason = \<lparr>rj_chunk_id = candidate_id c, rj_document_id = d_id (rc_document (cd_chunk c)), rj_reason = reason\<rparr>"

definition chunk_chars :: "'s RetrievedChunk \<Rightarrow> nat" where
  "chunk_chars c = py_len (ch_content (rc_chunk c))"

fun pack_loop ::
  "CandidateLimits \<Rightarrow> 's RetrievalCandidate list \<Rightarrow> 's RetrievedChunk list \<Rightarrow> RejectedCandidateSummary list \<Rightarrow> nat
    \<Rightarrow> 's RetrievedChunk list \<times> RejectedCandidateSummary list" where
  "pack_loop limits [] injected rejs used = (injected, rejs)"
| "pack_loop limits (c # cs) injected rejs used =
     (let next = chunk_chars (cd_chunk c)
      in if length injected \<ge> cl_injected_limit limits
         then pack_loop limits cs injected (rejs @ [rejected c ''injected_limit'']) used
         else if injected \<noteq> [] \<and> used + next > cl_char_budget limits
         then pack_loop limits cs injected (rejs @ [rejected c ''char_budget'']) used
         else pack_loop limits cs (injected @ [cd_chunk c]) rejs (used + next))"

definition pack ::
  "RetrievalPlan \<Rightarrow> 's RetrievalCandidate list \<Rightarrow> 's RetrievedChunk list \<times> RejectedCandidateSummary list \<times> bool" where
  "pack plan candidates =
     (let (injected, rejs) = pack_loop (pl_limits plan) candidates [] [] 0 in (injected, rejs, rejs \<noteq> []))"

section \<open>The pipeline\<close>

definition answer_mode_for_route :: "RetrievalRoutingDecision \<Rightarrow> bool \<Rightarrow> string" where
  "answer_mode_for_route decision relevant_context_found =
     (if rd_route decision = ''retrieval_required'' \<and> relevant_context_found then ''document_grounded''
      else if rd_route decision = ''retrieval_optional'' \<and> relevant_context_found then ''mixed''
      else ''general_knowledge'')"

definition is_relevant_retrieval_result :: "string \<Rightarrow> string \<Rightarrow> 's::linorder \<Rightarrow> 's \<Rightarrow> bool" where
  "is_relevant_retrieval_result route source zero score =
     (if score \<le> zero then False
      else if source = ''document_fallback'' \<and> route \<noteq> ''retrieval_required'' then False
      else True)"

definition source_counts :: "'s RetrievalCandidate list \<Rightarrow> (string \<times> nat) list" where
  "source_counts candidates =
     (let all = concat (map cd_sources candidates) in map (\<lambda>s. (s, count_list all s)) (sort (dict_fromkeys all)))"

definition build_retrieval_evidence ::
  "RetrievalPlan \<Rightarrow> 's RetrievalCandidate list \<Rightarrow> 's RetrievedChunk list \<Rightarrow> nat \<Rightarrow> bool \<Rightarrow> string \<Rightarrow> RetrievalEvidence" where
  "build_retrieval_evidence plan candidates injected rejected_count truncated reranker_name =
     \<lparr>ev_intent = pl_intent plan, ev_candidate_count = length candidates, ev_injected_count = length injected,
      ev_rejected_count = rejected_count, ev_source_counts = source_counts candidates,
      ev_structured_entity_types = pl_structured_entity_types plan, ev_reranker = reranker_name,
      ev_budget_truncated = truncated\<rparr>"

text \<open>The retrieval queries the pipeline calls, and the entity-tagged rows of the structured query.\<close>

record 's retrieval_service =
  rs_document_count :: "ident \<Rightarrow> ident list option \<Rightarrow> nat"
  rs_selectable_count :: "ident \<Rightarrow> ident list option \<Rightarrow> nat"
  rs_scoped :: "ident \<Rightarrow> string \<Rightarrow> nat \<Rightarrow> ident list option \<Rightarrow> 's RetrievedChunk list"
  rs_lexical :: "ident \<Rightarrow> string \<Rightarrow> nat \<Rightarrow> ident list option \<Rightarrow> 's RetrievedChunk list"
  rs_structured :: "ident \<Rightarrow> string \<Rightarrow> string list \<Rightarrow> nat \<Rightarrow> ident list option \<Rightarrow> (string \<times> 's RetrievedChunk) list"
  rs_selected_document :: "ident \<Rightarrow> ident \<Rightarrow> string \<Rightarrow> ident list option \<Rightarrow> nat \<Rightarrow> 's RetrievedChunk list"

definition gather :: "'s retrieval_service \<Rightarrow> ident \<Rightarrow> RetrievalPlan \<Rightarrow> ident list option \<Rightarrow> 's RetrievedChunk list" where
  "gather rs user_id plan knowledge_base_ids =
     (let chunks = rs_scoped rs user_id (pl_rewritten_query plan) (cl_vector_limit (pl_limits plan)) knowledge_base_ids;
          lexical_chunks = rs_lexical rs user_id (pl_rewritten_query plan) (cl_lexical_limit (pl_limits plan)) knowledge_base_ids
      in if pl_structured_entity_types plan = [] then chunks @ lexical_chunks
         else
           let structured = rs_structured rs user_id (pl_rewritten_query plan) (pl_structured_entity_types plan)
                              (cl_structured_limit (pl_limits plan)) knowledge_base_ids;
               structured_chunks = map (\<lambda>(entity_type, c). c\<lparr>rc_source := ''structured_entity:'' @ entity_type\<rparr>) structured
           in structured_chunks @ chunks @ lexical_chunks)"

definition force_route :: "bool \<Rightarrow> RetrievalPlan \<Rightarrow> RetrievalPlan" where
  "force_route force plan =
     (if force \<and> rd_route (pl_route_decision plan) = ''no_retrieval''
      then plan\<lparr>pl_route_decision := (pl_route_decision plan)\<lparr>rd_route := ''retrieval_optional'',
             rd_reason := ''document retrieval preference requests authorized source search''\<rparr>\<rparr>
      else plan)"

record 's forge_env =
  fe_ops :: "'s score_ops"
  fe_zero :: 's
  fe_service :: "'s retrieval_service"
  fe_plan :: "ContextForgeRequest \<Rightarrow> nat \<Rightarrow> nat \<Rightarrow> RetrievalPlan"
  fe_reranker_name :: string

definition retrieve ::
  "'s::linorder forge_env \<Rightarrow> (RetrievalPlan \<Rightarrow> 's RetrievalCandidate list \<Rightarrow> 's ranked) \<Rightarrow> ContextForgeRequest \<Rightarrow> 's ContextForgeResult" where
  "retrieve fe rerank request =
     (let rs = fe_service fe; user = cf_user_id request;
          selected_ids = retrieval_knowledge_base_ids (cf_selection_context request);
          document_count = (if cf_selected_document_id request \<noteq> None then 1 else rs_document_count rs user selected_ids);
          selectable_count = (if cf_selected_document_id request \<noteq> None then 1 else rs_selectable_count rs user selected_ids);
          plan = force_route (cf_force_retrieval request) (fe_plan fe request document_count selectable_count);
          decision = pl_route_decision plan
      in if rd_route decision \<in> {''no_retrieval'', ''clarification_required''}
         then \<lparr>fr_plan = plan, fr_decision = decision, fr_answer_mode = answer_mode_for_route decision False,
               fr_retrieved_chunks = [],
               fr_evidence = build_retrieval_evidence plan ([] :: 's RetrievalCandidate list) ([] :: 's RetrievedChunk list)
                               0 False (fe_reranker_name fe),
               fr_rejected_candidates = []\<rparr>
         else
           let raw_chunks = (case cf_selected_document_id request of
                  Some document_id \<Rightarrow> rs_selected_document rs user document_id (cf_query request) selected_ids
                                        (cl_rerank_limit (pl_limits plan))
                | None \<Rightarrow> gather rs user plan selected_ids);
               candidates = fuse_candidates (fe_ops fe) raw_chunks;
               (reranked, reranker_name) = rerank plan (take (cl_rerank_limit (pl_limits plan)) candidates);
               (injected, rejs, truncated) = pack plan reranked;
               relevant = list_ex (\<lambda>c. is_relevant_retrieval_result (rd_route decision) (rc_source c) (fe_zero fe) (rc_score c)) injected
           in \<lparr>fr_plan = plan, fr_decision = decision, fr_answer_mode = answer_mode_for_route decision relevant,
               fr_retrieved_chunks = injected,
               fr_evidence = build_retrieval_evidence plan candidates injected (length rejs) truncated reranker_name,
               fr_rejected_candidates = rejs\<rparr>)"

section \<open>Windows cover the text\<close>

lemma fit_window_ok:
  "fit_window tk query max_length ids start stop = Some (window, e) \<Longrightarrow>
    start < e \<and> e \<le> stop \<and> window = tk_decode tk (slice start e ids) \<and> tk_pair_size tk query window \<le> max_length"
proof (induction tk query max_length ids start stop rule: fit_window.induct)
  case (1 tk query max_length ids start stop)
  let ?w = "tk_decode tk (slice start stop ids)"
  show ?case
  proof (cases "start < stop \<and> \<not> tk_pair_size tk query ?w \<le> max_length")
    case True
    then have "fit_window tk query max_length ids start (stop - max 1 (tk_pair_size tk query ?w - max_length)) = Some (window, e)"
      using 1(2) by (subst (asm) fit_window.simps) (simp add: Let_def)
    then show ?thesis using 1(1) True by fastforce
  next
    case False
    then show ?thesis using 1(2) by (subst (asm) fit_window.simps) (auto simp: Let_def split: if_splits)
  qed
qed

text \<open>The token ranges behind a list of windows, and what the caller relies on.\<close>

definition range_windows :: "tokenizer \<Rightarrow> nat list \<Rightarrow> (int \<times> int) list \<Rightarrow> string list" where
  "range_windows tk ids rs = map (\<lambda>(a, b). tk_decode tk (slice a b ids)) rs"

definition range_ok :: "tokenizer \<Rightarrow> string \<Rightarrow> int \<Rightarrow> nat list \<Rightarrow> int \<times> int \<Rightarrow> bool" where
  "range_ok tk query max_length ids r \<longleftrightarrow> fst r < snd r \<and> snd r \<le> int (length ids)
     \<and> tk_pair_size tk query (tk_decode tk (slice (fst r) (snd r) ids)) \<le> max_length"

definition covers :: "(int \<times> int) list \<Rightarrow> int \<Rightarrow> int \<Rightarrow> bool" where
  "covers rs lo hi \<longleftrightarrow> (\<forall>k. lo \<le> k \<and> k < hi \<longrightarrow> (\<exists>r \<in> set rs. fst r \<le> k \<and> k < snd r))"

lemma covers_Cons: "covers rs m hi \<Longrightarrow> fst r \<le> lo \<Longrightarrow> m \<le> snd r \<Longrightarrow> covers (r # rs) lo hi"
  unfolding covers_def by (metis linorder_not_less list.set_intros(1) list.set_intros(2) order_less_le_trans order_trans)

lemma windows_from_ok:
  "windows_from tk query max_length available ids start windows = Some ws \<Longrightarrow> length windows \<le> 16 \<Longrightarrow>
    \<exists>rs. ws = windows @ range_windows tk ids rs \<and> length ws \<le> 16
      \<and> (\<forall>r \<in> set rs. range_ok tk query max_length ids r) \<and> covers rs start (int (length ids))"
proof (induction tk query max_length available ids start windows rule: windows_from.induct)
  case (1 tk query max_length available ids start windows)
  show ?case
  proof (cases "start < int (length ids)")
    case False
    then have "ws = windows" using 1(2) by (subst (asm) windows_from.simps) simp
    then show ?thesis using 1(3) False by (intro exI [of _ "[]"]) (simp add: range_windows_def covers_def)
  next
    case True
    then have room: "\<not> length windows \<ge> 16" using 1(2) by (subst (asm) windows_from.simps) (simp split: if_splits)
    obtain window e where fit: "fit_window tk query max_length ids start (min (int (length ids)) (start + available)) = Some (window, e)"
      using 1(2) True room by (subst (asm) windows_from.simps) (auto split: option.splits)
    note f = fit_window_ok [OF fit]
    have ok: "range_ok tk query max_length ids (start, e)" using f unfolding range_ok_def by auto
    show ?thesis
    proof (cases "e = int (length ids)")
      case True
      then have "ws = windows @ [window]"
        using 1(2) \<open>start < int (length ids)\<close> room fit by (subst (asm) windows_from.simps) simp
      then show ?thesis using f ok True room
        by (intro exI [of _ "[(start, e)]"]) (simp add: range_windows_def covers_def)
    next
      case False
      let ?next = "max (start + 1) (e - min 32 (available div 4))"
      have rest: "windows_from tk query max_length available ids ?next (windows @ [window]) = Some ws"
        using 1(2) True room fit False by (subst (asm) windows_from.simps) simp
      have "length (windows @ [window]) \<le> 16" using room by simp
      then obtain rs where rs: "ws = (windows @ [window]) @ range_windows tk ids rs" "length ws \<le> 16"
        "\<forall>r \<in> set rs. range_ok tk query max_length ids r" "covers rs ?next (int (length ids))"
        using 1(1) [OF True room fit refl False rest] by blast
      show ?thesis
      proof (cases "0 \<le> available")
        case av: True
        then have "?next \<le> e" using f by (simp add: div_int_pos_iff pos_imp_zdiv_nonneg_iff)
        then have "covers ((start, e) # rs) start (int (length ids))" by (intro covers_Cons [OF rs(4)]) simp_all
        then show ?thesis using rs f ok by (intro exI [of _ "(start, e) # rs"]) (simp add: range_windows_def)
      next
        case False
        then have "e \<le> start" using f by simp
        then show ?thesis using f by simp
      qed
    qed
  qed
qed

text \<open>
  C38. Splitting a candidate for the cross-encoder loses nothing: when it succeeds, it returns between one
  and sixteen windows, each decoded from a stretch of the text's tokens that fits the model together with
  the query, and every token lies in one of the stretches.
\<close>

theorem cross_encoder_windows_cover:
  assumes "cross_encoder_windows tk text query max_length = Some ws"
  shows "1 \<le> length ws \<and> length ws \<le> 16
    \<and> (tk_encode tk text \<noteq> [] \<longrightarrow> (\<exists>rs. ws = range_windows tk (tk_encode tk text) rs
         \<and> (\<forall>r \<in> set rs. range_ok tk query max_length (tk_encode tk text) r)
         \<and> covers rs 0 (int (length (tk_encode tk text)))))"
proof (cases "tk_encode tk text = []")
  case True
  then show ?thesis using assms by (auto simp: cross_encoder_windows_def Let_def split: if_splits)
next
  case False
  let ?ids = "tk_encode tk text"
  let ?available = "max_length - int (length (tk_encode tk query)) - tk_pair_specials tk"
  have "windows_from tk query max_length ?available ?ids 0 [] = Some ws"
    using assms False by (simp add: cross_encoder_windows_def Let_def split: if_splits)
  then obtain rs where rs: "ws = range_windows tk ?ids rs" "length ws \<le> 16"
    "\<forall>r \<in> set rs. range_ok tk query max_length ?ids r" "covers rs 0 (int (length ?ids))"
    using windows_from_ok by fastforce
  have "rs \<noteq> []" using rs(4) False by (auto simp: covers_def)
  then show ?thesis using rs by (auto simp: range_windows_def Suc_le_eq)
qed

section \<open>Rerankers neither lose nor invent candidates\<close>

text \<open>
  The interface of a reranker as the pipeline uses it: it returns the chunks it was given, in some order.
  What the pipeline promises is proved from that alone, and every configured reranker is an instance.
\<close>

locale reranker =
  fixes rerank :: "RetrievalPlan \<Rightarrow> 's::linorder RetrievalCandidate list \<Rightarrow> 's ranked"
  assumes keeps_chunks: "mset (map cd_chunk (fst (rerank plan cs))) = mset (map cd_chunk cs)"
begin

lemma rerank_length: "length (fst (rerank plan cs)) = length cs"
  using keeps_chunks [of plan cs] by (metis length_map size_mset)

lemma rerank_chunks: "set (map cd_chunk (fst (rerank plan cs))) = set (map cd_chunk cs)"
  using keeps_chunks by (rule mset_eq_setD)

lemma rerank_ids: "mset (map candidate_id (fst (rerank plan cs))) = mset (map candidate_id cs)"
proof -
  have ids: "mset (map candidate_id xs) = image_mset chunk_id (mset (map cd_chunk xs))"
    for xs :: "'s RetrievalCandidate list"
    by (induction xs) (simp_all add: candidate_id_def)
  show ?thesis unfolding ids keeps_chunks ..
qed

lemma rerank_distinct: "distinct (map candidate_id cs) \<Longrightarrow> distinct (map candidate_id (fst (rerank plan cs)))"
  using rerank_ids [of plan cs] by (metis mset_eq_imp_distinct_iff)

end

lemma sort_candidates_chunks: "image_mset cd_chunk (mset (sort_candidates cs)) = image_mset cd_chunk (mset cs)"
  by (simp add: sort_candidates_def)

lemma length_group_scores [simp]: "length (group_scores gs raw) = length gs"
  by (induction gs raw rule: group_scores.induct) simp_all

lemma map_zip_first:
  "length xs = length ys \<Longrightarrow> (\<And>x y. g (f (x, y)) = h x) \<Longrightarrow> map g (map f (zip xs ys)) = map h xs"
  by (induction xs ys rule: list_induct2) simp_all

lemma cross_encoder_scored_chunks:
  assumes "cross_encoder_scored ce plan cs = Some scored"
  shows "mset (map cd_chunk scored) = mset (map cd_chunk cs)"
proof -
  define windows where "windows = map the (map (\<lambda>c. cross_encoder_windows (ce_tokenizer ce) (candidate_text c)
      (pl_rewritten_query plan) (ce_max_length ce)) cs)"
  have len: "length windows = length cs" by (simp add: windows_def)
  obtain raw where scored: "scored = sort_candidates (map (\<lambda>(c, score, ws). cross_scored (ce_model_name ce) c score ws)
      (zip cs (zip (group_scores windows raw) windows)))"
    using assms unfolding cross_encoder_scored_def Let_def windows_def [symmetric] by (auto split: option.splits if_splits)
  have "map cd_chunk (map (\<lambda>(c, score, ws). cross_scored (ce_model_name ce) c score ws)
      (zip cs (zip (group_scores windows raw) windows))) = map cd_chunk cs"
    by (rule map_zip_first) (auto simp: len cross_scored_def)
  then show ?thesis unfolding scored mset_map sort_candidates_chunks by (metis mset_map)
qed

lemma score_batch_chunks:
  "score_batch je scores records cs = Some scored
    \<Longrightarrow> map cd_chunk scored = map cd_chunk (take (length records) cs) \<and> length records \<le> length cs"
  by (induction je scores records cs arbitrary: scored rule: score_batch.induct)
    (auto simp: jev_scored_def split: option.splits score_value.splits if_splits)

lemma jev_batches_chunks:
  "jev_batches je query offset reads cs = Some scored \<Longrightarrow> map cd_chunk scored = map cd_chunk cs"
proof (induction je query offset reads cs arbitrary: scored rule: jev_batches.induct)
  case (1 je query offset reads cs)
  show ?case
  proof (cases "cs = []")
    case True
    then show ?thesis using 1(2) by (subst (asm) jev_batches.simps) simp
  next
    case False
    let ?records = "batch_records je query offset (take (je_batch_size je) cs) []"
    let ?remaining = "je_clock je 0 + je_timeout je - je_clock je reads"
    obtain scores batch rest where ok: "\<not> (?records = [] \<or> ?remaining \<le> 0)"
      and answer: "je_score je query ?records ?remaining = Scores scores"
      and valid: "\<not> (je_clock je (reads + 1) \<ge> je_clock je 0 + je_timeout je \<or> fst ` set scores \<noteq> fst ` set ?records)"
      and batch: "score_batch je scores ?records cs = Some batch"
      and rest: "jev_batches je query (offset + length ?records) (reads + 2) (drop (length ?records) cs) = Some rest"
      and scored: "scored = batch @ rest"
      using 1(2) False by (subst (asm) jev_batches.simps) (auto simp: Let_def split: if_splits score_answer.splits option.splits)
    have "map cd_chunk rest = map cd_chunk (drop (length ?records) cs)"
      using 1(1) [OF False refl refl refl ok answer valid batch rest] .
    then show ?thesis
      using score_batch_chunks [OF batch] unfolding scored by (metis append_take_drop_id map_append)
  qed
qed

interpretation deterministic: reranker deterministic_rerank
  by unfold_locales (simp add: deterministic_rerank_def sort_candidates_chunks)

interpretation cross_encoder: reranker "cross_encoder_rerank ce" for ce
  by unfold_locales (auto simp: cross_encoder_rerank_def simp flip: mset_map dest: cross_encoder_scored_chunks split: option.split)

interpretation jev: reranker "jev_rerank je" for je
proof unfold_locales
  fix plan :: RetrievalPlan and cs :: "'a RetrievalCandidate list"
  have "mset (map cd_chunk (map snd (sort_key (\<lambda>(i, c). (Desc (effective_score c), i)) (enumerate 0 scored)))) = mset (map cd_chunk cs)"
    if "jev_batches je (pl_rewritten_query plan) 0 1 cs = Some scored" for scored
  proof -
    have "mset (map cd_chunk (map snd (sort_key (\<lambda>(i, c). (Desc (effective_score c), i)) (enumerate 0 scored))))
        = image_mset cd_chunk (mset (map snd (enumerate 0 scored)))" by (simp only: mset_map mset_sort)
    also have "\<dots> = mset (map cd_chunk scored)" by (simp only: map_snd_enumerate mset_map)
    finally show ?thesis using jev_batches_chunks [OF that] by simp
  qed
  then show "mset (map cd_chunk (fst (jev_rerank je plan cs))) = mset (map cd_chunk cs)"
    unfolding jev_rerank_def Let_def by (cases "jev_batches je (pl_rewritten_query plan) 0 1 cs") (simp_all del: mset_map)
qed

end
