(* ===== verification/Retrieval_Scoring.thy ===== *)
theory Retrieval_Scoring
  imports Retrieval_Access Text_Model
begin

text \<open>
  The pure half of \<open>knowledge/retrieval.py\<close>: tokens and hints, keyword, metadata and cosine scores,
  BM25 ranking, deduplication and the per-source rankings. Floating-point numbers stay in a linear
  order \<open>'s\<close>; every arithmetic expression of the source is written out with the operations of
  \<open>float_ops\<close>, so that no law of exact arithmetic is ever used. Third-party and process-wide
  functions (the embedding provider, \<open>json.loads\<close>, \<open>SequenceMatcher.ratio\<close>, BM25, the vector
  column and its distance) are fields of \<open>retrieval_env\<close>.
\<close>

section \<open>Parameters\<close>

record 's float_ops = "'s score_ops" +
  fl_sub :: "'s \<Rightarrow> 's \<Rightarrow> 's"
  fl_mul :: "'s \<Rightarrow> 's \<Rightarrow> 's"
  fl_div :: "'s \<Rightarrow> 's \<Rightarrow> 's"
  fl_sqrt :: "'s \<Rightarrow> 's"
  fl_int :: "int \<Rightarrow> 's"
  fl_lit :: "int \<Rightarrow> nat \<Rightarrow> 's"
  fl_round :: "'s \<Rightarrow> 's"
  fl_finite :: "'s \<Rightarrow> bool"

text \<open>\<open>fl_lit m k\<close> is the literal of value \<open>m\<close> times ten to the minus \<open>k\<close>, \<open>fl_round\<close> is \<open>round(_, 6)\<close>.\<close>

datatype 's json_value = JNumber 's | JArray "'s json_value list" | JOther

record EmbeddingIndexIdentity =
  ei_provider :: string
  ei_model :: string
  ei_dimensions :: nat
  ei_encoding :: string
  ei_preprocessing :: string
  ei_version :: int

record 's embedding_provider =
  ep_provider :: string
  ep_model :: string
  ep_dimensions :: "nat option"
  ep_encoding_identity :: string
  ep_preprocessing_identity :: string
  ep_index_version :: int
  ep_embed_query :: "string \<Rightarrow> 's list"

record 's retrieval_env =
  re_ops :: "'s float_ops"
  re_provider :: "'s embedding_provider"
  re_index_key :: "EmbeddingIndexIdentity \<Rightarrow> ident"
  re_loads :: "string \<Rightarrow> 's json_value option"
  re_ratio :: "string \<Rightarrow> string \<Rightarrow> 's"
  re_bm25 :: "string list list \<Rightarrow> string list \<Rightarrow> nat \<Rightarrow> 's"
  re_uses_postgres :: bool
  re_vector_query_ok :: bool
  re_vector :: "DocumentChunkModel \<Rightarrow> 's list option"
  re_cosine_distance :: "'s list \<Rightarrow> 's list \<Rightarrow> 's"
  re_has_purpose :: bool
  re_has_profiles :: bool

abbreviation f_add :: "('s, 'a) retrieval_env_scheme \<Rightarrow> 's \<Rightarrow> 's \<Rightarrow> 's" where
  "f_add env \<equiv> so_add (re_ops env)"

abbreviation f_mul :: "('s, 'a) retrieval_env_scheme \<Rightarrow> 's \<Rightarrow> 's \<Rightarrow> 's" where
  "f_mul env \<equiv> fl_mul (re_ops env)"

abbreviation f_lit :: "('s, 'a) retrieval_env_scheme \<Rightarrow> int \<Rightarrow> nat \<Rightarrow> 's" where
  "f_lit env \<equiv> fl_lit (re_ops env)"

abbreviation f_int :: "('s, 'a) retrieval_env_scheme \<Rightarrow> int \<Rightarrow> 's" where
  "f_int env \<equiv> fl_int (re_ops env)"

abbreviation f_round :: "('s, 'a) retrieval_env_scheme \<Rightarrow> 's \<Rightarrow> 's" where
  "f_round env \<equiv> fl_round (re_ops env)"

section \<open>Embeddings\<close>

definition valid_vector :: "('s, 'a) retrieval_env_scheme \<Rightarrow> 's list \<Rightarrow> bool" where
  "valid_vector env v \<longleftrightarrow> v \<noteq> [] \<and> list_all (fl_finite (re_ops env)) v"

definition embedding_identity :: "('s, 'a) retrieval_env_scheme \<Rightarrow> 's list \<Rightarrow> EmbeddingIndexIdentity option" where
  "embedding_identity env v =
     (let p = re_provider env
      in if \<not> valid_vector env v then None
         else if ep_provider p = '''' \<or> ep_model p = '''' then None
         else if (case ep_dimensions p of None \<Rightarrow> False | Some n \<Rightarrow> n \<noteq> length v) then None
         else
           let identity = \<lparr>ei_provider = ep_provider p, ei_model = ep_model p, ei_dimensions = length v,
                 ei_encoding = ep_encoding_identity p, ei_preprocessing = ep_preprocessing_identity p,
                 ei_version = ep_index_version p\<rparr>
           in if list_ex (\<lambda>s. s = '''' \<or> py_len s > 240)
                   [ei_provider identity, ei_model identity, ei_encoding identity, ei_preprocessing identity]
                 \<or> ei_version identity < 1
              then None else Some identity)"

definition compatible_embedding ::
  "('s, 'a) retrieval_env_scheme \<Rightarrow> 's list \<Rightarrow> 's list \<Rightarrow> ident option \<Rightarrow> bool" where
  "compatible_embedding env query stored stored_index_id =
     (case stored_index_id of
        None \<Rightarrow> False
      | Some i \<Rightarrow>
          if i = '''' \<or> \<not> valid_vector env stored \<or> length query \<noteq> length stored then False
          else (case embedding_identity env query of None \<Rightarrow> False | Some identity \<Rightarrow> i = re_index_key env identity))"

primrec json_number :: "'s json_value \<Rightarrow> 's option" where
  "json_number (JNumber x) = Some x"
| "json_number (JArray xs) = None"
| "json_number JOther = None"

definition embedding_from_json :: "('s, 'a) retrieval_env_scheme \<Rightarrow> string \<Rightarrow> 's list" where
  "embedding_from_json env value =
     (case re_loads env value of
        Some (JArray items) \<Rightarrow>
          if list_ex (\<lambda>x. json_number x = None) items then [] else map (\<lambda>x. the (json_number x)) items
      | _ \<Rightarrow> [])"

definition py_sum :: "('s, 'a) retrieval_env_scheme \<Rightarrow> 's list \<Rightarrow> 's" where
  "py_sum env xs = foldl (f_add env) (f_int env 0) xs"

definition cosine_similarity :: "('s, 'a) retrieval_env_scheme \<Rightarrow> 's list \<Rightarrow> 's list \<Rightarrow> 's" where
  "cosine_similarity env left right =
     (let dot = py_sum env (map (\<lambda>(a, b). f_mul env a b) (zip left right));
          left_norm = fl_sqrt (re_ops env) (py_sum env (map (\<lambda>v. f_mul env v v) left));
          right_norm = fl_sqrt (re_ops env) (py_sum env (map (\<lambda>v. f_mul env v v) right))
      in if left_norm = f_int env 0 \<or> right_norm = f_int env 0 then f_lit env 0 1
         else fl_div (re_ops env) dot (f_mul env left_norm right_norm))"

section \<open>Words, hints and keyword scores\<close>

text \<open>A set of words is the list of its members, each once.\<close>

definition bm25_tokens :: "string \<Rightarrow> string list" where
  "bm25_tokens value = map py_casefold (filter (\<lambda>w. py_len w > 1) (find_words value))"

definition query_terms :: "string \<Rightarrow> string list" where
  "query_terms query = dict_fromkeys (bm25_tokens query)"

definition metadata_terms :: "string \<Rightarrow> string list" where
  "metadata_terms value = map py_casefold (find_words value)"

definition normalize_metadata_text :: "string \<Rightarrow> string" where
  "normalize_metadata_text value = py_join '' '' (metadata_terms value)"

definition personal_document_fallback_hints :: "string list" where
  "personal_document_fallback_hints =
    [''about me'', ''my resume'', ''my cv'', ''my profile'', ''my background'', ''my experience'', ''my document'',
     ''uploaded document'', ''uploaded file'', ''resume'', ''cv'', ''product'',
     [CHR 0xEB, CHR 0x82, CHR 0x98, CHR 0xEC, CHR 0x97, CHR 0x90, CHR 0x20, CHR 0xEB, CHR 0x8C, CHR 0x80, CHR 0xED, CHR 0x95, CHR 0xB4],
     [CHR 0xEB, CHR 0x82, CHR 0xB4, CHR 0x20, CHR 0xEC, CHR 0x9D, CHR 0xB4, CHR 0xEB, CHR 0xA0, CHR 0xA5, CHR 0xEC, CHR 0x84, CHR 0x9C],
     [CHR 0xEC, CHR 0x9D, CHR 0xB4, CHR 0xEB, CHR 0xA0, CHR 0xA5, CHR 0xEC, CHR 0x84, CHR 0x9C],
     [CHR 0xEB, CHR 0x82, CHR 0xB4, CHR 0x20, CHR 0xEB, CHR 0xAC, CHR 0xB8, CHR 0xEC, CHR 0x84, CHR 0x9C],
     [CHR 0xEC, CHR 0x97, CHR 0x85, CHR 0xEB, CHR 0xA1, CHR 0x9C, CHR 0xEB, CHR 0x93, CHR 0x9C, CHR 0xED, CHR 0x95, CHR 0x9C, CHR 0x20, CHR 0xEB, CHR 0xAC, CHR 0xB8, CHR 0xEC, CHR 0x84, CHR 0x9C],
     [CHR 0xEC, CHR 0x97, CHR 0x85, CHR 0xEB, CHR 0xA1, CHR 0x9C, CHR 0xEB, CHR 0x93, CHR 0x9C, CHR 0x20, CHR 0xED, CHR 0x95, CHR 0xB4, CHR 0xEB, CHR 0x86, CHR 0x93, CHR 0xEC, CHR 0x9D, CHR 0x80],
     [CHR 0xEB, CHR 0xAC, CHR 0xB8, CHR 0xEC, CHR 0x84, CHR 0x9C, CHR 0x20, CHR 0xEC, CHR 0x97, CHR 0x85, CHR 0xEB, CHR 0xA1, CHR 0x9C, CHR 0xEB, CHR 0x93, CHR 0x9C],
     [CHR 0xEC, CHR 0x9E, CHR 0x90, CHR 0xEA, CHR 0xB8, CHR 0xB0, CHR 0xEC, CHR 0x86, CHR 0x8C, CHR 0xEA, CHR 0xB0, CHR 0x9C],
     [CHR 0xEA, CHR 0xB2, CHR 0xBD, CHR 0xEB, CHR 0xA0, CHR 0xA5]]"

definition needs_personal_document_fallback :: "string \<Rightarrow> bool" where
  "needs_personal_document_fallback query = has_any (py_casefold query) personal_document_fallback_hints"

definition document_overview_hints :: "string list" where
  "document_overview_hints =
    [''explain'', ''summarize'', ''summary'', ''overview'', ''what is this document'', ''what does this document'',
     ''what does my uploaded document'', ''tell me about my uploaded document'',
     [CHR 0xEB, CHR 0xAC, CHR 0xB8, CHR 0xEC, CHR 0x84, CHR 0x9C, CHR 0x20, CHR 0xEC, CHR 0x9A, CHR 0x94, CHR 0xEC, CHR 0x95, CHR 0xBD],
     [CHR 0xEC, CHR 0x84, CHR 0xA4, CHR 0xEB, CHR 0xAA, CHR 0x85],
     [CHR 0xEC, CHR 0x9A, CHR 0x94, CHR 0xEC, CHR 0x95, CHR 0xBD],
     [CHR 0xEC, CHR 0x96, CHR 0xB4, CHR 0xEB, CHR 0x96, CHR 0xA4, CHR 0x20, CHR 0xEB, CHR 0xAC, CHR 0xB8, CHR 0xEC, CHR 0x84, CHR 0x9C],
     [CHR 0xEC, CHR 0x97, CHR 0x85, CHR 0xEB, CHR 0xA1, CHR 0x9C, CHR 0xEB, CHR 0x93, CHR 0x9C, CHR 0xED, CHR 0x95, CHR 0x9C, CHR 0x20, CHR 0xEB, CHR 0xAC, CHR 0xB8, CHR 0xEC, CHR 0x84, CHR 0x9C]]"

definition needs_document_overview :: "string \<Rightarrow> bool" where
  "needs_document_overview query = has_any (py_casefold query) document_overview_hints"

definition document_metadata_stopwords :: "string list" where
  "document_metadata_stopwords =
    [''about'', ''according'', ''based'', ''does'', ''document'', ''file'', ''from'', ''give'', ''me'', ''my'',
     ''please'', ''say'', ''tell'', ''that'', ''the'', ''this'', ''uploaded'', ''what'', ''which'', ''with'',
     [CHR 0xEA, CHR 0xB7, CHR 0xB8, CHR 0xEB, CHR 0x9F, CHR 0xBC],
     [CHR 0xEA, CHR 0xB8, CHR 0xB0, CHR 0xEC, CHR 0xA4, CHR 0x80, CHR 0xEC, CHR 0x9C, CHR 0xBC, CHR 0xEB, CHR 0xA1, CHR 0x9C],
     [CHR 0xEB, CHR 0x8C, CHR 0x80, CHR 0xED, CHR 0x95, CHR 0xB4],
     [CHR 0xEB, CHR 0x8C, CHR 0x80, CHR 0xED, CHR 0x95, CHR 0xB4, CHR 0xEC, CHR 0x84, CHR 0x9C],
     [CHR 0xEB, CHR 0xAC, CHR 0xB8, CHR 0xEC, CHR 0x84, CHR 0x9C],
     [CHR 0xEB, CHR 0xB3, CHR 0xB4, CHR 0xEC, CHR 0x97, CHR 0xAC, CHR 0xEC, CHR 0xA4, CHR 0x98],
     [CHR 0xEC, CHR 0x84, CHR 0xA4, CHR 0xEB, CHR 0xAA, CHR 0x85],
     [CHR 0xEC, CHR 0x84, CHR 0xA4, CHR 0xEB, CHR 0xAA, CHR 0x85, CHR 0xED, CHR 0x95, CHR 0xB4, CHR 0xEC, CHR 0xA4, CHR 0x98],
     [CHR 0xEC, CHR 0x95, CHR 0x8C, CHR 0xEB, CHR 0xA0, CHR 0xA4, CHR 0xEC, CHR 0xA4, CHR 0x98],
     [CHR 0xEC, CHR 0x9E, CHR 0x90, CHR 0xEB, CHR 0xA3, CHR 0x8C],
     [CHR 0xED, CHR 0x8C, CHR 0x8C, CHR 0xEC, CHR 0x9D, CHR 0xBC],
     [CHR 0xED, CHR 0x95, CHR 0xB4, CHR 0xEB, CHR 0x8B, CHR 0xB9]]"

definition metadata_signal_terms :: "string list \<Rightarrow> string list" where
  "metadata_signal_terms terms = filter (\<lambda>t. t \<notin> set document_metadata_stopwords) terms"

definition keyword_score :: "string \<Rightarrow> string list \<Rightarrow> nat" where
  "keyword_score content terms = length (filter (\<lambda>t. contains t (py_casefold content)) terms)"

definition normalized_keyword_score :: "('s::linorder, 'a) retrieval_env_scheme \<Rightarrow> nat \<Rightarrow> string list \<Rightarrow> 's" where
  "normalized_keyword_score env score terms =
     (if terms = [] then f_lit env 0 1
      else min (fl_div (re_ops env) (f_int env (int score)) (f_int env (int (length terms)))) (f_lit env 10 1))"

definition keyword_rank :: "('s::linorder, 'a) retrieval_env_scheme \<Rightarrow> string \<Rightarrow> string list \<Rightarrow> 's" where
  "keyword_rank env content terms = normalized_keyword_score env (keyword_score content terms) terms"

text \<open>\<open>value.rsplit(".", 1)[0]\<close>.\<close>

definition file_stem :: "string \<Rightarrow> string" where
  "file_stem s = (if CHR ''.'' \<in> set s then rev (tl (dropWhile (\<lambda>c. c \<noteq> CHR ''.'') (rev s))) else s)"

definition metadata_values :: "string \<Rightarrow> string option \<Rightarrow> string list" where
  "metadata_values title source_filename =
     title # (case source_filename of None \<Rightarrow> [] | Some f \<Rightarrow> if f = '''' then [] else [f, file_stem f])"

fun max_or_default :: "'s::linorder \<Rightarrow> 's list \<Rightarrow> 's" where
  "max_or_default d [] = d"
| "max_or_default d (x # xs) = foldl max x xs"

definition document_metadata_score ::
  "('s::linorder, 'a) retrieval_env_scheme \<Rightarrow> string \<Rightarrow> string list \<Rightarrow> string \<Rightarrow> string option \<Rightarrow> 's" where
  "document_metadata_score env query signal_terms title source_filename =
     (let values = metadata_values title source_filename;
          terms = filter (\<lambda>t. py_len t > 1) (concat (map metadata_terms values));
          normalized_query = normalize_metadata_text query;
          normalized_values = filter (\<lambda>v. v \<noteq> '''') (map normalize_metadata_text values);
          overlap = filter (\<lambda>t. t \<in> set terms) signal_terms;
          overlap_score = fl_div (re_ops env) (f_int env (int (length overlap))) (f_int env (int (max (length signal_terms) 1)));
          compact_query = concat (filter (\<lambda>t. t \<notin> set document_metadata_stopwords) (metadata_terms query));
          fuzzy_score = max_or_default (f_lit env 0 1)
            (map (\<lambda>v. re_ratio env compact_query (concat (metadata_terms v)))
              (filter (\<lambda>v. v \<noteq> '''' \<and> list_ex ascii_digit v) values))
      in if terms = [] then f_lit env 0 1
         else if list_ex (\<lambda>v. contains v normalized_query) normalized_values then f_lit env 12 1
         else if fuzzy_score \<ge> f_lit env 72 2
         then f_round env (min (f_lit env 10 1) (f_add env (f_lit env 75 2) (f_mul env (f_lit env 25 2) fuzzy_score)))
         else if length overlap < 2 then f_lit env 0 1
         else f_round env (min (f_lit env 85 2) (f_add env (f_lit env 55 2) (f_mul env (f_lit env 3 1) overlap_score))))"

section \<open>Chunk bodies\<close>

definition is_heading :: "string \<Rightarrow> bool" where
  "is_heading line \<longleftrightarrow> take 1 line = ''#''"

definition non_heading_text :: "string \<Rightarrow> string" where
  "non_heading_text content =
     py_strip (py_join [CHR 0x0A] (filter (\<lambda>l. l \<noteq> '''' \<and> \<not> is_heading l) (map py_strip (py_splitlines content))))"

definition is_heading_only :: "string \<Rightarrow> bool" where
  "is_heading_only content =
     (let lines = filter (\<lambda>l. l \<noteq> '''') (map py_strip (py_splitlines content)) in lines \<noteq> [] \<and> list_all is_heading lines)"

definition metadata_profile_chunk_body_score ::
  "('s::linorder, 'a) retrieval_env_scheme \<Rightarrow> string \<Rightarrow> string list \<Rightarrow> 's" where
  "metadata_profile_chunk_body_score env content signal_terms =
     (let body_bonus = min (fl_div (re_ops env) (f_int env (int (py_len (non_heading_text content)))) (f_int env 600)) (f_lit env 25 2);
          heading_penalty = (if is_heading_only content then f_lit env 25 2 else f_lit env 0 1)
      in max (fl_sub (re_ops env) (f_add env (f_mul env (f_lit env 75 2) (keyword_rank env content signal_terms)) body_bonus)
                heading_penalty)
           (f_lit env 0 1))"

definition METADATA_PROFILE_CHUNKS_PER_DOCUMENT :: nat where
  "METADATA_PROFILE_CHUNKS_PER_DOCUMENT = 4"

definition metadata_profile_document_chunks ::
  "('s::linorder, 'a) retrieval_env_scheme \<Rightarrow> DocumentModel \<Rightarrow> DocumentChunkModel list \<Rightarrow> 's \<Rightarrow> string list \<Rightarrow> 's RetrievedChunk list" where
  "metadata_profile_document_chunks env d chunks score signal_terms =
     (if chunks = [] then []
      else
        let scored_chunks = map (\<lambda>c. (c, metadata_profile_chunk_body_score env (ch_content c) signal_terms)) chunks;
            ranked_chunks = take METADATA_PROFILE_CHUNKS_PER_DOCUMENT
              (sort_key (\<lambda>(c, s). (Desc s, ch_ordinal c)) scored_chunks)
        in map (\<lambda>(c, s). \<lparr>rc_chunk = c, rc_document = d,
                 rc_score = f_round env (max (fl_sub (re_ops env) (f_add env score (min s (f_lit env 35 2)))
                    (f_mul env (f_int env (ch_ordinal c)) (f_lit env 1 3))) (f_lit env 1 2)),
                 rc_source = ''document_metadata_profile''\<rparr>) ranked_chunks)"

section \<open>Deduplication and rankings\<close>

definition normalize_chunk_content :: "string \<Rightarrow> string" where
  "normalize_chunk_content content = py_join '' '' (py_split (py_casefold content))"

definition ordinal_key :: "'s RetrievedChunk \<Rightarrow> ident \<times> int" where
  "ordinal_key c = (d_id (rc_document c), ch_ordinal (rc_chunk c))"

definition content_key :: "'s RetrievedChunk \<Rightarrow> ident \<times> string" where
  "content_key c = (d_id (rc_document c), normalize_chunk_content (ch_content (rc_chunk c)))"

text \<open>The three sets of seen keys are those of the chunks kept so far.\<close>

fun dedupe_loop :: "nat \<Rightarrow> 's RetrievedChunk list \<Rightarrow> 's RetrievedChunk list \<Rightarrow> 's RetrievedChunk list" where
  "dedupe_loop limit [] deduped = deduped"
| "dedupe_loop limit (c # cs) deduped =
     (if chunk_id c \<in> chunk_id ` set deduped \<or> ordinal_key c \<in> ordinal_key ` set deduped
         \<or> content_key c \<in> content_key ` set deduped
      then dedupe_loop limit cs deduped
      else if length (deduped @ [c]) \<ge> limit then deduped @ [c]
      else dedupe_loop limit cs (deduped @ [c]))"

definition dedupe_retrieved_chunks :: "'s RetrievedChunk list \<Rightarrow> nat \<Rightarrow> 's RetrievedChunk list" where
  "dedupe_retrieved_chunks chunks limit = dedupe_loop limit chunks []"

definition group_by_source :: "'s RetrievedChunk list \<Rightarrow> (string \<times> 's RetrievedChunk list) list" where
  "group_by_source chunks = fold (\<lambda>c table. AList.update (rc_source c)
     ((case map_of table (rc_source c) of None \<Rightarrow> [] | Some cs \<Rightarrow> cs) @ [c]) table) chunks []"

definition rank_retrieval_sources :: "'s::linorder RetrievedChunk list \<Rightarrow> nat \<Rightarrow> 's RetrievedChunk list" where
  "rank_retrieval_sources chunks limit =
     concat (map (\<lambda>(_, cs). dedupe_retrieved_chunks (sort_key rank_key cs) limit) (group_by_source chunks))"

definition retrieval_source_priority :: "string \<Rightarrow> int" where
  "retrieval_source_priority source =
     (if source = ''document_metadata'' then 40
      else if take 18 source = ''structured_entity:'' then 30
      else if source = ''semantic_vector'' then 20
      else if source = ''document_metadata_profile'' then 15
      else 10)"

definition prefer_retrieved_chunk :: "'s::linorder RetrievedChunk \<Rightarrow> 's RetrievedChunk \<Rightarrow> bool" where
  "prefer_retrieved_chunk candidate existing =
     (if retrieval_source_priority (rc_source candidate) \<noteq> retrieval_source_priority (rc_source existing)
      then retrieval_source_priority (rc_source candidate) > retrieval_source_priority (rc_source existing)
      else rc_score candidate > rc_score existing)"

record 's RankedBm25Chunk =
  rb_chunk_id :: ident
  rb_score :: 's

fun list_min :: "'s::linorder list \<Rightarrow> 's" where
  "list_min (x # xs) = foldl min x xs"

definition rank_bm25_rows ::
  "('s::linorder, 'a) retrieval_env_scheme \<Rightarrow> Bm25CorpusRow list \<Rightarrow> string \<Rightarrow> nat \<Rightarrow> 's RankedBm25Chunk list" where
  "rank_bm25_rows env rows query limit =
     (let query_tokens = bm25_tokens query; tokenized_corpus = map (\<lambda>r. bm25_tokens (br_content r)) rows
      in if limit = 0 \<or> rows = [] \<or> query_tokens = [] \<or> list_all (\<lambda>ts. ts = []) tokenized_corpus then []
         else
           let raw_scores = map (re_bm25 env tokenized_corpus query_tokens) [0..<length rows];
               matched = map (\<lambda>(r, ts, s). (s, r)) (filter (\<lambda>(r, ts, s). set query_tokens \<inter> set ts \<noteq> {})
                           (zip rows (zip tokenized_corpus raw_scores)))
           in if matched = [] then []
              else
                let minimum_score = list_min (map fst matched);
                    positive_offset = (if minimum_score \<le> f_int env 0
                      then fl_sub (re_ops env) (f_lit env 1 9) minimum_score else f_lit env 0 1);
                    ranked = take limit (sort_key (\<lambda>(s, r). (Desc s, br_ordinal r, br_chunk_id r)) matched)
                in map (\<lambda>(s, r). \<lparr>rb_chunk_id = br_chunk_id r, rb_score = max (f_add env s positive_offset) (f_lit env 1 9)\<rparr>) ranked)"

definition structured_entity_score :: "('s::linorder, 'a) retrieval_env_scheme \<Rightarrow> StructuredKnowledgeEntityModel \<Rightarrow> string list \<Rightarrow> 's" where
  "structured_entity_score env e terms =
     f_round env (f_add env (f_lit env 9 1) (f_mul env (f_lit env 1 1) (keyword_rank env (se_label e) terms)))"

end
