(* ===== verification/Retrieval_Queries.thy ===== *)
theory Retrieval_Queries
  imports Retrieval_Scoring
begin

text \<open>
  The methods of \<open>RetrievalService\<close> (\<open>knowledge/retrieval.py\<close>) over the row queries and scores: the
  metadata, profile, vector and related-entity lanes, their combination by \<open>retrieve_scoped\<close>, the BM25
  lane, the structured lane and the selected document. The row cache of a request is passed from lane
  to lane as the code passes it. Every chunk any of them returns is proved to be a stored chunk of a
  document the retrieval filter lets through.
\<close>

record 's query =
  q_user_id :: ident
  q_knowledge_base_ids :: "ident list option"
  q_text :: string
  q_limit :: nat

definition retrieved :: "chunk_row \<Rightarrow> 's \<Rightarrow> string \<Rightarrow> 's RetrievedChunk" where
  "retrieved row score source = \<lparr>rc_chunk = fst row, rc_document = snd row, rc_score = score, rc_source = source\<rparr>"

definition by_score :: "'s::linorder RetrievedChunk list \<Rightarrow> 's RetrievedChunk list" where
  "by_score cs = sort_key (\<lambda>c. (Desc (rc_score c), ch_ordinal (rc_chunk c))) cs"

definition cached_chunks ::
  "('s, 'b) retrieval_env_scheme \<Rightarrow> ident \<Rightarrow> ident list \<Rightarrow> ident list option \<Rightarrow> 'a retrieval_db_scheme \<Rightarrow> row_cache
    \<Rightarrow> chunk_row list \<times> row_cache" where
  "cached_chunks env user_id document_ids ids db cache =
     authorized_chunks_for_document_ids user_id document_ids ids (re_has_purpose env) db cache"

section \<open>Lanes of a scoped retrieval\<close>

text \<open>The authorized documents whose title or filename matches, with their scores; each document once.\<close>

definition metadata_scores ::
  "('s::linorder, 'b) retrieval_env_scheme \<Rightarrow> string \<Rightarrow> string list \<Rightarrow> DocumentModel list \<Rightarrow> (ident \<times> DocumentModel \<times> 's) list" where
  "metadata_scores env query signal_terms ds = fold (\<lambda>d table.
     if d_id d \<in> fst ` set table then table
     else
       let score = document_metadata_score env query signal_terms (d_title d) (d_source_filename d)
       in if score > f_int env 0 then AList.update (d_id d) (d, score) table else table) ds []"

definition document_metadata_matches ::
  "('s::linorder, 'b) retrieval_env_scheme \<Rightarrow> ident \<Rightarrow> string \<Rightarrow> string list \<Rightarrow> ident list option \<Rightarrow> nat
    \<Rightarrow> 'a retrieval_db_scheme \<Rightarrow> row_cache \<Rightarrow> 's RetrievedChunk list \<times> row_cache" where
  "document_metadata_matches env user_id query terms ids limit db cache =
     (let signal_terms = metadata_signal_terms terms;
          scored = metadata_scores env query signal_terms (authorized_document_rows user_id ids (re_has_purpose env) db)
      in if signal_terms = [] \<or> scored = [] then ([], cache)
         else
           let (rows, cache') = cached_chunks env user_id (map fst scored) ids db cache;
               scored_rows = concat (map (\<lambda>row. case map_of scored (d_id (snd row)) of
                   None \<Rightarrow> [] | Some (_, score) \<Rightarrow> [(row, score)]) rows);
               ordered = sort_key (\<lambda>(row, score). (Desc score, Desc (d_created_at (snd row)), ch_ordinal (fst row))) scored_rows
           in (map (\<lambda>(row, score). retrieved row
                  (f_round env (max (fl_sub (re_ops env) score (f_mul env (f_int env (ch_ordinal (fst row))) (f_lit env 1 3)))
                     (f_lit env 1 2))) ''document_metadata'') (take limit ordered), cache'))"

definition score_profile ::
  "('s::linorder, 'b) retrieval_env_scheme \<Rightarrow> string list \<Rightarrow> 's list \<Rightarrow> DocumentMetadataProfileModel \<times> DocumentModel
    \<Rightarrow> (ident \<times> DocumentModel \<times> 's) list \<Rightarrow> (ident \<times> DocumentModel \<times> 's) list" where
  "score_profile env signal_terms query_embedding row table =
     (let (p, d) = row; profile_embedding = embedding_from_json env (mp_embedding_json p);
         rank = keyword_rank env (mp_search_text p) signal_terms;
         compatible = compatible_embedding env query_embedding profile_embedding (mp_embedding_index_id p);
         score = (if \<not> compatible then f_mul env (f_lit env 55 2) rank
                  else f_add env (f_mul env (f_lit env 8 1) (max (cosine_similarity env query_embedding profile_embedding) (f_lit env 0 1)))
                         (f_mul env (f_lit env 2 1) rank));
         rounded = f_round env score
     in if \<not> compatible \<and> rank \<le> f_int env 0 then table
        else if score \<le> f_lit env 5 2 then table
        else case map_of table (d_id d) of
               None \<Rightarrow> AList.update (d_id d) (d, rounded) table
             | Some (_, existing) \<Rightarrow> if rounded > existing then AList.update (d_id d) (d, rounded) table else table)"

definition profile_scores ::
  "('s::linorder, 'b) retrieval_env_scheme \<Rightarrow> string list \<Rightarrow> 's list \<Rightarrow> (DocumentMetadataProfileModel \<times> DocumentModel) list
    \<Rightarrow> (ident \<times> DocumentModel \<times> 's) list" where
  "profile_scores env signal_terms query_embedding rows = fold (score_profile env signal_terms query_embedding) rows []"

fun profile_loop ::
  "('s::linorder, 'b) retrieval_env_scheme \<Rightarrow> (ident \<Rightarrow> DocumentChunkModel list) \<Rightarrow> string list \<Rightarrow> nat
    \<Rightarrow> (DocumentModel \<times> 's) list \<Rightarrow> 's RetrievedChunk list \<Rightarrow> 's RetrievedChunk list" where
  "profile_loop env chunks_of signal_terms limit [] matches = matches"
| "profile_loop env chunks_of signal_terms limit ((d, score) # ranked) matches =
     (let matches' = matches @ metadata_profile_document_chunks env d (chunks_of (d_id d)) score signal_terms
      in if length matches' \<ge> limit then matches' else profile_loop env chunks_of signal_terms limit ranked matches')"

definition document_metadata_profile_matches ::
  "('s::linorder, 'b) retrieval_env_scheme \<Rightarrow> ident \<Rightarrow> string list \<Rightarrow> 's list \<Rightarrow> ident list option \<Rightarrow> nat
    \<Rightarrow> 'a retrieval_db_scheme \<Rightarrow> row_cache \<Rightarrow> 's RetrievedChunk list \<times> row_cache" where
  "document_metadata_profile_matches env user_id terms query_embedding ids limit db cache =
     (let signal_terms = metadata_signal_terms terms
      in if \<not> re_has_profiles env \<or> signal_terms = [] \<or> query_embedding = [] then ([], cache)
         else
           let document_scores = profile_scores env signal_terms query_embedding
                 (authorized_metadata_profile_rows user_id ids (re_has_purpose env) db)
           in if document_scores = [] then ([], cache)
              else
                let (rows, cache') = cached_chunks env user_id (map fst document_scores) ids db cache;
                    chunks_of = (\<lambda>i. map fst (filter (\<lambda>row. d_id (snd row) = i) rows));
                    ranked_documents = sort_key (\<lambda>(d, score). (Desc score, Desc (d_created_at d), d_id d)) (map snd document_scores);
                    matches = profile_loop env chunks_of signal_terms limit ranked_documents []
                in (take limit (by_score matches), cache'))"

definition combined_score :: "('s::linorder, 'b) retrieval_env_scheme \<Rightarrow> bool \<Rightarrow> 's \<Rightarrow> 's \<Rightarrow> 's" where
  "combined_score env semantic_only positive_cosine rank =
     (if semantic_only then positive_cosine
      else f_add env (f_mul env (f_lit env 75 2) positive_cosine) (f_mul env (f_lit env 25 2) rank))"

definition json_match ::
  "('s::linorder, 'b) retrieval_env_scheme \<Rightarrow> 's list \<Rightarrow> string list \<Rightarrow> bool \<Rightarrow> chunk_row \<Rightarrow> 's RetrievedChunk list" where
  "json_match env query_embedding terms semantic_only row =
     (let chunk_embedding = embedding_from_json env (ch_embedding_json (fst row));
          rank = keyword_rank env (ch_content (fst row)) terms
      in if compatible_embedding env query_embedding chunk_embedding (ch_embedding_index_id (fst row))
         then let score = combined_score env semantic_only (max (cosine_similarity env query_embedding chunk_embedding) (f_lit env 0 1)) rank
              in if score > f_int env 0 then [retrieved row (f_round env score) ''semantic_vector''] else []
         else if keyword_score (ch_content (fst row)) terms > 0 \<and> \<not> semantic_only
         then [retrieved row (f_round env rank) ''keyword_match''] else [])"

definition json_authorized_matches ::
  "('s::linorder, 'b) retrieval_env_scheme \<Rightarrow> ident \<Rightarrow> 's list \<Rightarrow> string list \<Rightarrow> ident list option \<Rightarrow> bool
    \<Rightarrow> 'a retrieval_db_scheme \<Rightarrow> 's RetrievedChunk list" where
  "json_authorized_matches env user_id query_embedding terms ids semantic_only db =
     (let rows = authorized_chunk_rows user_id ids (re_has_purpose env) db
      in if rows = [] then [] else by_score (concat (map (json_match env query_embedding terms semantic_only) rows)))"

text \<open>
  The vector search of PostgreSQL, with its own combination of the filters; a row comes with the distance
  the \<open>SELECT\<close> computes, and an empty answer stands for a query that failed and was rolled back.
\<close>

definition postgres_vector_rows ::
  "('s::linorder, 'b) retrieval_env_scheme \<Rightarrow> ident \<Rightarrow> 's list \<Rightarrow> ident \<Rightarrow> ident list option \<Rightarrow> nat
    \<Rightarrow> 'a retrieval_db_scheme \<Rightarrow> (chunk_row \<times> 's) list" where
  "postgres_vector_rows env user_id query_embedding index_id ids limit db =
     (let distance = (\<lambda>c. case re_vector env c of
            Some v \<Rightarrow> if ch_embedding_index_id c = Some index_id \<and> length v = length query_embedding
                      then Some (re_cosine_distance env v query_embedding) else None
          | None \<Rightarrow> None);
          rows = concat (map (\<lambda>row. case distance (fst row) of None \<Rightarrow> [] | Some x \<Rightarrow> [(row, x)])
            (join_documents ch_document_id (\<lambda>d. authorized_document_filter user_id None True True db d
               \<and> knowledge_base_scope_filter user_id ids True True db d) (document_chunks db) db))
      in take limit (sort_key (\<lambda>(row, x). (x, Desc (d_created_at (snd row)), ch_ordinal (fst row))) rows))"

definition postgres_vector_authorized_matches ::
  "('s::linorder, 'b) retrieval_env_scheme \<Rightarrow> ident \<Rightarrow> 's list \<Rightarrow> string list \<Rightarrow> ident list option \<Rightarrow> nat \<Rightarrow> bool
    \<Rightarrow> 'a retrieval_db_scheme \<Rightarrow> 's RetrievedChunk list" where
  "postgres_vector_authorized_matches env user_id query_embedding terms ids limit semantic_only db =
     (if query_embedding = [] then []
      else case embedding_identity env query_embedding of
             None \<Rightarrow> []
           | Some identity \<Rightarrow>
               if \<not> re_vector_query_ok env then []
               else by_score (concat (map (\<lambda>(row, distance).
                 let score = combined_score env semantic_only (max (fl_sub (re_ops env) (f_int env 1) distance) (f_lit env 0 1))
                               (keyword_rank env (ch_content (fst row)) terms)
                 in if score > f_int env 0 then [retrieved row (f_round env score) ''semantic_vector''] else [])
                 (postgres_vector_rows env user_id query_embedding (re_index_key env identity) ids limit db))))"

definition direct_authorized_matches ::
  "('s::linorder, 'b) retrieval_env_scheme \<Rightarrow> ident \<Rightarrow> 's list \<Rightarrow> string list \<Rightarrow> ident list option \<Rightarrow> bool
    \<Rightarrow> 'a retrieval_db_scheme \<Rightarrow> 's RetrievedChunk list" where
  "direct_authorized_matches env user_id query_embedding terms ids semantic_only db =
     (let sql_matches = (if re_uses_postgres env
            then postgres_vector_authorized_matches env user_id query_embedding terms ids 20 semantic_only db else [])
      in if sql_matches \<noteq> [] then sql_matches
         else json_authorized_matches env user_id query_embedding terms ids semantic_only db)"

definition expand_authorized_related ::
  "('s::linorder, 'b) retrieval_env_scheme \<Rightarrow> ident \<Rightarrow> 's RetrievedChunk list \<Rightarrow> ident list option
    \<Rightarrow> 'a retrieval_db_scheme \<Rightarrow> 's RetrievedChunk list" where
  "expand_authorized_related env user_id direct ids db =
     (let seeds = filter (\<lambda>c. rc_source c \<noteq> ''document_metadata_profile'') direct;
          seed_chunk_ids = map chunk_id seeds;
          entity_ids = map em_entity_id (entity_mentions_for_chunks db seed_chunk_ids);
          rows = concat (map (\<lambda>row. map (\<lambda>_. row) (filter (\<lambda>m. em_chunk_id m = ch_id (fst row)
                      \<and> em_entity_id m \<in> set entity_ids \<and> ch_id (fst row) \<notin> set seed_chunk_ids) (entity_mentions db)))
                   (join_documents ch_document_id (retrieval_filter user_id ids (re_has_purpose env) db) (document_chunks db) db))
      in if seeds = [] \<or> entity_ids = [] then []
         else map (\<lambda>row. retrieved row (f_lit env 1 1) ''graph_expansion'')
                (fold (\<lambda>row kept. if ch_id (fst row) \<in> (\<lambda>r. ch_id (fst r)) ` set kept then kept else kept @ [row])
                  (sort_authorized_chunk_rows rows) []))"

definition recent_authorized_chunks ::
  "('s::linorder, 'b) retrieval_env_scheme \<Rightarrow> ident \<Rightarrow> nat \<Rightarrow> ident list option \<Rightarrow> 'a retrieval_db_scheme \<Rightarrow> 's RetrievedChunk list" where
  "recent_authorized_chunks env user_id limit ids db =
     map (\<lambda>row. retrieved row (f_lit env 1 1) ''document_fallback'')
       (take limit (authorized_chunk_rows user_id ids (re_has_purpose env) db))"

fun overview_loop ::
  "('s::linorder, 'b) retrieval_env_scheme \<Rightarrow> nat \<Rightarrow> chunk_row list \<Rightarrow> ident list \<Rightarrow> nat \<Rightarrow> 's RetrievedChunk list
    \<Rightarrow> 's RetrievedChunk list" where
  "overview_loop env char_budget [] existing used supplemented = supplemented"
| "overview_loop env char_budget (row # rows) existing used supplemented =
     (if ch_id (fst row) \<in> set existing then overview_loop env char_budget rows existing used supplemented
      else if used + py_len (ch_content (fst row)) > char_budget \<and> supplemented \<noteq> []
      then overview_loop env char_budget rows existing used supplemented
      else overview_loop env char_budget rows (existing @ [ch_id (fst row)]) (used + py_len (ch_content (fst row)))
             (supplemented @ [retrieved row (f_lit env 5 2) ''document_overview'']))"

definition with_small_document_overview_chunks ::
  "('s::linorder, 'b) retrieval_env_scheme \<Rightarrow> 's RetrievedChunk list \<Rightarrow> ident \<Rightarrow> ident list option \<Rightarrow> nat
    \<Rightarrow> 'a retrieval_db_scheme \<Rightarrow> row_cache \<Rightarrow> 's RetrievedChunk list \<times> row_cache" where
  "with_small_document_overview_chunks env ranked user_id ids char_budget db cache =
     (if ranked = [] then (ranked, cache)
      else
        let (rows, cache') = cached_chunks env user_id (dict_fromkeys (map (\<lambda>c. d_id (rc_document c)) ranked)) ids db cache
        in (overview_loop env char_budget rows (map chunk_id ranked)
              (sum_list (map (\<lambda>c. py_len (ch_content (rc_chunk c))) ranked)) ranked, cache'))"

section \<open>Scoped retrieval\<close>

definition combine_direct :: "'s::linorder RetrievedChunk list \<Rightarrow> (ident \<times> 's RetrievedChunk) list \<Rightarrow> (ident \<times> 's RetrievedChunk) list" where
  "combine_direct direct combined = fold (\<lambda>c table.
     case map_of table (chunk_id c) of
       None \<Rightarrow> AList.update (chunk_id c) c table
     | Some existing \<Rightarrow> if prefer_retrieved_chunk c existing then AList.update (chunk_id c) c table else table) direct combined"

definition combine_expanded :: "'s::linorder RetrievedChunk list \<Rightarrow> (ident \<times> 's RetrievedChunk) list \<Rightarrow> (ident \<times> 's RetrievedChunk) list" where
  "combine_expanded expanded combined = fold (\<lambda>c table.
     case map_of table (chunk_id c) of
       None \<Rightarrow> AList.update (chunk_id c) c table
     | Some existing \<Rightarrow>
         if rc_source existing = ''document_metadata_profile''
         then AList.update (chunk_id c) (c\<lparr>rc_score := max (rc_score c) (rc_score existing)\<rparr>) table
         else table) expanded combined"

definition retrieve_scoped ::
  "('s::linorder, 'b) retrieval_env_scheme \<Rightarrow> ident \<Rightarrow> string \<Rightarrow> nat \<Rightarrow> ident list option \<Rightarrow> bool
    \<Rightarrow> 'a retrieval_db_scheme \<Rightarrow> 's RetrievedChunk list" where
  "retrieve_scoped env user_id query limit ids hybrid_search db =
     (let terms = query_terms query;
          (metadata_matches, cache1) = document_metadata_matches env user_id query terms ids limit db [];
          query_embedding = ep_embed_query (re_provider env) query;
          (profile_matches, cache2) = document_metadata_profile_matches env user_id terms query_embedding ids limit db cache1;
          direct_matches = direct_authorized_matches env user_id query_embedding terms ids hybrid_search db;
          direct = metadata_matches @ direct_matches @ profile_matches;
          expanded = expand_authorized_related env user_id direct ids db;
          fallback = dedupe_retrieved_chunks (recent_authorized_chunks env user_id limit ids db) limit
      in if hybrid_search
         then
           let ranked_by_source = rank_retrieval_sources (direct @ expanded) limit
           in if ranked_by_source = [] \<and> needs_personal_document_fallback query then fallback
              else if needs_document_overview query
              then
                let overview_seed = dedupe_retrieved_chunks (by_score ranked_by_source) limit;
                    supplemented = fst (with_small_document_overview_chunks env overview_seed user_id ids 6000 db cache2)
                in ranked_by_source @ filter (\<lambda>c. rc_source c = ''document_overview'') supplemented
              else ranked_by_source
         else
           let combined = combine_expanded expanded (combine_direct direct [])
           in if combined = [] \<and> needs_personal_document_fallback query then fallback
              else
                let ranked = by_score (map snd combined);
                    ranked' = (if needs_document_overview query
                               then fst (with_small_document_overview_chunks env ranked user_id ids 6000 db cache2) else ranked)
                in dedupe_retrieved_chunks ranked' limit)"

section \<open>The other lanes\<close>

definition retrieve_lexical_scoped ::
  "('s::linorder, 'b) retrieval_env_scheme \<Rightarrow> ident \<Rightarrow> string \<Rightarrow> nat \<Rightarrow> ident list option \<Rightarrow> 'a retrieval_db_scheme \<Rightarrow> 's RetrievedChunk list" where
  "retrieve_lexical_scoped env user_id query limit ids db =
     (if limit = 0 then []
      else
        let ranked = rank_bm25_rows env (authorized_bm25_corpus_rows user_id ids (re_has_purpose env) db) query limit
        in if ranked = [] then []
           else
             let hydrated_rows = authorized_bm25_top_chunks user_id (map rb_chunk_id ranked) ids (re_has_purpose env) db;
                 rows_by_chunk_id = map_of (rev (map (\<lambda>row. (ch_id (fst row), row)) hydrated_rows))
             in concat (map (\<lambda>item. case rows_by_chunk_id (rb_chunk_id item) of
                    None \<Rightarrow> [] | Some row \<Rightarrow> [retrieved row (rb_score item) ''keyword_match'']) ranked))"

record 's RetrievedStructuredEntity =
  rt_entity :: StructuredKnowledgeEntityModel
  rt_chunk :: DocumentChunkModel
  rt_document :: DocumentModel
  rt_score :: 's

definition retrieve_structured_entities ::
  "('s::linorder, 'b) retrieval_env_scheme \<Rightarrow> ident \<Rightarrow> string \<Rightarrow> string list \<Rightarrow> nat \<Rightarrow> ident list option
    \<Rightarrow> 'a retrieval_db_scheme \<Rightarrow> 's RetrievedStructuredEntity list" where
  "retrieve_structured_entities env user_id query entity_types limit ids db =
     (let unique_entity_types = dict_fromkeys entity_types;
          rows = concat (map (\<lambda>(e, d). map (\<lambda>c. (e, c, d)) (filter (\<lambda>c. ch_id c = se_chunk_id e) (document_chunks db)))
            (filter (\<lambda>(e, d). se_entity_type e \<in> set unique_entity_types)
              (join_documents se_document_id (retrieval_filter_published user_id ids (re_has_purpose env) db) (structured_entities db) db)));
          limited = take limit (sort_key (\<lambda>(e, c, d). (Desc (d_created_at d), ch_ordinal c, se_start_offset e)) rows);
          terms = query_terms query
      in if unique_entity_types = [] then []
         else sort_key (\<lambda>m. (Desc (rt_score m), ch_ordinal (rt_chunk m)))
           (map (\<lambda>(e, c, d). \<lparr>rt_entity = e, rt_chunk = c, rt_document = d, rt_score = structured_entity_score env e terms\<rparr>) limited))"

definition retrieve_selected_document ::
  "('s::linorder, 'b) retrieval_env_scheme \<Rightarrow> ident \<Rightarrow> ident \<Rightarrow> string \<Rightarrow> ident list option \<Rightarrow> nat
    \<Rightarrow> 'a retrieval_db_scheme \<Rightarrow> 's RetrievedChunk list" where
  "retrieve_selected_document env user_id document_id query ids limit db =
     (let rows = load_authorized_chunks_for_document_ids user_id [document_id] ids (re_has_purpose env) db;
          terms = query_terms query;
          query_embedding = ep_embed_query (re_provider env) query;
          ranked = map (\<lambda>row.
            let chunk_embedding = embedding_from_json env (ch_embedding_json (fst row));
                semantic_rank = (if compatible_embedding env query_embedding chunk_embedding (ch_embedding_index_id (fst row))
                  then max (cosine_similarity env query_embedding chunk_embedding) (f_lit env 0 1) else f_lit env 0 1);
                score = max (f_add env (f_mul env (f_lit env 8 1) semantic_rank)
                          (f_mul env (f_lit env 2 1) (keyword_rank env (ch_content (fst row)) terms))) (f_lit env 5 1)
            in retrieved row (f_round env score) ''selected_document'') rows
      in if rows = [] then [] else take limit (by_score ranked))"

section \<open>Counts and options\<close>

definition authorized_document_count ::
  "('s, 'b) retrieval_env_scheme \<Rightarrow> ident \<Rightarrow> ident list option \<Rightarrow> 'a retrieval_db_scheme \<Rightarrow> nat" where
  "authorized_document_count env user_id ids db =
     length (dict_fromkeys (map d_id (scalars (authorized_document_filter user_id ids True (re_has_purpose env) db) (documents db))))"

definition user_selectable_document_count ::
  "('s, 'b) retrieval_env_scheme \<Rightarrow> ident \<Rightarrow> ident list option \<Rightarrow> 'a retrieval_db_scheme \<Rightarrow> nat" where
  "user_selectable_document_count env user_id ids db =
     length (dict_fromkeys (map d_id (scalars (user_selectable_document_filter user_id ids (re_has_purpose env) db) (documents db))))"

definition document_is_user_selectable ::
  "('s, 'b) retrieval_env_scheme \<Rightarrow> ident \<Rightarrow> ident \<Rightarrow> ident list option \<Rightarrow> 'a retrieval_db_scheme \<Rightarrow> bool" where
  "document_is_user_selectable env user_id document_id ids db =
     list_ex (\<lambda>d. d_id d = document_id \<and> user_selectable_document_filter user_id ids (re_has_purpose env) db d) (documents db)"

section \<open>Every returned chunk is authorized\<close>

definition row_ok :: "ident \<Rightarrow> ident list option \<Rightarrow> bool \<Rightarrow> 'a retrieval_db_scheme \<Rightarrow> chunk_row \<Rightarrow> bool" where
  "row_ok user_id ids req db row \<longleftrightarrow> fst row \<in> set (document_chunks db) \<and> snd row \<in> set (documents db)
     \<and> ch_document_id (fst row) = d_id (snd row) \<and> retrieval_filter user_id ids req db (snd row)"

definition served ::
  "('s, 'b) retrieval_env_scheme \<Rightarrow> ident \<Rightarrow> ident list option \<Rightarrow> 'a retrieval_db_scheme \<Rightarrow> 's RetrievedChunk \<Rightarrow> bool" where
  "served env user_id ids db c \<longleftrightarrow> row_ok user_id ids (re_has_purpose env) db (rc_chunk c, rc_document c)"

definition all_served ::
  "('s, 'b) retrieval_env_scheme \<Rightarrow> ident \<Rightarrow> ident list option \<Rightarrow> 'a retrieval_db_scheme \<Rightarrow> 's RetrievedChunk list \<Rightarrow> bool" where
  "all_served env user_id ids db cs \<longleftrightarrow> (\<forall>c \<in> set cs. served env user_id ids db c)"

lemma all_served_simps [simp]:
  "all_served env u ids db []"
  "all_served env u ids db (c # cs) \<longleftrightarrow> served env u ids db c \<and> all_served env u ids db cs"
  "all_served env u ids db (cs @ ds) \<longleftrightarrow> all_served env u ids db cs \<and> all_served env u ids db ds"
  by (auto simp: all_served_def)

lemma all_served_subset: "set cs \<subseteq> set ds \<Longrightarrow> all_served env u ids db ds \<Longrightarrow> all_served env u ids db cs"
  by (auto simp: all_served_def)

lemma all_served_take [intro]: "all_served env u ids db cs \<Longrightarrow> all_served env u ids db (take n cs)"
  by (rule all_served_subset) (rule set_take_subset)

lemma all_served_filter [intro]: "all_served env u ids db cs \<Longrightarrow> all_served env u ids db (filter p cs)"
  by (rule all_served_subset) (auto)

lemma served_by_score [simp]: "all_served env u ids db (by_score cs) = all_served env u ids db cs"
  by (simp add: all_served_def by_score_def)

lemma served_retrieved [simp]: "served env u ids db (retrieved row s src) = row_ok u ids (re_has_purpose env) db row"
  by (simp add: served_def retrieved_def)

lemma all_served_map: "(\<And>x. x \<in> set xs \<Longrightarrow> served env u ids db (f x)) \<Longrightarrow> all_served env u ids db (map f xs)"
  by (simp add: all_served_def)

lemma all_served_concat: "(\<And>x. x \<in> set xs \<Longrightarrow> all_served env u ids db (f x)) \<Longrightarrow> all_served env u ids db (concat (map f xs))"
  by (auto simp: all_served_def)

text \<open>The filters of the other queries are at least as strict as the one of the row queries.\<close>

lemma unpublished_weaker: "unpublished_knowledge_base_filter u True db kb \<Longrightarrow> unpublished_knowledge_base_filter u req db kb"
  by (auto simp: unpublished_knowledge_base_filter_def)

lemma published_unpublished:
  "(if req then retrievable_knowledge_base_filter u db kb else authorized_knowledge_base_filter u db kb)
    \<Longrightarrow> unpublished_knowledge_base_filter u req db kb"
proof (cases req)
  case False
  moreover assume "if req then retrievable_knowledge_base_filter u db kb else authorized_knowledge_base_filter u db kb"
  ultimately show ?thesis by (simp add: authorized_knowledge_base_filter_def unpublished_knowledge_base_filter_def) blast
qed (simp add: unpublished_retrievable)

lemma scope_filter_weaker:
  "knowledge_base_scope_filter u ids True req db d \<Longrightarrow> knowledge_base_scope_filter u ids False req db d"
  using published_unpublished [of req u db]
  by (cases req) (auto simp: knowledge_base_scope_filter_def Let_def split: option.splits if_splits)

lemma scope_filter_drop:
  "knowledge_base_scope_filter u ids pub True db d \<Longrightarrow> knowledge_base_scope_filter u ids False req db d"
  using unpublished_weaker [of u db _ req] 
  by (auto simp: knowledge_base_scope_filter_def Let_def unpublished_retrievable [symmetric] split: option.splits if_splits)

lemma published_filter:
  "retrieval_filter_published u ids req db d \<Longrightarrow> retrieval_filter u ids req db d"
  using scope_filter_weaker [of u ids req db d]
  by (auto simp: retrieval_filter_published_def retrieval_filter_def authorized_document_filter_def Let_def
      schema_has_knowledge_base_publications_def)

lemma postgres_filter:
  assumes "authorized_document_filter u None True True db d" and "knowledge_base_scope_filter u ids True True db d"
  shows "retrieval_filter u ids req db d"
proof -
  have "knowledge_base_scope_filter u ids False req db d" using scope_filter_drop [OF assms(2)] .
  moreover have "d_knowledge_base_id d \<in> set scope" if "ids = Some scope" for scope
    using scope_filter_ids [OF assms(2) that] .
  moreover have "set (system_knowledge_base_ids True db) \<subseteq> set (system_knowledge_base_ids req db)"
    by (auto simp: system_knowledge_base_ids_def)
  ultimately show ?thesis
    using assms(1) by (auto simp: retrieval_filter_def authorized_document_filter_def Let_def
        schema_has_knowledge_base_publications_def split: option.splits)
qed

lemma rows_ok_join:
  assumes "\<And>d. p d \<Longrightarrow> retrieval_filter u ids req db d"
    and "row \<in> set (join_documents ch_document_id p (document_chunks db) db)"
  shows "row_ok u ids req db row"
  using assms by (cases row) (auto simp: join_documents_iff row_ok_def)

lemma chunk_rows_ok: "row \<in> set (authorized_chunk_rows u ids req db) \<Longrightarrow> row_ok u ids req db row"
  by (auto simp: authorized_chunk_rows_def sort_authorized_chunk_rows_def intro: rows_ok_join)

lemma load_rows_ok: "row \<in> set (load_authorized_chunks_for_document_ids u wanted ids req db) \<Longrightarrow> row_ok u ids req db row"
  by (auto simp: load_authorized_chunks_for_document_ids_def sort_authorized_chunk_rows_def Let_def
      split: if_splits intro: rows_ok_join [rotated])

lemma cached_rows_ok:
  assumes "cached_chunks env u wanted ids db cache = (rows, cache')" and "cache_valid u ids (re_has_purpose env) db cache"
  shows "cache_valid u ids (re_has_purpose env) db cache'" and "\<And>row. row \<in> set rows \<Longrightarrow> row_ok u ids (re_has_purpose env) db row"
proof -
  note ok = cache_rows_ok [OF assms(2) assms(1) [unfolded cached_chunks_def]]
  show "cache_valid u ids (re_has_purpose env) db cache'" by (rule ok(1))
  show "row_ok u ids (re_has_purpose env) db row" if "row \<in> set rows" for row
    using that mset_eq_setD [OF ok(2)] by (intro load_rows_ok [of row u wanted]) simp
qed

lemma empty_cache_valid [simp]: "cache_valid u ids req db []"
  by (simp add: cache_valid_def)

section \<open>Lane by lane\<close>

lemma dedupe_loop_subset: "set (dedupe_loop limit cs kept) \<subseteq> set kept \<union> set cs"
  by (induction limit cs kept rule: dedupe_loop.induct) auto

lemma dedupe_served: "all_served env u ids db cs \<Longrightarrow> all_served env u ids db (dedupe_retrieved_chunks cs limit)"
  unfolding dedupe_retrieved_chunks_def by (rule all_served_subset) (use dedupe_loop_subset [of limit cs "[]"] in auto)

lemma group_by_source_members:
  "(s, cs) \<in> set (group_by_source chunks) \<Longrightarrow> set cs \<subseteq> set chunks"
proof -
  have "\<forall>s cs. map_of (group_by_source chunks) s = Some cs \<longrightarrow> set cs \<subseteq> set chunks" "distinct (map fst (group_by_source chunks))"
    unfolding group_by_source_def
    by (induction chunks rule: rev_induct) (fastforce simp: map_of_update split: option.splits if_splits intro: distinct_update)+
  then show "(s, cs) \<in> set (group_by_source chunks) \<Longrightarrow> set cs \<subseteq> set chunks" by (metis map_of_is_SomeI)
qed

lemma rank_sources_served: "all_served env u ids db cs \<Longrightarrow> all_served env u ids db (rank_retrieval_sources cs limit)"
  unfolding rank_retrieval_sources_def
proof (rule all_served_concat, clarify)
  fix s group assume all: "all_served env u ids db cs" and mem: "(s, group) \<in> set (group_by_source cs)"
  have "all_served env u ids db (sort_key rank_key group)"
    using group_by_source_members [OF mem] all by (auto simp: all_served_def)
  then show "all_served env u ids db (dedupe_retrieved_chunks (sort_key rank_key group) limit)" by (rule dedupe_served)
qed

lemma metadata_matches_served:
  assumes "document_metadata_matches env u query terms ids limit db cache = (cs, cache')"
    and "cache_valid u ids (re_has_purpose env) db cache"
  shows "all_served env u ids db cs \<and> cache_valid u ids (re_has_purpose env) db cache'"
proof -
  let ?scored = "metadata_scores env query (metadata_signal_terms terms) (authorized_document_rows u ids (re_has_purpose env) db)"
  show ?thesis
  proof (cases "metadata_signal_terms terms = [] \<or> ?scored = []")
    case True
    then show ?thesis using assms by (auto simp: document_metadata_matches_def Let_def)
  next
    case False
    obtain rows cache1 where run: "cached_chunks env u (map fst ?scored) ids db cache = (rows, cache1)" by fastforce
    note ok = cached_rows_ok [OF run assms(2)]
    have "cache' = cache1" using assms(1) False run by (auto simp: document_metadata_matches_def Let_def)
    moreover have "all_served env u ids db cs"
      using assms(1) False run ok(2)
      by (auto simp: document_metadata_matches_def Let_def all_served_def split: option.splits dest!: in_set_takeD)
    ultimately show ?thesis using ok(1) by simp
  qed
qed

lemma profile_chunks_served:
  assumes "c \<in> set (metadata_profile_document_chunks env d chunks score terms)"
    and "\<And>ch. ch \<in> set chunks \<Longrightarrow> row_ok u ids (re_has_purpose env) db (ch, d)"
  shows "served env u ids db c"
  using assms by (auto simp: metadata_profile_document_chunks_def Let_def served_def split: if_splits dest!: in_set_takeD)

lemma profile_loop_served:
  assumes "\<And>d s ch. (d, s) \<in> set ranked \<Longrightarrow> ch \<in> set (chunks_of (d_id d)) \<Longrightarrow> row_ok u ids (re_has_purpose env) db (ch, d)"
    and "all_served env u ids db matches"
  shows "all_served env u ids db (profile_loop env chunks_of terms limit ranked matches)"
  using assms
proof (induction env chunks_of terms limit ranked matches rule: profile_loop.induct)
  case (2 env chunks_of terms limit d score ranked matches)
  have "all_served env u ids db (metadata_profile_document_chunks env d (chunks_of (d_id d)) score terms)"
    using 2(2) profile_chunks_served by (fastforce simp: all_served_def)
  then have served: "all_served env u ids db (matches @ metadata_profile_document_chunks env d (chunks_of (d_id d)) score terms)"
    using 2(3) by simp
  show ?case
  proof (cases "limit \<le> length (matches @ metadata_profile_document_chunks env d (chunks_of (d_id d)) score terms)")
    case True
    then show ?thesis using served by (simp add: Let_def)
  next
    case False
    have "row_ok u ids (re_has_purpose env) db (ch, e)" if "(e, s) \<in> set ranked" "ch \<in> set (chunks_of (d_id e))" for e s ch
      using 2(2) that by (meson list.set_intros(2))
    then show ?thesis using 2(1) [OF refl False _ served] False by (simp add: Let_def)
  qed
qed simp

text \<open>Documents are rows with a primary key, so a scored document is the one its identifier names.\<close>

lemma profile_scores_snoc:
  "profile_scores env terms q (rows @ [row]) = profile_scores env terms q rows
    \<or> (\<exists>s. profile_scores env terms q (rows @ [row])
          = AList.update (d_id (snd row)) (snd row, s) (profile_scores env terms q rows))"
proof -
  have "score_profile env terms q row table = table
      \<or> (\<exists>s. score_profile env terms q row table = AList.update (d_id (snd row)) (snd row, s) table)" for table
    by (cases row; cases "map_of table (d_id (snd row))") (auto simp: score_profile_def Let_def, blast+)
  then show ?thesis by (simp add: profile_scores_def)
qed

lemma profile_scores_documents:
  "(i, d, s) \<in> set (profile_scores env terms q rows) \<Longrightarrow> i = d_id d \<and> d \<in> snd ` set rows"
proof -
  have "\<forall>x \<in> set (profile_scores env terms q rows). fst x = d_id (fst (snd x)) \<and> fst (snd x) \<in> snd ` set rows"
  proof (induction rows rule: rev_induct)
    case (snoc row rows)
    have upd: "x \<in> insert (k, v) (set al)" if "x \<in> set (AList.update k v al)"
      for k :: ident and v :: "DocumentModel \<times> 'a" and al x
      using that by (induction al) (auto split: if_splits)
    have "x = (d_id (snd row), snd row, s) \<or> x \<in> set (profile_scores env terms q rows)"
      if "x \<in> set (AList.update (d_id (snd row)) (snd row, s) (profile_scores env terms q rows))" for x s
      using upd [OF that] by blast
    then have "x \<in> set (profile_scores env terms q rows) \<or> (\<exists>s. x = (d_id (snd row), snd row, s))"
      if "x \<in> set (profile_scores env terms q (rows @ [row]))" for x
      using that profile_scores_snoc [of env terms q rows row] by metis
    then show ?case using snoc by fastforce
  qed (simp add: profile_scores_def)
  then show "(i, d, s) \<in> set (profile_scores env terms q rows) \<Longrightarrow> i = d_id d \<and> d \<in> snd ` set rows"
    by (auto dest!: bspec intro: rev_image_eqI)
qed

lemma profile_matches_served:
  assumes "document_metadata_profile_matches env u terms q ids limit db cache = (cs, cache')"
    and "cache_valid u ids (re_has_purpose env) db cache" and "unique_on d_id (documents db)"
  shows "all_served env u ids db cs \<and> cache_valid u ids (re_has_purpose env) db cache'"
proof -
  let ?signal = "metadata_signal_terms terms"
  let ?rows = "authorized_metadata_profile_rows u ids (re_has_purpose env) db"
  let ?scores = "profile_scores env ?signal q ?rows"
  show ?thesis
  proof (cases "\<not> re_has_profiles env \<or> ?signal = [] \<or> q = [] \<or> ?scores = []")
    case True
    then show ?thesis
      using assms(1,2) by (cases "?scores = []") (auto simp: document_metadata_profile_matches_def Let_def split: if_splits)
  next
    case False
    obtain rows cache1 where run: "cached_chunks env u (map fst ?scores) ids db cache = (rows, cache1)" by fastforce
    note ok = cached_rows_ok [OF run assms(2)]
    let ?of = "\<lambda>i. map fst (filter (\<lambda>row. d_id (snd row) = i) rows)"
    let ?ranked = "sort_key (\<lambda>(d, score). (Desc score, Desc (d_created_at d), d_id d)) (map snd ?scores)"
    have "row_ok u ids (re_has_purpose env) db (ch, d)"
      if scored: "(d, s) \<in> set ?ranked" and chunk: "ch \<in> set (?of (d_id d))" for d s ch
    proof -
      have "d \<in> snd ` set ?rows" using scored profile_scores_documents by fastforce
      then have "d \<in> set (documents db)" by (auto simp: authorized_metadata_profile_rows_def join_documents_iff)
      moreover obtain e where e: "(ch, e) \<in> set rows" "d_id e = d_id d" using chunk by auto
      moreover have "e \<in> set (documents db)" using ok(2) [OF e(1)] by (simp add: row_ok_def)
      ultimately have "e = d" using unique_onD [OF assms(3)] by blast
      then show ?thesis using ok(2) [OF e(1)] by simp
    qed
    then have "all_served env u ids db (profile_loop env ?of ?signal limit ?ranked [])" by (intro profile_loop_served) auto
    moreover have "cs = take limit (by_score (profile_loop env ?of ?signal limit ?ranked []))" "cache' = cache1"
      using assms(1) False run by (auto simp: document_metadata_profile_matches_def Let_def)
    ultimately show ?thesis using ok(1) by auto
  qed
qed

lemma json_matches_served: "all_served env u ids db (json_authorized_matches env u q terms ids semantic db)"
proof -
  have "all_served env u ids db (json_match env q terms semantic row)"
    if "row \<in> set (authorized_chunk_rows u ids (re_has_purpose env) db)" for row
    using chunk_rows_ok [OF that] by (simp add: json_match_def Let_def)
  then show ?thesis unfolding json_authorized_matches_def Let_def by (auto intro!: all_served_concat)
qed

lemma postgres_rows_ok:
  "(row, x) \<in> set (postgres_vector_rows env u q i ids limit db) \<Longrightarrow> row_ok u ids (re_has_purpose env) db row"
  unfolding postgres_vector_rows_def Let_def
  by (auto dest!: in_set_takeD split: option.splits if_splits intro!: rows_ok_join [rotated] postgres_filter)

lemma postgres_matches_served: "all_served env u ids db (postgres_vector_authorized_matches env u q terms ids limit semantic db)"
  unfolding postgres_vector_authorized_matches_def Let_def
  by (cases "embedding_identity env q") (auto intro!: all_served_concat intro: postgres_rows_ok)

lemma direct_matches_served: "all_served env u ids db (direct_authorized_matches env u q terms ids semantic db)"
  by (simp add: direct_authorized_matches_def Let_def json_matches_served postgres_matches_served)

lemma fold_keep_subset:
  "set (fold (\<lambda>row kept. if p row kept then kept else kept @ [row]) rows kept) \<subseteq> set kept \<union> set rows"
proof (induction rows arbitrary: kept)
  case (Cons row rows)
  show ?case using Cons [of kept] Cons [of "kept @ [row]"] by auto
qed simp

lemma expanded_served: "all_served env u ids db (expand_authorized_related env u direct ids db)"
proof -
  have "row_ok u ids (re_has_purpose env) db row"
    if "row \<in> set (join_documents ch_document_id (retrieval_filter u ids (re_has_purpose env) db) (document_chunks db) db)" for row
    using that by (rule rows_ok_join [rotated])
  then show ?thesis unfolding expand_authorized_related_def Let_def
    by (auto intro!: all_served_map dest!: subsetD [OF fold_keep_subset] simp: sort_authorized_chunk_rows_def)
qed

lemma recent_served: "all_served env u ids db (recent_authorized_chunks env u limit ids db)"
  unfolding recent_authorized_chunks_def using chunk_rows_ok by (auto intro!: all_served_map dest!: in_set_takeD)

lemma overview_loop_served:
  "(\<And>row. row \<in> set rows \<Longrightarrow> row_ok u ids (re_has_purpose env) db row) \<Longrightarrow> all_served env u ids db ranked \<Longrightarrow>
    all_served env u ids db (overview_loop env budget rows existing used ranked)"
  by (induction env budget rows existing used ranked rule: overview_loop.induct) simp_all

lemma overview_served:
  assumes "cache_valid u ids (re_has_purpose env) db cache" and "all_served env u ids db ranked"
  shows "all_served env u ids db (fst (with_small_document_overview_chunks env ranked u ids budget db cache))"
proof -
  obtain rows cache' where run: "cached_chunks env u (dict_fromkeys (map (\<lambda>c. d_id (rc_document c)) ranked)) ids db cache = (rows, cache')"
    by fastforce
  show ?thesis
    using assms(2) overview_loop_served [OF cached_rows_ok(2) [OF run assms(1)] assms(2)]
    by (simp add: with_small_document_overview_chunks_def run)
qed

text \<open>
  In the combination without hybrid search a chunk found twice keeps the better source, or the higher
  score under the expansion's source; either way it stays a served chunk.
\<close>

lemma set_update_subset: "set (AList.update k v al) \<subseteq> insert (k, v) (set al)"
  by (induction al) auto

lemma served_update:
  "all_served env u ids db (map snd table) \<Longrightarrow> served env u ids db c \<Longrightarrow> all_served env u ids db (map snd (AList.update k c table))"
  using set_update_subset [of k c table] by (fastforce simp: all_served_def)

lemma combine_direct_served:
  "all_served env u ids db cs \<Longrightarrow> all_served env u ids db (map snd table) \<Longrightarrow> all_served env u ids db (map snd (combine_direct cs table))"
  unfolding combine_direct_def
  by (induction cs arbitrary: table) (simp_all add: served_update split: option.split)

lemma served_score [simp]: "served env u ids db (c\<lparr>rc_score := s\<rparr>) = served env u ids db c"
  by (simp add: served_def)

lemma combine_expanded_served:
  "all_served env u ids db cs \<Longrightarrow> all_served env u ids db (map snd table) \<Longrightarrow> all_served env u ids db (map snd (combine_expanded cs table))"
  unfolding combine_expanded_def
  by (induction cs arbitrary: table) (simp_all add: served_update split: option.split)

lemma retrieve_scoped_served:
  assumes "unique_on d_id (documents db)"
  shows "all_served env u ids db (retrieve_scoped env u query limit ids hybrid db)"
proof -
  let ?terms = "query_terms query" and ?q = "ep_embed_query (re_provider env) query"
  obtain metadata cache1 where m: "document_metadata_matches env u query ?terms ids limit db [] = (metadata, cache1)" by fastforce
  obtain profiles cache2 where p: "document_metadata_profile_matches env u ?terms ?q ids limit db cache1 = (profiles, cache2)"
    by fastforce
  note ms = metadata_matches_served [OF m empty_cache_valid]
  then have ps: "all_served env u ids db profiles \<and> cache_valid u ids (re_has_purpose env) db cache2"
    using profile_matches_served [OF p _ assms] by blast
  let ?direct = "metadata @ direct_authorized_matches env u ?q ?terms ids hybrid db @ profiles"
  let ?expanded = "expand_authorized_related env u ?direct ids db"
  let ?ranked = "rank_retrieval_sources (?direct @ ?expanded) limit"
  let ?combined = "combine_expanded ?expanded (combine_direct ?direct [])"
  have direct: "all_served env u ids db ?direct" using ms ps direct_matches_served by simp
  have ranked: "all_served env u ids db ?ranked"
    using direct expanded_served [of env u ids db ?direct] by (intro rank_sources_served) simp
  have combined: "all_served env u ids db (map snd ?combined)"
    using direct expanded_served by (intro combine_expanded_served combine_direct_served) simp_all
  have overview: "all_served env u ids db (fst (with_small_document_overview_chunks env cs u ids 6000 db cache2))"
    if "all_served env u ids db cs" for cs using overview_served that ps by blast
  have fallback: "all_served env u ids db (dedupe_retrieved_chunks (recent_authorized_chunks env u limit ids db) limit)"
    by (rule dedupe_served [OF recent_served])
  have extra: "all_served env u ids db (filter (\<lambda>c. rc_source c = ''document_overview'')
      (fst (with_small_document_overview_chunks env (dedupe_retrieved_chunks (by_score ?ranked) limit) u ids 6000 db cache2)))"
    using ranked by (intro all_served_filter overview dedupe_served) simp
  have plain: "all_served env u ids db (dedupe_retrieved_chunks (by_score (map snd ?combined)) limit)"
    "all_served env u ids db (dedupe_retrieved_chunks
       (fst (with_small_document_overview_chunks env (by_score (map snd ?combined)) u ids 6000 db cache2)) limit)"
    using combined by (auto intro!: dedupe_served overview)
  show ?thesis
    using fallback ranked extra plain
    unfolding retrieve_scoped_def Let_def m p prod.case by (cases hybrid) simp_all
qed

lemma lexical_served: "all_served env u ids db (retrieve_lexical_scoped env u query limit ids db)"
proof -
  have "row_ok u ids (re_has_purpose env) db row"
    if "row \<in> set (authorized_bm25_top_chunks u wanted ids (re_has_purpose env) db)" for row wanted
    using that by (auto simp: authorized_bm25_top_chunks_def split: if_splits intro: rows_ok_join [rotated])
  then show ?thesis
    unfolding retrieve_lexical_scoped_def Let_def
    by (auto intro!: all_served_concat split: option.split dest!: map_of_SomeD)
qed

lemma selected_document_served:
  "all_served env u ids db (retrieve_selected_document env u document_id query ids limit db)"
  unfolding retrieve_selected_document_def Let_def by (auto intro!: all_served_take all_served_map load_rows_ok)

text \<open>A structured fact is served under its own document; its chunk is a stored chunk.\<close>

definition facts_consistent :: "'a retrieval_db_scheme \<Rightarrow> bool" where
  "facts_consistent db \<longleftrightarrow> (\<forall>e \<in> set (structured_entities db). \<forall>c \<in> set (document_chunks db).
     ch_id c = se_chunk_id e \<longrightarrow> ch_document_id c = se_document_id e)"

lemma structured_rows:
  "m \<in> set (retrieve_structured_entities env u query types limit ids db) \<Longrightarrow>
    rt_chunk m \<in> set (document_chunks db) \<and> rt_document m \<in> set (documents db)
    \<and> (facts_consistent db \<longrightarrow> ch_document_id (rt_chunk m) = d_id (rt_document m))
    \<and> retrieval_filter u ids (re_has_purpose env) db (rt_document m)"
  by (auto simp: retrieve_structured_entities_def Let_def join_documents_iff facts_consistent_def published_filter
      split: if_splits dest!: in_set_takeD)

lemma dedupe_loop_ok:
  "distinct (map chunk_id kept) \<and> distinct (map ordinal_key kept) \<and> distinct (map content_key kept)
    \<and> length kept \<le> max limit 1 \<Longrightarrow> (kept = [] \<or> length kept < limit) \<Longrightarrow>
    distinct (map chunk_id (dedupe_loop limit cs kept)) \<and> distinct (map ordinal_key (dedupe_loop limit cs kept))
    \<and> distinct (map content_key (dedupe_loop limit cs kept)) \<and> length (dedupe_loop limit cs kept) \<le> max limit 1"
proof (induction limit cs kept rule: dedupe_loop.induct)
  case (2 limit c cs kept)
  have "kept = []" if "length kept < limit" "limit \<le> Suc 0" using that by (cases kept) auto
  then show ?case using 2 by (auto simp: max_def)
qed auto

end
