(* ===== verification/Context_Retrieval.thy ===== *)
theory Context_Retrieval
  imports Context_Pipeline Retrieval_Queries
begin

text \<open>
  What one call of the retrieval service (\<open>agents/context_forge/service.py\<close>) promises, for every reranker
  that \<open>build_reranker\<close> can configure: the packing bounds, the accounting of every candidate, and that
  nothing outside the scope the authorization layer resolved reaches the answer.
\<close>

section \<open>The configured reranker\<close>

record 's reranker_settings =
  rk_mode :: string
  rk_cross_encoder :: "'s cross_encoder"
  rk_jev :: "'s jev_env"

definition build_reranker ::
  "'s::linorder reranker_settings \<Rightarrow> RetrievalPlan \<Rightarrow> 's RetrievalCandidate list \<Rightarrow> 's ranked" where
  "build_reranker st =
     (if rk_mode st = ''jev'' then (if je_offline (rk_jev st) then deterministic_rerank else jev_rerank (rk_jev st))
      else if rk_mode st = ''cross_encoder'' then cross_encoder_rerank (rk_cross_encoder st)
      else deterministic_rerank)"

interpretation configured: reranker "build_reranker st" for st
  by unfold_locales (simp add: build_reranker_def deterministic.keeps_chunks jev.keeps_chunks cross_encoder.keeps_chunks
      del: mset_map)

section \<open>Packing\<close>

definition total_chars :: "'s RetrievedChunk list \<Rightarrow> nat" where
  "total_chars cs = sum_list (map chunk_chars cs)"

text \<open>The budget in force: the first chunk is always admitted, however long it is.\<close>

definition char_bound :: "CandidateLimits \<Rightarrow> 's RetrievedChunk list \<Rightarrow> nat" where
  "char_bound limits injected =
     (case injected of [] \<Rightarrow> 0 | c # _ \<Rightarrow> max (cl_char_budget limits) (chunk_chars c))"

lemma char_bound_append: "xs \<noteq> [] \<Longrightarrow> char_bound limits (xs @ ys) = char_bound limits xs"
  by (cases xs) (simp_all add: char_bound_def)

lemma pack_loop_split:
  "pack_loop limits cs kept rejs used = (kept', rejs') \<Longrightarrow>
    \<exists>new. kept' = kept @ new \<and> subseq new (map cd_chunk cs)
      \<and> image_mset chunk_id (mset kept') + image_mset rj_chunk_id (mset rejs')
          = image_mset chunk_id (mset kept) + image_mset rj_chunk_id (mset rejs) + image_mset candidate_id (mset cs)"
proof (induction cs arbitrary: kept rejs used)
  case (Cons c cs)
  consider "pack_loop limits cs (kept @ [cd_chunk c]) rejs (used + chunk_chars (cd_chunk c)) = (kept', rejs')"
    | reason where "pack_loop limits cs kept (rejs @ [rejected c reason]) used = (kept', rejs')"
    using Cons.prems by (auto simp: Let_def split: if_splits)
  then show ?case
  proof cases
    case 1
    from Cons.IH [OF this] show ?thesis by (auto simp: candidate_id_def)
  next
    case 2
    from Cons.IH [OF this] show ?thesis by (auto simp: rejected_def)
  qed
qed simp

lemma pack_loop_bounds:
  assumes "pack_loop limits cs kept rejs used = (kept', rejs')"
    and "length kept \<le> cl_injected_limit limits" and "used = total_chars kept" and "used \<le> char_bound limits kept"
  shows "length kept' \<le> cl_injected_limit limits \<and> total_chars kept' \<le> char_bound limits kept'"
  using assms
proof (induction cs arbitrary: kept rejs used)
  case (Cons c cs)
  let ?next = "chunk_chars (cd_chunk c)"
  show ?case
  proof (cases "length kept < cl_injected_limit limits \<and> (kept = [] \<or> used + ?next \<le> cl_char_budget limits)")
    case True
    then have step: "pack_loop limits cs (kept @ [cd_chunk c]) rejs (used + ?next) = (kept', rejs')"
      using Cons.prems(1) by (auto simp: Let_def split: if_splits)
    have "used + ?next \<le> char_bound limits (kept @ [cd_chunk c])"
      using True Cons.prems(3) by (cases kept) (auto simp: char_bound_def total_chars_def)
    then show ?thesis using Cons.IH [OF step] True Cons.prems(3) by (simp add: total_chars_def)
  next
    case False
    then obtain reason where "pack_loop limits cs kept (rejs @ [rejected c reason]) used = (kept', rejs')"
      using Cons.prems(1) by (auto simp: Let_def split: if_splits)
    then show ?thesis using Cons.IH Cons.prems by blast
  qed
qed simp

lemma pack_ok:
  assumes "pack plan cs = (kept, rejs, truncated)"
  shows "subseq kept (map cd_chunk cs)"
    and "image_mset chunk_id (mset kept) + image_mset rj_chunk_id (mset rejs) = image_mset candidate_id (mset cs)"
    and "length kept \<le> cl_injected_limit (pl_limits plan)"
    and "total_chars kept \<le> char_bound (pl_limits plan) kept"
    and "truncated \<longleftrightarrow> rejs \<noteq> []"
proof -
  have loop: "pack_loop (pl_limits plan) cs [] [] 0 = (kept, rejs)" and t: "truncated \<longleftrightarrow> rejs \<noteq> []"
    using assms by (auto simp: pack_def split: prod.splits)
  then show "truncated \<longleftrightarrow> rejs \<noteq> []" by simp
  show "subseq kept (map cd_chunk cs)"
    "image_mset chunk_id (mset kept) + image_mset rj_chunk_id (mset rejs) = image_mset candidate_id (mset cs)"
    using pack_loop_split [OF loop] by auto
  show "length kept \<le> cl_injected_limit (pl_limits plan)" "total_chars kept \<le> char_bound (pl_limits plan) kept"
    using pack_loop_bounds [OF loop] by (auto simp: total_chars_def char_bound_def)
qed

section \<open>One call of the service\<close>

text \<open>The plan of a call and the chunks its queries answered, as \<open>retrieve\<close> computes them.\<close>

definition forge_plan :: "'s forge_env \<Rightarrow> ContextForgeRequest \<Rightarrow> RetrievalPlan" where
  "forge_plan fe request =
     (let rs = fe_service fe; ids = retrieval_knowledge_base_ids (cf_selection_context request);
          one = cf_selected_document_id request \<noteq> None
      in force_route (cf_force_retrieval request) (fe_plan fe request
           (if one then 1 else rs_document_count rs (cf_user_id request) ids)
           (if one then 1 else rs_selectable_count rs (cf_user_id request) ids)))"

definition searches :: "RetrievalPlan \<Rightarrow> bool" where
  "searches plan \<longleftrightarrow> rd_route (pl_route_decision plan) \<notin> {''no_retrieval'', ''clarification_required''}"

definition found_chunks :: "'s forge_env \<Rightarrow> ContextForgeRequest \<Rightarrow> 's RetrievedChunk list" where
  "found_chunks fe request =
     (let rs = fe_service fe; ids = retrieval_knowledge_base_ids (cf_selection_context request); plan = forge_plan fe request
      in case cf_selected_document_id request of
           Some d \<Rightarrow> rs_selected_document rs (cf_user_id request) d (cf_query request) ids (cl_rerank_limit (pl_limits plan))
         | None \<Rightarrow> gather rs (cf_user_id request) plan ids)"

definition relevant :: "'s::linorder forge_env \<Rightarrow> RetrievalPlan \<Rightarrow> 's RetrievedChunk \<Rightarrow> bool" where
  "relevant fe plan c \<longleftrightarrow> is_relevant_retrieval_result (rd_route (pl_route_decision plan)) (rc_source c) (fe_zero fe) (rc_score c)"

lemma retrieve_skips:
  assumes "\<not> searches (forge_plan fe request)"
  shows "fr_retrieved_chunks (retrieve fe rerank request) = []"
    and "fr_rejected_candidates (retrieve fe rerank request) = []"
    and "fr_plan (retrieve fe rerank request) = forge_plan fe request"
    and "fr_answer_mode (retrieve fe rerank request) = ''general_knowledge''"
    and "ev_injected_count (fr_evidence (retrieve fe rerank request)) = 0"
    and "ev_rejected_count (fr_evidence (retrieve fe rerank request)) = 0"
    and "\<not> ev_budget_truncated (fr_evidence (retrieve fe rerank request))"
  using assms
  by (auto simp: retrieve_def forge_plan_def searches_def Let_def answer_mode_for_route_def build_retrieval_evidence_def)

lemma retrieve_searches:
  assumes "searches (forge_plan fe request)"
  obtains reranked kept rejs truncated where
    "reranked = fst (rerank (forge_plan fe request) (take (cl_rerank_limit (pl_limits (forge_plan fe request)))
       (fuse_candidates (fe_ops fe) (found_chunks fe request))))"
    and "pack (forge_plan fe request) reranked = (kept, rejs, truncated)"
    and "fr_plan (retrieve fe rerank request) = forge_plan fe request"
    and "fr_retrieved_chunks (retrieve fe rerank request) = kept"
    and "fr_rejected_candidates (retrieve fe rerank request) = rejs"
    and "fr_answer_mode (retrieve fe rerank request)
       = answer_mode_for_route (pl_route_decision (forge_plan fe request)) (list_ex (relevant fe (forge_plan fe request)) kept)"
    and "ev_injected_count (fr_evidence (retrieve fe rerank request)) = length kept"
    and "ev_rejected_count (fr_evidence (retrieve fe rerank request)) = length rejs"
    and "ev_budget_truncated (fr_evidence (retrieve fe rerank request)) = truncated"
proof -
  let ?plan = "forge_plan fe request"
  let ?out = "rerank ?plan (take (cl_rerank_limit (pl_limits ?plan)) (fuse_candidates (fe_ops fe) (found_chunks fe request)))"
  obtain kept rejs truncated where pack: "pack ?plan (fst ?out) = (kept, rejs, truncated)" by (metis prod_cases3)
  have run: "retrieve fe rerank request = \<lparr>fr_plan = ?plan, fr_decision = pl_route_decision ?plan,
      fr_answer_mode = answer_mode_for_route (pl_route_decision ?plan) (list_ex (relevant fe ?plan) kept),
      fr_retrieved_chunks = kept,
      fr_evidence = build_retrieval_evidence ?plan (fuse_candidates (fe_ops fe) (found_chunks fe request)) kept
        (length rejs) truncated (snd ?out),
      fr_rejected_candidates = rejs\<rparr>"
    using assms pack
    unfolding retrieve_def Let_def forge_plan_def [unfolded Let_def, symmetric] searches_def relevant_def [abs_def]
      found_chunks_def [unfolded Let_def, symmetric] by (simp add: case_prod_beta)
  show ?thesis
    by (rule that [OF refl pack]) (simp_all add: run build_retrieval_evidence_def)
qed

context reranker
begin

lemma retrieve_from_found: "set (fr_retrieved_chunks (retrieve fe rerank request)) \<subseteq> set (found_chunks fe request)"
proof (cases "searches (forge_plan fe request)")
  case True
  let ?found = "found_chunks fe request" and ?plan = "forge_plan fe request"
  let ?sent = "take (cl_rerank_limit (pl_limits ?plan)) (fuse_candidates (fe_ops fe) ?found)"
  from True show ?thesis
  proof (rule retrieve_searches [where rerank = rerank])
    fix reranked kept rejs truncated
    assume reranked: "reranked = fst (rerank ?plan ?sent)" and pack: "pack ?plan reranked = (kept, rejs, truncated)"
      and kept: "fr_retrieved_chunks (retrieve fe rerank request) = kept"
    have "set kept \<subseteq> set (map cd_chunk reranked)" using pack_ok(1) [OF pack] by (auto dest: list_emb_set)
    also have "\<dots> = set (map cd_chunk ?sent)" unfolding reranked by (rule rerank_chunks)
    also have "\<dots> \<subseteq> set ?found" using fuse_characterised [of "fe_ops fe" ?found] by (auto dest: in_set_takeD)
    finally show ?thesis unfolding kept .
  qed
qed (simp add: retrieve_skips)

lemma retrieve_accounts:
  "distinct (map chunk_id (fr_retrieved_chunks (retrieve fe rerank request))
       @ map rj_chunk_id (fr_rejected_candidates (retrieve fe rerank request)))
    \<and> length (fr_retrieved_chunks (retrieve fe rerank request)) + length (fr_rejected_candidates (retrieve fe rerank request))
        = (if searches (forge_plan fe request)
           then min (cl_rerank_limit (pl_limits (forge_plan fe request))) (card (chunk_id ` set (found_chunks fe request))) else 0)"
proof (cases "searches (forge_plan fe request)")
  case True
  let ?found = "found_chunks fe request" and ?plan = "forge_plan fe request"
  let ?fused = "fuse_candidates (fe_ops fe) ?found"
  let ?sent = "take (cl_rerank_limit (pl_limits ?plan)) ?fused"
  from True show ?thesis
  proof (rule retrieve_searches [where rerank = rerank])
    fix reranked kept rejs truncated
    assume reranked: "reranked = fst (rerank ?plan ?sent)" and pack: "pack ?plan reranked = (kept, rejs, truncated)"
      and kept: "fr_retrieved_chunks (retrieve fe rerank request) = kept"
      and rejs: "fr_rejected_candidates (retrieve fe rerank request) = rejs"
    have fused: "distinct (map candidate_id ?fused)" "set (map candidate_id ?fused) = chunk_id ` set ?found"
      using fuse_characterised [of "fe_ops fe" ?found] by blast+
    have ids: "mset (map chunk_id kept @ map rj_chunk_id rejs) = mset (map candidate_id reranked)"
      using pack_ok(2) [OF pack] by simp
    have "distinct (map candidate_id ?sent)" using distinct_take [OF fused(1)] by (simp add: take_map)
    then have "distinct (map candidate_id reranked)" unfolding reranked by (rule rerank_distinct)
    then have "distinct (map chunk_id kept @ map rj_chunk_id rejs)" by (rule mset_eq_imp_distinct_iff [OF ids, THEN iffD2])
    moreover have "length kept + length rejs = length ?sent"
      using mset_eq_length [OF ids] rerank_length [of ?plan ?sent] by (simp add: reranked)
    moreover have "length ?fused = card (chunk_id ` set ?found)"
      using distinct_card [OF fused(1)] unfolding fused(2) by simp
    ultimately show ?thesis unfolding kept rejs using True by simp
  qed
qed (simp add: retrieve_skips)

lemma retrieve_bounded:
  "length (fr_retrieved_chunks (retrieve fe rerank request)) \<le> cl_injected_limit (pl_limits (forge_plan fe request))
    \<and> total_chars (fr_retrieved_chunks (retrieve fe rerank request))
        \<le> char_bound (pl_limits (forge_plan fe request)) (fr_retrieved_chunks (retrieve fe rerank request))"
proof (cases "searches (forge_plan fe request)")
  case True
  then show ?thesis by (rule retrieve_searches [where rerank = rerank]) (simp add: pack_ok(3,4))
qed (simp add: retrieve_skips total_chars_def char_bound_def)

lemma retrieve_evidence:
  "ev_injected_count (fr_evidence (retrieve fe rerank request)) = length (fr_retrieved_chunks (retrieve fe rerank request))
    \<and> ev_rejected_count (fr_evidence (retrieve fe rerank request)) = length (fr_rejected_candidates (retrieve fe rerank request))
    \<and> (ev_budget_truncated (fr_evidence (retrieve fe rerank request))
         \<longleftrightarrow> fr_rejected_candidates (retrieve fe rerank request) \<noteq> [])"
proof (cases "searches (forge_plan fe request)")
  case True
  then show ?thesis by (rule retrieve_searches [where rerank = rerank]) (simp add: pack_ok(5))
qed (simp add: retrieve_skips)

lemma retrieve_mode:
  "fr_answer_mode (retrieve fe rerank request) =
     (if list_ex (relevant fe (forge_plan fe request)) (fr_retrieved_chunks (retrieve fe rerank request))
      then if rd_route (pl_route_decision (forge_plan fe request)) = ''retrieval_required'' then ''document_grounded''
           else if rd_route (pl_route_decision (forge_plan fe request)) = ''retrieval_optional'' then ''mixed''
           else ''general_knowledge''
      else ''general_knowledge'')"
proof (cases "searches (forge_plan fe request)")
  case True
  then show ?thesis by (rule retrieve_searches [where rerank = rerank]) (simp add: answer_mode_for_route_def)
qed (simp add: retrieve_skips)

end

section \<open>What the service promises\<close>

text \<open>The service as it is built when no reranker is passed to it.\<close>

definition context_forge_retrieve ::
  "'s::linorder forge_env \<Rightarrow> 's reranker_settings \<Rightarrow> ContextForgeRequest \<Rightarrow> 's ContextForgeResult" where
  "context_forge_retrieve fe st request = retrieve fe (build_reranker st) request"

text \<open>
  Every reranker that can be configured, including one that calls a model and falls back, hands the
  pipeline exactly the candidates it was given: each chunk as often as before, none added, none lost.
\<close>

theorem configured_reranker_keeps_candidates:
  "mset (map cd_chunk (fst (build_reranker st plan candidates))) = mset (map cd_chunk candidates)
    \<and> length (fst (build_reranker st plan candidates)) = length candidates"
  using configured.keeps_chunks configured.rerank_length by blast

text \<open>
  C3. A call of the service accounts for every candidate and keeps its budgets, whatever the queries, the
  planner, the tokenizer and the scoring models answer: the injected chunks come from the answers of the
  queries; injected and rejected chunk identifiers are pairwise different and together as many as the
  distinct identifiers found, up to the rerank limit; at most \<open>injected_limit\<close> chunks are injected, and
  their characters stay within the budget unless the first chunk alone exceeds it; and the recorded
  evidence counts are those of the result.
\<close>

theorem context_pipeline_sound:
  "set (fr_retrieved_chunks (context_forge_retrieve fe st request)) \<subseteq> set (found_chunks fe request)
    \<and> distinct (map chunk_id (fr_retrieved_chunks (context_forge_retrieve fe st request)) @ map rj_chunk_id (fr_rejected_candidates (context_forge_retrieve fe st request)))
    \<and> length (fr_retrieved_chunks (context_forge_retrieve fe st request)) + length (fr_rejected_candidates (context_forge_retrieve fe st request))
        = (if searches (forge_plan fe request)
           then min (cl_rerank_limit (pl_limits (forge_plan fe request))) (card (chunk_id ` set (found_chunks fe request))) else 0)
    \<and> length (fr_retrieved_chunks (context_forge_retrieve fe st request)) \<le> cl_injected_limit (pl_limits (forge_plan fe request))
    \<and> total_chars (fr_retrieved_chunks (context_forge_retrieve fe st request)) \<le> char_bound (pl_limits (forge_plan fe request)) (fr_retrieved_chunks (context_forge_retrieve fe st request))
    \<and> ev_injected_count (fr_evidence (context_forge_retrieve fe st request)) = length (fr_retrieved_chunks (context_forge_retrieve fe st request))
    \<and> ev_rejected_count (fr_evidence (context_forge_retrieve fe st request)) = length (fr_rejected_candidates (context_forge_retrieve fe st request))
    \<and> (ev_budget_truncated (fr_evidence (context_forge_retrieve fe st request)) \<longleftrightarrow> fr_rejected_candidates (context_forge_retrieve fe st request) \<noteq> [])"
  unfolding context_forge_retrieve_def
  using configured.retrieve_from_found configured.retrieve_accounts configured.retrieve_bounded configured.retrieve_evidence
  by (intro conjI) blast+

text \<open>
  C4. An answer is called document grounded or mixed only when a relevant chunk was really injected: the
  mode is \<open>document_grounded\<close> exactly for a required retrieval with a chunk of positive score,
  \<open>mixed\<close> exactly for an optional one with a chunk of positive score that is no fallback hit, and
  \<open>general_knowledge\<close> otherwise.
\<close>

theorem answer_mode_honest:
  "(fr_answer_mode (context_forge_retrieve fe st request) = ''document_grounded''
       \<longleftrightarrow> rd_route (pl_route_decision (forge_plan fe request)) = ''retrieval_required'' \<and> (\<exists>c \<in> set (fr_retrieved_chunks (context_forge_retrieve fe st request)). fe_zero fe < rc_score c))
    \<and> (fr_answer_mode (context_forge_retrieve fe st request) = ''mixed''
       \<longleftrightarrow> rd_route (pl_route_decision (forge_plan fe request)) = ''retrieval_optional'' \<and> (\<exists>c \<in> set (fr_retrieved_chunks (context_forge_retrieve fe st request)).
             fe_zero fe < rc_score c \<and> rc_source c \<noteq> ''document_fallback''))
    \<and> fr_answer_mode (context_forge_retrieve fe st request) \<in> {''document_grounded'', ''mixed'', ''general_knowledge''}"
proof -
  have rel: "list_ex (relevant fe (forge_plan fe request)) cs
      \<longleftrightarrow> (\<exists>c \<in> set cs. fe_zero fe < rc_score c \<and> (rc_source c = ''document_fallback'' \<longrightarrow> rd_route (pl_route_decision (forge_plan fe request)) = ''retrieval_required''))" for cs
    by (auto simp: list_ex_iff relevant_def is_relevant_retrieval_result_def not_le)
  show ?thesis
    unfolding context_forge_retrieve_def configured.retrieve_mode rel
    by (cases "rd_route (pl_route_decision (forge_plan fe request)) = ''retrieval_required''"; cases "rd_route (pl_route_decision (forge_plan fe request)) = ''retrieval_optional''") auto
qed

section \<open>The service over the database\<close>

text \<open>The queries the pipeline calls are the methods of \<open>RetrievalService\<close> on the session's database.\<close>

definition database_service ::
  "('s::linorder, 'b) retrieval_env_scheme \<Rightarrow> 'a retrieval_db_scheme \<Rightarrow> 's retrieval_service" where
  "database_service env db = \<lparr>
     rs_document_count = (\<lambda>u ids. authorized_document_count env u ids db),
     rs_selectable_count = (\<lambda>u ids. user_selectable_document_count env u ids db),
     rs_scoped = (\<lambda>u query limit ids. retrieve_scoped env u query limit ids True db),
     rs_lexical = (\<lambda>u query limit ids. retrieve_lexical_scoped env u query limit ids db),
     rs_structured = (\<lambda>u query types limit ids. map (\<lambda>m. (se_entity_type (rt_entity m),
        \<lparr>rc_chunk = rt_chunk m, rc_document = rt_document m, rc_score = rt_score m, rc_source = ''structured_entity''\<rparr>))
        (retrieve_structured_entities env u query types limit ids db)),
     rs_selected_document = (\<lambda>u document_id query ids limit. retrieve_selected_document env u document_id query ids limit db)\<rparr>"

definition from_store ::
  "('s, 'b) retrieval_env_scheme \<Rightarrow> ident \<Rightarrow> ident list option \<Rightarrow> 'a retrieval_db_scheme \<Rightarrow> 's RetrievedChunk \<Rightarrow> bool" where
  "from_store env u ids db c \<longleftrightarrow> rc_chunk c \<in> set (document_chunks db) \<and> rc_document c \<in> set (documents db)
     \<and> (facts_consistent db \<longrightarrow> ch_document_id (rc_chunk c) = d_id (rc_document c))
     \<and> retrieval_filter u ids (re_has_purpose env) db (rc_document c)"

lemma served_from_store: "all_served env u ids db cs \<Longrightarrow> c \<in> set cs \<Longrightarrow> from_store env u ids db c"
  by (auto simp: all_served_def served_def row_ok_def from_store_def)

lemma found_from_store:
  assumes "fe_service fe = database_service env db" and "unique_on d_id (documents db)"
    and "c \<in> set (found_chunks fe request)"
  shows "from_store env (cf_user_id request) (retrieval_knowledge_base_ids (cf_selection_context request)) db c"
proof (cases "cf_selected_document_id request")
  case (Some d)
  then show ?thesis
    using assms(3) served_from_store [OF selected_document_served]
    by (auto simp: found_chunks_def Let_def assms(1) database_service_def)
next
  case None
  let ?u = "cf_user_id request" and ?ids = "retrieval_knowledge_base_ids (cf_selection_context request)"
    and ?plan = "forge_plan fe request"
  have "c \<in> set (gather (database_service env db) ?u ?plan ?ids)"
    using assms(3) None by (simp add: found_chunks_def Let_def assms(1))
  then consider "c \<in> set (retrieve_scoped env ?u (pl_rewritten_query ?plan) (cl_vector_limit (pl_limits ?plan)) ?ids True db)"
    | "c \<in> set (retrieve_lexical_scoped env ?u (pl_rewritten_query ?plan) (cl_lexical_limit (pl_limits ?plan)) ?ids db)"
    | m where "m \<in> set (retrieve_structured_entities env ?u (pl_rewritten_query ?plan) (pl_structured_entity_types ?plan)
         (cl_structured_limit (pl_limits ?plan)) ?ids db)" "rc_chunk c = rt_chunk m" "rc_document c = rt_document m"
    by (auto simp: gather_def Let_def database_service_def split: if_splits)
  then show ?thesis
  proof cases
    case 1
    then show ?thesis by (rule served_from_store [OF retrieve_scoped_served [OF assms(2)]])
  next
    case 2
    then show ?thesis by (rule served_from_store [OF lexical_served])
  next
    case (3 m)
    then show ?thesis using structured_rows [OF 3(1)] by (simp add: from_store_def)
  qed
qed

lemma answer_from_store:
  assumes "fe_service fe = database_service env db" and "unique_on d_id (documents db)"
    and "c \<in> set (fr_retrieved_chunks (context_forge_retrieve fe st request))"
  shows "from_store env (cf_user_id request) (retrieval_knowledge_base_ids (cf_selection_context request)) db c"
  using found_from_store [OF assms(1,2)] assms(3) configured.retrieve_from_found
  unfolding context_forge_retrieve_def by blast

text \<open>
  C1. What reaches the model is authorized, from one end of the pipeline to the other: every chunk handed
  to the answer is a stored chunk of the stored document it names; the requesting user may retrieve that
  document by ownership, an explicit grant or a group role, or it is public system knowledge; it lies in a
  standard knowledge base, and within the resolved selection if there is one. This holds for every
  planner, tokenizer, embedding, scoring model and reranker configuration.
\<close>

theorem answers_only_authorized_sources:
  assumes "fe_service fe = database_service env db" and "re_has_purpose env"
    and "unique_on d_id (documents db)" and "permissions_unique db" and "roles_known db" and "facts_consistent db"
    and "c \<in> set (fr_retrieved_chunks (context_forge_retrieve fe st request))"
  shows "rc_chunk c \<in> set (document_chunks db) \<and> rc_document c \<in> set (documents db)
    \<and> ch_document_id (rc_chunk c) = d_id (rc_document c)
    \<and> (can (cf_user_id request) (rc_document c) RETRIEVE db
       \<or> (\<exists>kb \<in> set (knowledge_bases db). kb_id kb = d_knowledge_base_id (rc_document c) \<and> system_knowledge_base_filter kb))
    \<and> (\<exists>kb \<in> set (knowledge_bases db). kb_id kb = d_knowledge_base_id (rc_document c) \<and> kb_purpose kb = purpose_value STANDARD)
    \<and> (case retrieval_knowledge_base_ids (cf_selection_context request) of None \<Rightarrow> True
       | Some scope \<Rightarrow> d_knowledge_base_id (rc_document c) \<in> set scope)"
  using answer_from_store [OF assms(1,3,7)] assms(2,6) retrieval_filter_authorizes [OF _ assms(4,5)]
  unfolding from_store_def by auto

text \<open>
  C2. A chat turn that selects knowledge bases is answered from these and the public system ones alone,
  and the user may search every one of them: whatever the routes did to the tables before, each chunk
  handed to the answer lies in a requested or public knowledge base that passes the user's retrieval filter.
\<close>

theorem selected_sources_only:
  assumes "reachable no_knowledge_bases kb_step db"
    and "resolve_knowledge_base_selection db who ''selected'' ids = Inr (cf_selection_context request)"
    and "cf_user_id request = p_user_id who"
    and "fe_service fe = database_service env db" and "unique_on d_id (documents db)"
    and "c \<in> set (fr_retrieved_chunks (context_forge_retrieve fe st request))"
  shows "d_knowledge_base_id (rc_document c) \<in> set ids \<union> set (resolve_system_ambient_knowledge_base_ids db)
    \<and> (\<exists>kb \<in> set (knowledge_bases db). kb_id kb = d_knowledge_base_id (rc_document c)
         \<and> retrievable_knowledge_base_filter (p_user_id who) db kb)"
proof -
  obtain scope where scope: "retrieval_knowledge_base_ids (cf_selection_context request) = Some scope"
    "set scope = set ids \<union> set (resolve_system_ambient_knowledge_base_ids db)"
    "\<forall>i \<in> set scope. \<exists>kb \<in> set (knowledge_bases db). kb_id kb = i \<and> retrievable_knowledge_base_filter (p_user_id who) db kb"
    using selection_scope [OF assms(1,2)] by blast
  have "d_knowledge_base_id (rc_document c) \<in> set scope"
    using answer_from_store [OF assms(4-6)] scope(1) filter_in_scope
    by (auto simp: from_store_def retrieval_filter_def)
  then show ?thesis using scope by blast
qed

section \<open>An instance\<close>

text \<open>Scores in thousandths, one embedding space with one-dimensional vectors, a tokenizer by characters.\<close>

definition thousand_ops :: "int float_ops" where
  "thousand_ops = \<lparr>so_add = (+), so_recip = (\<lambda>n. 1000 div int n), fl_sub = (-), fl_mul = (\<lambda>x y. x * y div 1000),
     fl_div = (\<lambda>x y. x * 1000 div y), fl_sqrt = id, fl_int = (\<lambda>i. i * 1000), fl_lit = (\<lambda>m k. m * 1000 div 10 ^ k),
     fl_round = id, fl_finite = (\<lambda>_. True)\<rparr>"

definition sample_env :: "int retrieval_env" where
  "sample_env = \<lparr>re_ops = thousand_ops,
     re_provider = \<lparr>ep_provider = ''p'', ep_model = ''m'', ep_dimensions = None, ep_encoding_identity = ''e'',
       ep_preprocessing_identity = ''r'', ep_index_version = 1, ep_embed_query = (\<lambda>_. [1000])\<rparr>,
     re_index_key = (\<lambda>_. ''ix''), re_loads = (\<lambda>_. Some (JArray [JNumber 1000])), re_ratio = (\<lambda>_ _. 0),
     re_bm25 = (\<lambda>_ _ i. 500 - int i), re_uses_postgres = False, re_vector_query_ok = True, re_vector = (\<lambda>_. None),
     re_cosine_distance = (\<lambda>_ _. 0), re_has_purpose = True, re_has_profiles = True\<rparr>"

definition sample_stored_document :: DocumentModel where
  "sample_stored_document = sample_document\<lparr>d_owner_user_id := ''u1'', d_group_id := None, d_knowledge_base_id := ''k2''\<rparr>"

definition sample_stored_chunk :: DocumentChunkModel where
  "sample_stored_chunk = \<lparr>ch_id = ''c1'', ch_document_id = ''d1'', ch_extraction_run_id = ''x1'', ch_ordinal = 0,
     ch_content = ''notice period'', ch_start_offset = 0, ch_end_offset = 13, ch_source_page = None,
     ch_source_location_json = None, ch_embedding_index_id = Some ''ix'', ch_embedding_json = ''[1]''\<rparr>"

definition sample_library :: retrieval_db where
  "sample_library = groups_db.extend (groups_db.truncate empty_groups_db)
     \<lparr>documents = [sample_stored_document], document_permissions = [], document_chunks = [sample_stored_chunk],
      metadata_profiles = [], entity_mentions = [], structured_entities = []\<rparr>"

definition sample_store :: retrieval_db where
  "sample_store = snd (create_knowledge_base ''k2'' 2 ''Mine'' PERSONAL None sample_owner
     (snd (create_group \<lparr>gf_group_id = ''g1'', gf_membership_id = ''m1'', gf_knowledge_base_id = ''k1''\<rparr>
        1 ''Team'' sample_owner sample_library)))"

lemma sample_store_reachable: "reachable no_knowledge_bases kb_step sample_store"
proof -
  have "reachable no_knowledge_bases kb_step sample_library"
    by (rule reachable.start)
      (simp add: no_knowledge_bases_def sample_library_def empty_groups_db_def auth_db.defs groups_db.defs)
  then show ?thesis
    unfolding sample_store_def
    by (rule reachable.next_state [OF reachable.next_state]) (rule kb_group, rule kb_create)
qed

definition sample_request :: ContextForgeRequest where
  "sample_request = \<lparr>cf_user_id = ''u1'', cf_query = ''notice'',
     cf_selection_context = \<lparr>sel_mode = ''selected'', sel_knowledge_base_ids = [''k2''], sel_resolved_count = 1,
       sel_resolved_knowledge_base_ids = [''k2''], sel_ambient_system_knowledge_base_ids = [],
       sel_ambient_system_knowledge_base_count = 0\<rparr>,
     cf_selected_document_id = None, cf_force_retrieval = False\<rparr>"

definition sample_plan :: RetrievalPlan where
  "sample_plan = \<lparr>pl_intent = ''semantic_qa'', pl_original_query = ''notice'', pl_rewritten_query = ''notice'',
     pl_route_decision = \<lparr>rd_route = ''retrieval_required'', rd_reason = '''', rd_rewritten_query = ''notice'',
       rd_document_scope = ''unknown''\<rparr>,
     pl_structured_entity_types = [],
     pl_limits = \<lparr>cl_vector_limit = 5, cl_lexical_limit = 5, cl_structured_limit = 5, cl_rerank_limit = 5,
       cl_injected_limit = 3, cl_char_budget = 50\<rparr>\<rparr>"

definition sample_forge :: "int forge_env" where
  "sample_forge = \<lparr>fe_ops = score_ops.truncate thousand_ops, fe_zero = 0, fe_service = database_service sample_env sample_store,
     fe_plan = (\<lambda>_ _ _. sample_plan), fe_reranker_name = ''deterministic''\<rparr>"

lemma sample_store_tables:
  "unique_on d_id (documents sample_store)" "permissions_unique sample_store" "roles_known sample_store"
  "facts_consistent sample_store"
  by code_simp+

definition sample_rerankers :: "int reranker_settings" where
  "sample_rerankers = \<lparr>rk_mode = ''deterministic'', rk_cross_encoder = undefined, rk_jev = undefined\<rparr>"

lemma sample_answer_given:
  "map chunk_id (fr_retrieved_chunks (context_forge_retrieve sample_forge sample_rerankers sample_request)) = [''c1'']"
  by code_simp

lemma sample_answerE:
  obtains c where "c \<in> set (fr_retrieved_chunks (context_forge_retrieve sample_forge sample_rerankers sample_request))"
    and "chunk_id c = ''c1''"
  using sample_answer_given by (cases "fr_retrieved_chunks (context_forge_retrieve sample_forge sample_rerankers sample_request)") auto

theorem answers_only_authorized_sources_witness:
  "\<exists>c \<in> set (fr_retrieved_chunks (context_forge_retrieve sample_forge sample_rerankers sample_request)).
     ch_document_id (rc_chunk c) = d_id (rc_document c) \<and> d_knowledge_base_id (rc_document c) \<in> {''k2''}"
proof -
  obtain c where c: "c \<in> set (fr_retrieved_chunks (context_forge_retrieve sample_forge sample_rerankers sample_request))"
    by (rule sample_answerE)
  have "fe_service sample_forge = database_service sample_env sample_store" "re_has_purpose sample_env"
    by (simp_all add: sample_forge_def sample_env_def)
  from answers_only_authorized_sources [OF this sample_store_tables c]
  have "ch_document_id (rc_chunk c) = d_id (rc_document c)"
    and "case retrieval_knowledge_base_ids (cf_selection_context sample_request) of None \<Rightarrow> True
      | Some scope \<Rightarrow> d_knowledge_base_id (rc_document c) \<in> set scope" by blast+
  moreover have "retrieval_knowledge_base_ids (cf_selection_context sample_request) = Some [''k2'']" by code_simp
  ultimately show ?thesis using c by auto
qed

theorem selected_sources_only_witness:
  "\<exists>c \<in> set (fr_retrieved_chunks (context_forge_retrieve sample_forge sample_rerankers sample_request)).
     d_knowledge_base_id (rc_document c) \<in> {''k2''} \<union> set (resolve_system_ambient_knowledge_base_ids sample_store)"
proof -
  obtain c where c: "c \<in> set (fr_retrieved_chunks (context_forge_retrieve sample_forge sample_rerankers sample_request))"
    by (rule sample_answerE)
  have resolved: "resolve_knowledge_base_selection sample_store sample_owner ''selected'' [''k2''] = Inr (cf_selection_context sample_request)"
    by code_simp
  have "cf_user_id sample_request = p_user_id sample_owner" by code_simp
  moreover have "fe_service sample_forge = database_service sample_env sample_store" by (simp add: sample_forge_def)
  ultimately have "d_knowledge_base_id (rc_document c) \<in> set [''k2''] \<union> set (resolve_system_ambient_knowledge_base_ids sample_store)"
    using selected_sources_only [OF sample_store_reachable resolved _ _ sample_store_tables(1) c] by blast
  then show ?thesis using c by auto
qed

theorem retrieval_filter_sound_witness:
  "can ''u1'' sample_stored_document RETRIEVE sample_store
    \<or> (\<exists>kb \<in> set (knowledge_bases sample_store). kb_id kb = ''k2'' \<and> system_knowledge_base_filter kb)"
proof -
  have "retrieval_filter ''u1'' (Some [''k2'']) True sample_store sample_stored_document" by code_simp
  from retrieval_filter_sound [OF this sample_store_tables(2,3)]
  show ?thesis by (auto simp: sample_stored_document_def)
qed

theorem row_cache_transparent_witness:
  "\<exists>rows cache. authorized_chunks_for_document_ids ''u1'' [''d1'', ''d1''] None True sample_store [] = (rows, cache)
     \<and> mset rows = mset (load_authorized_chunks_for_document_ids ''u1'' [''d1'', ''d1''] None True sample_store)"
proof -
  obtain rows cache where run: "authorized_chunks_for_document_ids ''u1'' [''d1'', ''d1''] None True sample_store [] = (rows, cache)"
    by fastforce
  from row_cache_transparent [OF empty_cache_valid run] run show ?thesis by blast
qed

definition sample_tokenizer :: tokenizer where
  "sample_tokenizer = \<lparr>tk_encode = map of_char, tk_pair_size = (\<lambda>q w. int (length q + length w)),
     tk_decode = (\<lambda>ids. replicate (length ids) CHR ''x''), tk_pair_specials = 0\<rparr>"

theorem cross_encoder_windows_cover_witness:
  "\<exists>ws. cross_encoder_windows sample_tokenizer ''abcdef'' ''q'' 5 = Some ws \<and> 1 \<le> length ws \<and> length ws \<le> 16"
proof -
  have "cross_encoder_windows sample_tokenizer ''abcdef'' ''q'' 5 = Some [''xxxx'', ''xxx'']" by code_simp
  from cross_encoder_windows_cover [OF this] this show ?thesis by auto
qed

end
