(* ===== verification/Document_Chunking.thy ===== *)
theory Document_Chunking
  imports Text_Model
begin

text \<open>
  How a document's text is cut into chunks (\<open>knowledge/extraction.py\<close>): paragraphs, sentences and
  fixed-width windows with their offsets, their packing into retrieval-sized chunks, and the variants for
  PDF pages, Word and Markdown. A text is the list of its code points, so offsets are those of the code;
  a compiled regular expression is the scanner it describes, with the order of alternatives and the
  laziness of its quantifiers.
\<close>

type_synonym points = "string list"
type_synonym text_unit = "points \<times> nat \<times> nat"

definition CHUNK_TARGET_CHARS :: nat where
  "CHUNK_TARGET_CHARS = 1500"

definition CHUNK_OVERLAP_CHARS :: nat where
  "CHUNK_OVERLAP_CHARS = 200"

definition space_point :: "string \<Rightarrow> bool" where
  "space_point g \<longleftrightarrow> (case g of [c] \<Rightarrow> py_space c | _ \<Rightarrow> False)"

definition rstrip_points :: "points \<Rightarrow> points" where
  "rstrip_points t = rev (dropWhile space_point (rev t))"

definition strip_points :: "points \<Rightarrow> points" where
  "strip_points t = rstrip_points (dropWhile space_point t)"

definition span :: "nat \<Rightarrow> nat \<Rightarrow> points \<Rightarrow> points" where
  "span start stop t = drop start (take stop t)"

text \<open>\<open>str.find\<close> and \<open>str.rfind\<close>: the first or last index in the range, \<open>None\<close> for minus one.\<close>

definition find_points :: "points \<Rightarrow> nat \<Rightarrow> points \<Rightarrow> nat option" where
  "find_points sub from t = find (\<lambda>p. take (length sub) (drop p t) = sub) [from..<Suc (length t)]"

definition rfind_space :: "nat \<Rightarrow> nat \<Rightarrow> points \<Rightarrow> nat option" where
  "rfind_space start stop t = find (\<lambda>p. t ! p = '' '') (rev [start..<stop])"

section \<open>Fixed-width windows\<close>

definition window_stop :: "nat \<Rightarrow> points \<Rightarrow> nat" where
  "window_stop start t =
     (let stop = min (length t) (start + CHUNK_TARGET_CHARS)
      in if stop < length t
         then (case rfind_space start stop t of None \<Rightarrow> stop | Some split \<Rightarrow> if split > start + 200 then split else stop)
         else stop)"

function fixed_width_from :: "points \<Rightarrow> nat \<Rightarrow> nat \<Rightarrow> text_unit list" where
  "fixed_width_from t base start =
     (if start < length t
      then
        let stop = window_stop start t;
            segment = strip_points (span start stop t);
            segment_start = start + (case find_points segment 0 (span start stop t) of Some p \<Rightarrow> p | None \<Rightarrow> 0);
            unit = (if segment = [] then [] else [(segment, base + segment_start, base + segment_start + length segment)])
        in if stop \<ge> length t then unit
           else unit @ fixed_width_from t base (max (stop - CHUNK_OVERLAP_CHARS) (start + 1))
      else [])"
  by pat_completeness auto
termination by (relation "measure (\<lambda>(t, _, start). length t - start)") auto

declare fixed_width_from.simps [simp del]

definition fixed_width_units :: "points \<Rightarrow> nat \<Rightarrow> text_unit list" where
  "fixed_width_units t base = fixed_width_from t base 0"

section \<open>Sentences\<close>

definition sentence_mark :: "string \<Rightarrow> bool" where
  "sentence_mark g \<longleftrightarrow> g \<in> set [''.'', ''!'', ''?'', [CHR 0xE3, CHR 0x80, CHR 0x82], [CHR 0xEF, CHR 0xBC, CHR 0x81],
     [CHR 0xEF, CHR 0xBC, CHR 0x9F]]"

definition closing_mark :: "string \<Rightarrow> bool" where
  "closing_mark g \<longleftrightarrow> g \<in> set [[CHR 0x22], [CHR 0x27], '')'', '']'']"

text \<open>How much of a text the end of a sentence takes: marks, at most one closing mark, white space.\<close>

definition sentence_stop :: "points \<Rightarrow> nat" where
  "sentence_stop t =
     (let marks = length (takeWhile sentence_mark t);
          closing = (case drop marks t of g # _ \<Rightarrow> if closing_mark g then 1 else 0 | [] \<Rightarrow> 0);
          spaces = length (takeWhile space_point (drop (marks + closing) t))
      in if marks = 0 \<or> spaces = 0 then 0 else marks + closing + spaces)"

fun sentence_rest :: "points \<Rightarrow> nat" where
  "sentence_rest [] = 0"
| "sentence_rest (g # t) = (if sentence_stop (g # t) > 0 then sentence_stop (g # t) else Suc (sentence_rest t))"

function sentence_matches :: "nat \<Rightarrow> points \<Rightarrow> (nat \<times> points) list" where
  "sentence_matches pos [] = []"
| "sentence_matches pos (g # t) =
     (let n = sentence_rest t in (pos, g # take n t) # sentence_matches (pos + Suc n) (drop n t))"
  by pat_completeness auto
termination by (relation "measure (\<lambda>(_, t). length t)") auto

fun sentence_loop :: "points \<Rightarrow> nat \<Rightarrow> nat \<Rightarrow> (nat \<times> points) list \<Rightarrow> text_unit list" where
  "sentence_loop t base cursor [] = []"
| "sentence_loop t base cursor ((pos, m) # ms) =
     (let sentence = strip_points m
      in if sentence = [] then sentence_loop t base cursor ms
         else
           let start = (case find_points sentence cursor t of Some p \<Rightarrow> p | None \<Rightarrow> pos)
           in (if length sentence \<le> CHUNK_TARGET_CHARS then [(sentence, base + start, base + start + length sentence)]
               else fixed_width_units sentence (base + start))
              @ sentence_loop t base (start + length sentence) ms)"

definition sentence_units :: "points \<Rightarrow> nat \<Rightarrow> text_unit list" where
  "sentence_units t base = sentence_loop t base 0 (sentence_matches 0 t)"

section \<open>Paragraphs\<close>

definition paragraph_boundary :: "points \<Rightarrow> bool" where
  "paragraph_boundary t \<longleftrightarrow> t = [] \<or> take 2 t = [[CHR 0x0A], [CHR 0x0A]]"

fun paragraph_rest :: "points \<Rightarrow> nat option" where
  "paragraph_rest [] = None"
| "paragraph_rest (g # t) =
     (if \<not> space_point g \<and> paragraph_boundary t then Some 1 else map_option Suc (paragraph_rest t))"

definition paragraph_match :: "points \<Rightarrow> nat option" where
  "paragraph_match t =
     (case t of [] \<Rightarrow> None
      | g # u \<Rightarrow>
          if space_point g then None
          else (case paragraph_rest u of
                  Some n \<Rightarrow> Some (Suc n)
                | None \<Rightarrow> if paragraph_boundary u then Some 1 else None))"

function paragraph_matches :: "nat \<Rightarrow> points \<Rightarrow> (nat \<times> points) list" where
  "paragraph_matches pos [] = []"
| "paragraph_matches pos (g # t) =
     (case paragraph_match (g # t) of
        None \<Rightarrow> paragraph_matches (Suc pos) t
      | Some n \<Rightarrow> (pos, take n (g # t)) # paragraph_matches (pos + max n 1) (drop (max n 1) (g # t)))"
  by pat_completeness auto
termination by (relation "measure (\<lambda>(_, t). length t)") auto

definition paragraph_units :: "nat \<times> points \<Rightarrow> text_unit list" where
  "paragraph_units = (\<lambda>(pos, m).
     let paragraph = strip_points m
     in if paragraph = [] then []
        else if length paragraph \<le> CHUNK_TARGET_CHARS then [(paragraph, pos, pos + length m)]
        else sentence_units paragraph pos)"

definition semantic_units :: "points \<Rightarrow> text_unit list" where
  "semantic_units t0 =
     (let t = rstrip_points t0; units = concat (map paragraph_units (paragraph_matches 0 t))
      in if units = [] then [(t, 0, length t)] else units)"

section \<open>Packing units into chunks\<close>

definition lines_of :: "points \<Rightarrow> string list" where
  "lines_of unit = filter (\<lambda>l. l \<noteq> '''') (map py_strip (py_splitlines (concat unit)))"

definition atx_heading :: "string \<Rightarrow> bool" where
  "atx_heading line =
     (let hashes = length (takeWhile (\<lambda>c. c = CHR ''#'') line); rest = drop hashes line
      in 1 \<le> hashes \<and> hashes \<le> 6 \<and> takeWhile py_space rest \<noteq> [] \<and> dropWhile py_space rest \<noteq> [])"

definition starts_markdown_atx_heading :: "points \<Rightarrow> bool" where
  "starts_markdown_atx_heading unit = (case lines_of unit of [] \<Rightarrow> False | l # _ \<Rightarrow> atx_heading l)"

definition buffer_contains_non_heading_text :: "points list \<Rightarrow> bool" where
  "buffer_contains_non_heading_text buffer = list_ex (\<lambda>unit. list_ex (\<lambda>l. \<not> atx_heading l) (lines_of unit)) buffer"

definition is_markdown_image_placeholder :: "points \<Rightarrow> bool" where
  "is_markdown_image_placeholder unit =
     (let u = py_casefold (concat (strip_points unit)); inner = py_lstrip (drop 4 u)
      in take 4 u = ''<!--'' \<and> take 5 inner = ''image'' \<and> py_lstrip (drop 5 inner) = ''-->'')"

fun join_units :: "points list \<Rightarrow> points" where
  "join_units [] = []"
| "join_units [u] = u"
| "join_units (u # v # us) = u @ [[CHR 0x0A], [CHR 0x0A]] @ join_units (v # us)"

record chunk_buffer =
  cb_units :: "points list"
  cb_start :: "nat option"
  cb_end :: nat
  cb_chars :: nat

definition empty_buffer :: chunk_buffer where
  "empty_buffer = \<lparr>cb_units = [], cb_start = None, cb_end = 0, cb_chars = 0\<rparr>"

definition flush_buffer :: "points option \<Rightarrow> chunk_buffer \<Rightarrow> text_unit list" where
  "flush_buffer source_text b =
     (case cb_start b of
        Some s \<Rightarrow> if cb_units b = [] then []
                  else [(case source_text of Some t \<Rightarrow> span s (cb_end b) t | None \<Rightarrow> join_units (cb_units b), s, cb_end b)]
      | None \<Rightarrow> [])"

fun coalesce :: "nat \<Rightarrow> points option \<Rightarrow> bool \<Rightarrow> text_unit list \<Rightarrow> chunk_buffer \<Rightarrow> text_unit list" where
  "coalesce max_chars source_text respect_headings [] b = flush_buffer source_text b"
| "coalesce max_chars source_text respect_headings ((u, s, e) # us) b =
     (if u = [] then coalesce max_chars source_text respect_headings us b
      else
        let heading = (cb_units b \<noteq> [] \<and> respect_headings \<and> starts_markdown_atx_heading u
              \<and> buffer_contains_non_heading_text (cb_units b));
            flushed = (if heading then flush_buffer source_text b else []);
            b = (if heading then empty_buffer else b)
        in if length u > max_chars
           then flushed @ flush_buffer source_text b @ fixed_width_units u s
                @ coalesce max_chars source_text respect_headings us empty_buffer
           else
             let candidate_chars = (case (source_text, cb_start b) of
                   (Some _, Some b_start) \<Rightarrow> e - b_start
                 | _ \<Rightarrow> if cb_units b = [] then length u else cb_chars b + 2 + length u);
                 full = (cb_units b \<noteq> [] \<and> candidate_chars > max_chars);
                 flushed' = (if full then flush_buffer source_text b else []);
                 b' = (if full then empty_buffer else b)
             in flushed @ flushed' @ coalesce max_chars source_text respect_headings us
                  \<lparr>cb_units = cb_units b' @ [u], cb_start = Some (case cb_start b' of Some x \<Rightarrow> x | None \<Rightarrow> s),
                   cb_end = e, cb_chars = (if full then length u else candidate_chars)\<rparr>)"

definition coalesced_semantic_units :: "nat \<Rightarrow> points option \<Rightarrow> bool \<Rightarrow> text_unit list \<Rightarrow> text_unit list" where
  "coalesced_semantic_units max_chars source_text respect_headings units =
     coalesce max_chars source_text respect_headings units empty_buffer"

section \<open>The strategies\<close>

definition chunk_text :: "nat \<Rightarrow> bool \<Rightarrow> points \<Rightarrow> text_unit list" where
  "chunk_text max_chars preserve_units t =
     (let stripped = strip_points t; units = semantic_units t;
          chunks = concat (map (\<lambda>(u, s, e). if u = [] then [] else if length u \<le> max_chars then [(u, s, e)]
                     else fixed_width_units u s) units)
      in if stripped = [] then [([], 0, 0)]
         else if \<not> preserve_units then coalesced_semantic_units max_chars (Some t) False units
         else if chunks = [] then [(stripped, 0, length stripped)] else chunks)"

definition chunk_word_markdown_text :: "nat \<Rightarrow> points \<Rightarrow> text_unit list" where
  "chunk_word_markdown_text max_chars t =
     (let stripped = strip_points t;
          units = filter (\<lambda>(u, s, e). \<not> is_markdown_image_placeholder u) (semantic_units t);
          chunks = coalesced_semantic_units max_chars None True units
      in if stripped = [] then [([], 0, 0)] else if chunks = [] then [(stripped, 0, length stripped)] else chunks)"

fun markdown_loop :: "points \<Rightarrow> text_unit list \<Rightarrow> text_unit list \<Rightarrow> text_unit list" where
  "markdown_loop t [] chunks = chunks"
| "markdown_loop t ((_, s, e) # us) chunks =
     (if chunks \<noteq> [] \<and> \<not> buffer_contains_non_heading_text [fst (last chunks)]
      then let previous_start = fst (snd (last chunks))
           in markdown_loop t us (butlast chunks @ fixed_width_units (span previous_start e t) previous_start)
      else markdown_loop t us (chunks @ [(span s e t, s, e)]))"

definition chunk_markdown_text :: "points \<Rightarrow> text_unit list" where
  "chunk_markdown_text t =
     (let chunks = markdown_loop t (coalesced_semantic_units CHUNK_TARGET_CHARS None True (semantic_units t)) []
      in if chunks = [] then [([], 0, 0)] else chunks)"

definition PDF_PAGE_SEPARATOR :: points where
  "PDF_PAGE_SEPARATOR = [[CHR 0x0A], [CHR 0x0A], [CHR 0x0C], [CHR 0x0A], [CHR 0x0A]]"

text \<open>\<open>str.split(sep)\<close>: the number is how much of a separator is still to be passed over.\<close>

fun split_from :: "points \<Rightarrow> nat \<Rightarrow> points \<Rightarrow> points \<Rightarrow> points list" where
  "split_from sep skip page [] = [page]"
| "split_from sep (Suc skip) page (g # t) = split_from sep skip page t"
| "split_from sep 0 page (g # t) =
     (if take (length sep) (g # t) = sep then page # split_from sep (length sep - 1) [] t
      else split_from sep 0 (page @ [g]) t)"

fun chunk_pages :: "nat \<Rightarrow> nat \<Rightarrow> points list \<Rightarrow> (points \<times> nat \<times> nat \<times> nat option) list" where
  "chunk_pages base_offset page_index [] = []"
| "chunk_pages base_offset page_index (page_text # pages) =
     (let page_chunks = coalesced_semantic_units CHUNK_TARGET_CHARS None True (semantic_units page_text);
          page_chunks = (if page_chunks = [] then chunk_text CHUNK_TARGET_CHARS False page_text else page_chunks)
      in map (\<lambda>(content, s, e). (content, base_offset + s, base_offset + e, Some page_index)) page_chunks
         @ chunk_pages (base_offset + length page_text + (if pages = [] then 0 else length PDF_PAGE_SEPARATOR)) (Suc page_index) pages)"

definition chunk_pdf_text :: "points \<Rightarrow> (points \<times> nat \<times> nat \<times> nat option) list" where
  "chunk_pdf_text t =
     (let chunks = chunk_pages 0 1 (split_from PDF_PAGE_SEPARATOR 0 [] t)
      in if chunks = [] then [([], 0, 0, None)] else chunks)"

section \<open>Stretches of a text\<close>

lemma length_span [simp]: "length (span a b t) = min b (length t) - a"
  by (simp add: span_def)

lemma span_nth: "a + k < b \<Longrightarrow> b \<le> length t \<Longrightarrow> span a b t ! k = t ! (a + k)"
  by (simp add: span_def)

lemma span_span:
  assumes "b' \<le> b - a" and "b \<le> length t"
  shows "span a' b' (span a b t) = span (a + a') (a + b') t"
proof -
  have "span a' b' (span a b t) = drop a' (take b' (drop a (take b t)))" by (simp add: span_def)
  also have "\<dots> = drop a' (drop a (take (a + b') (take b t)))" by (simp add: take_drop add.commute)
  also have "\<dots> = drop (a + a') (take (a + b') (take b t))" by (simp add: add.commute)
  also have "\<dots> = drop (a + a') (take (a + b') t)"
    using assms by (cases "a \<le> b") (simp_all add: min_def)
  finally show ?thesis by (simp add: span_def)
qed

lemma rstrip_points_split:
  obtains post where "t = rstrip_points t @ post" and "\<forall>x \<in> set post. space_point x"
    and "rstrip_points t = [] \<or> \<not> space_point (last (rstrip_points t))"
proof
  let ?r = "rev t"
  have "rev ?r = rev (dropWhile space_point ?r) @ rev (takeWhile space_point ?r)" by (simp flip: rev_append)
  then show "t = rstrip_points t @ rev (takeWhile space_point ?r)" by (simp add: rstrip_points_def)
  show "\<forall>x \<in> set (rev (takeWhile space_point ?r)). space_point x" by (auto dest: set_takeWhileD)
  show "rstrip_points t = [] \<or> \<not> space_point (last (rstrip_points t))"
    using hd_dropWhile [of space_point ?r] by (cases "dropWhile space_point ?r = []") (auto simp: rstrip_points_def last_rev)
qed

lemma strip_points_split:
  obtains pre post where "t = pre @ strip_points t @ post"
    and "\<forall>x \<in> set pre. space_point x" and "\<forall>x \<in> set post. space_point x"
    and "strip_points t = [] \<or> \<not> space_point (hd (strip_points t)) \<and> \<not> space_point (last (strip_points t))"
proof -
  let ?u = "dropWhile space_point t" and ?w = "strip_points t"
  obtain post where post: "?u = ?w @ post" "\<forall>x \<in> set post. space_point x" "?w = [] \<or> \<not> space_point (last ?w)"
    using rstrip_points_split [of ?u] unfolding strip_points_def by blast
  have split: "t = takeWhile space_point t @ ?w @ post" using post(1) takeWhile_dropWhile_id [of space_point t] by simp
  have hd: "\<not> space_point (hd ?w)" if "?w \<noteq> []"
  proof -
    have "?u \<noteq> []" and "hd ?u = hd ?w" using that post(1) by auto
    then show ?thesis using hd_dropWhile [of space_point t] by simp
  qed
  show ?thesis
    by (rule that [of "takeWhile space_point t" post]) (use split post(2,3) hd in \<open>auto dest: set_takeWhileD\<close>)
qed

text \<open>Stripping a stretch leaves the stretch between its first and its last visible character.\<close>

lemma strip_span_cases:
  assumes le: "start \<le> stop" and len: "stop \<le> length t"
  obtains (blank) "strip_points (span start stop t) = []" and "\<And>k. start \<le> k \<Longrightarrow> k < stop \<Longrightarrow> space_point (t ! k)"
  | (visible) a b where "start \<le> a" and "a < b" and "b \<le> stop" and "strip_points (span start stop t) = span a b t"
    and "\<not> space_point (t ! a)" and "\<not> space_point (t ! (b - 1))"
    and "\<And>k. start \<le> k \<Longrightarrow> k < a \<Longrightarrow> space_point (t ! k)" and "\<And>k. b \<le> k \<Longrightarrow> k < stop \<Longrightarrow> space_point (t ! k)"
proof -
  let ?x = "span start stop t" and ?w = "strip_points (span start stop t)"
  obtain pre post where x: "?x = pre @ ?w @ post" and pre: "\<forall>x \<in> set pre. space_point x" and post: "\<forall>x \<in> set post. space_point x"
    and ends: "?w = [] \<or> \<not> space_point (hd ?w) \<and> \<not> space_point (last ?w)" by (rule strip_points_split)
  have total: "length pre + length ?w + length post = stop - start"
    using arg_cong [OF x, of length] len by (simp only: length_append length_span min.absorb1 add.assoc)
  have at: "t ! k = (pre @ ?w @ post) ! (k - start)" if "start \<le> k" "k < stop" for k
    unfolding x [symmetric] using span_nth [of start "k - start" stop t] that len by simp
  let ?a = "start + length pre" and ?b = "start + length pre + length ?w"
  have before: "space_point (t ! k)" if "start \<le> k" "k < ?a" for k
  proof -
    have "k < stop" using that total le by linarith
    then show ?thesis using at [OF that(1)] that pre by (auto simp: nth_append)
  qed
  have after: "space_point (t ! k)" if "?b \<le> k" "k < stop" for k
  proof -
    have "(pre @ ?w @ post) ! (k - start) = post ! (k - ?b)" using that by (auto simp: nth_append)
    moreover have "k - ?b < length post" using that total by linarith
    ultimately show ?thesis using at [of k] that post by simp
  qed
  show ?thesis
  proof (cases "?w = []")
    case True
    then show ?thesis using blank before after by (metis add_0_right linorder_not_less list.size(3))
  next
    case False
    have bounds: "?a < ?b" "?b \<le> stop" using False total le by (simp, linarith)
    have "span (length pre) (length pre + length ?w) ?x = ?w" by (subst x) (simp add: span_def)
    moreover have "span (length pre) (length pre + length ?w) ?x = span ?a ?b t"
      using span_span [of "length pre + length ?w" stop start t "length pre"] total len by (simp add: add.assoc)
    moreover have "t ! ?a = hd ?w" using at [of ?a] bounds False by (simp add: nth_append hd_conv_nth)
    moreover have "t ! (?b - 1) = last ?w"
    proof -
      obtain v g where w: "?w = v @ [g]" using False by (cases ?w rule: rev_cases) auto
      then have "?b - 1 = start + (length pre + length v)" by simp
      then show ?thesis using at [of "?b - 1"] bounds w by (simp add: nth_append)
    qed
    ultimately show ?thesis using visible [of ?a ?b] bounds ends False before after by auto
  qed
qed

lemma find_first: "P q \<Longrightarrow> (\<And>p. m \<le> p \<Longrightarrow> p < q \<Longrightarrow> \<not> P p) \<Longrightarrow> m \<le> q \<Longrightarrow> q < n \<Longrightarrow> find P [m..<n] = Some q"
proof (induction "n - m" arbitrary: m)
  case (Suc d)
  show ?case
  proof (cases "m = q")
    case True
    then show ?thesis using Suc.prems by (simp add: upt_conv_Cons)
  next
    case False
    then have "\<not> P m" "Suc m \<le> q" using Suc.prems(2,3) by auto
    then have "find P [Suc m..<n] = Some q" using Suc.prems Suc.hyps(2) by (intro Suc.hyps(1)) auto
    then show ?thesis using \<open>\<not> P m\<close> Suc.prems by (simp add: upt_conv_Cons)
  qed
qed simp

text \<open>Looking for a visible stretch from a place only white space separates it from finds it there.\<close>

lemma find_points_at:
  assumes "m \<le> a" and "a < b" and "b \<le> length t" and "\<not> space_point (t ! a)"
    and "\<And>p. m \<le> p \<Longrightarrow> p < a \<Longrightarrow> space_point (t ! p)"
  shows "find_points (span a b t) m t = Some a"
  unfolding find_points_def
proof (rule find_first)
  let ?w = "span a b t"
  have "drop a (take b t) = take (b - a) (drop a t)" by (simp add: drop_take)
  then show "take (length ?w) (drop a t) = ?w" using assms by (simp add: span_def)
  show "take (length ?w) (drop p t) \<noteq> ?w" if "m \<le> p" "p < a" for p
  proof
    assume eq: "take (length ?w) (drop p t) = ?w"
    have "take (length ?w) (drop p t) ! 0 = t ! p" "?w ! 0 = t ! a" using that assms by (simp_all add: span_nth)
    then show False using eq assms(4) assms(5) [OF that] by simp
  qed
qed (use assms in auto)

section \<open>Units that tile a text\<close>

text \<open>
  Units are exact slices within bounds and of chunk size, in the order of both their ends, and every
  visible character of the stretch lies in one of them.
\<close>

definition unit_of :: "points \<Rightarrow> nat \<Rightarrow> nat \<Rightarrow> text_unit \<Rightarrow> bool" where
  "unit_of t lo hi = (\<lambda>(u, s, e). lo \<le> s \<and> s < e \<and> e \<le> hi \<and> u = span s e t \<and> e - s \<le> CHUNK_TARGET_CHARS)"

definition unit_le :: "text_unit \<Rightarrow> text_unit \<Rightarrow> bool" where
  "unit_le = (\<lambda>(_, s, e) (_, s', e'). s \<le> s' \<and> e \<le> e')"

definition in_unit :: "nat \<Rightarrow> text_unit \<Rightarrow> bool" where
  "in_unit k = (\<lambda>(_, s, e). s \<le> k \<and> k < e)"

definition tiles :: "points \<Rightarrow> nat \<Rightarrow> nat \<Rightarrow> text_unit list \<Rightarrow> bool" where
  "tiles t lo hi us \<longleftrightarrow> list_all (unit_of t lo hi) us \<and> sorted_wrt unit_le us
     \<and> (\<forall>k. lo \<le> k \<and> k < hi \<and> \<not> space_point (t ! k) \<longrightarrow> list_ex (in_unit k) us)"

lemma units_widen: "list_all (unit_of t a b) us \<Longrightarrow> lo \<le> a \<Longrightarrow> b \<le> hi \<Longrightarrow> list_all (unit_of t lo hi) us"
  by (fastforce simp: list_all_iff unit_of_def)

lemma tiles_blank: "(\<And>k. lo \<le> k \<Longrightarrow> k < hi \<Longrightarrow> space_point (t ! k)) \<Longrightarrow> tiles t lo hi []"
  by (auto simp: tiles_def)

lemma tiles_one:
  assumes "lo \<le> a" and "a < b" and "b \<le> hi" and "b - a \<le> CHUNK_TARGET_CHARS"
    and "\<And>k. lo \<le> k \<Longrightarrow> k < a \<Longrightarrow> space_point (t ! k)" and "\<And>k. b \<le> k \<Longrightarrow> k < hi \<Longrightarrow> space_point (t ! k)"
  shows "tiles t lo hi [(span a b t, a, b)]"
proof -
  have "a \<le> k \<and> k < b" if "lo \<le> k" "k < hi" "\<not> space_point (t ! k)" for k
    using that assms(5,6) by (meson linorder_not_less)
  then show ?thesis using assms(1-4) by (auto simp: tiles_def unit_of_def in_unit_def)
qed

lemma tiles_widen:
  assumes "tiles t a b us" and "lo \<le> a" and "b \<le> hi"
    and "\<And>k. lo \<le> k \<Longrightarrow> k < a \<Longrightarrow> space_point (t ! k)" and "\<And>k. b \<le> k \<Longrightarrow> k < hi \<Longrightarrow> space_point (t ! k)"
  shows "tiles t lo hi us"
proof -
  have "a \<le> k \<and> k < b" if "lo \<le> k" "k < hi" "\<not> space_point (t ! k)" for k
    using that assms(4,5) by (meson linorder_not_less)
  then show ?thesis using assms(1) units_widen [OF _ assms(2,3)] unfolding tiles_def by blast
qed

lemma tiles_append:
  assumes "tiles t lo mid us" and "tiles t mid hi vs" and "lo \<le> mid" and "mid \<le> hi"
  shows "tiles t lo hi (us @ vs)"
proof -
  have "list_all (unit_of t lo hi) us" "list_all (unit_of t lo hi) vs"
    using assms units_widen [of t lo mid us lo hi] units_widen [of t mid hi vs lo hi] by (simp_all add: tiles_def)
  moreover have "unit_le x y" if "unit_of t lo mid x" "unit_of t mid hi y" for x y
    using that by (auto simp: unit_of_def unit_le_def)
  moreover have "list_ex (in_unit k) (us @ vs)" if "lo \<le> k" "k < hi" "\<not> space_point (t ! k)" for k
    using that assms(1,2) unfolding tiles_def by (cases "k < mid") auto
  ultimately show ?thesis using assms(1,2) unfolding tiles_def by (auto simp: list_all_iff sorted_wrt_append)
qed

definition move_unit :: "nat \<Rightarrow> text_unit \<Rightarrow> text_unit" where
  "move_unit base = (\<lambda>(u, s, e). (u, base + s, base + e))"

lemma tiles_move:
  assumes "tiles (span a b t) lo hi us" and "hi \<le> b - a" and "b \<le> length t"
  shows "tiles t (a + lo) (a + hi) (map (move_unit a) us)"
proof -
  have exact: "unit_of t (a + lo) (a + hi) (move_unit a x)" if "unit_of (span a b t) lo hi x" for x
    using that assms(2,3) by (auto simp: unit_of_def move_unit_def span_span split: prod.splits)
  have order: "unit_le (move_unit a x) (move_unit a y) \<longleftrightarrow> unit_le x y" for x y
    by (auto simp: unit_le_def move_unit_def split: prod.splits)
  have in_moved: "in_unit (a + k) (move_unit a x) \<longleftrightarrow> in_unit k x" for k x
    by (auto simp: in_unit_def move_unit_def split: prod.splits)
  have "list_ex (in_unit k) (map (move_unit a) us)" if "a + lo \<le> k" "k < a + hi" "\<not> space_point (t ! k)" for k
  proof -
    define j where "j = k - a"
    then have k: "k = a + j" using that(1) by simp
    have "span a b t ! j = t ! k" using that(2) assms(2,3) by (simp add: k span_nth)
    then have "list_ex (in_unit j) us" using assms(1) that unfolding tiles_def k by auto
    then show ?thesis by (auto simp: list_ex_iff k in_moved)
  qed
  moreover have "list_all (unit_of t (a + lo) (a + hi)) (map (move_unit a) us)"
    using assms(1) exact unfolding tiles_def list_all_iff by auto
  moreover have "sorted_wrt unit_le (map (move_unit a) us)"
    using assms(1) unfolding tiles_def by (simp only: sorted_wrt_map order)
  ultimately show ?thesis unfolding tiles_def by simp
qed

section \<open>Fixed-width windows tile\<close>

lemma fixed_width_from_move: "fixed_width_from t base start = map (move_unit base) (fixed_width_from t 0 start)"
proof (induction t base start rule: fixed_width_from.induct)
  case (1 t base start)
  then show ?case
    by (subst (1 2) fixed_width_from.simps) (simp add: Let_def move_unit_def)
qed

lemma rfind_space_bounds: "rfind_space start stop t = Some p \<Longrightarrow> start \<le> p \<and> p < stop"
proof -
  assume "rfind_space start stop t = Some p"
  then obtain i where "i < length (rev [start..<stop])" and "p = rev [start..<stop] ! i"
    unfolding rfind_space_def find_Some_iff by blast
  then have "p \<in> set (rev [start..<stop])" by (metis nth_mem)
  then show ?thesis by simp
qed

lemma window_stop_bounds:
  assumes "start < length t"
  shows "start < window_stop start t" and "window_stop start t \<le> length t"
    and "window_stop start t - start \<le> CHUNK_TARGET_CHARS"
  using assms by (auto simp: window_stop_def Let_def CHUNK_TARGET_CHARS_def dest: rfind_space_bounds split: option.splits)

lemma window_stop_long: "start < length t \<Longrightarrow> window_stop start t < length t \<Longrightarrow> start + 200 < window_stop start t"
  by (auto simp: window_stop_def Let_def CHUNK_TARGET_CHARS_def split: option.splits if_splits)

text \<open>The next window starts inside this one and ends no earlier, so the units keep their order.\<close>

lemma next_window:
  assumes "start < length t" and "window_stop start t < length t"
  defines "start' \<equiv> max (window_stop start t - CHUNK_OVERLAP_CHARS) (start + 1)"
  shows "start < start'" and "start' < window_stop start t" and "window_stop start t \<le> window_stop start' t"
proof -
  have start': "start' = window_stop start t - 200" "start' < window_stop start t" "start < start'"
    using window_stop_long [OF assms(1,2)] by (auto simp: start'_def CHUNK_OVERLAP_CHARS_def)
  then have "start' < length t" using assms(2) by linarith
  then have "window_stop start' t = length t \<or> start' + 200 < window_stop start' t"
    using window_stop_long [of start' t] window_stop_bounds(2) [of start' t] by linarith
  then show "window_stop start t \<le> window_stop start' t" using start' assms(2) window_stop_long [OF assms(1,2)] by linarith
qed (use window_stop_long [OF assms(1,2)] in \<open>auto simp: start'_def CHUNK_OVERLAP_CHARS_def\<close>)

definition first_unit :: "points \<Rightarrow> nat \<Rightarrow> text_unit list" where
  "first_unit t start =
     (let stop = window_stop start t; segment = strip_points (span start stop t);
          s = start + (case find_points segment 0 (span start stop t) of Some p \<Rightarrow> p | None \<Rightarrow> 0)
      in if segment = [] then [] else [(segment, s, s + length segment)])"

lemma fixed_width_from_unfold:
  "start < length t \<Longrightarrow> fixed_width_from t 0 start = first_unit t start @
     (if window_stop start t \<ge> length t then []
      else fixed_width_from t 0 (max (window_stop start t - CHUNK_OVERLAP_CHARS) (start + 1)))"
  by (subst fixed_width_from.simps) (simp add: first_unit_def Let_def)

lemma first_unit_cases:
  assumes "start < length t"
  obtains (blank) "first_unit t start = []" and "\<And>k. start \<le> k \<Longrightarrow> k < window_stop start t \<Longrightarrow> space_point (t ! k)"
  | (visible) a b where "start \<le> a" and "a < b" and "b \<le> window_stop start t" and "first_unit t start = [(span a b t, a, b)]"
    and "\<not> space_point (t ! a)" and "\<not> space_point (t ! (b - 1))"
    and "\<And>k. start \<le> k \<Longrightarrow> k < a \<Longrightarrow> space_point (t ! k)"
    and "\<And>k. b \<le> k \<Longrightarrow> k < window_stop start t \<Longrightarrow> space_point (t ! k)"
proof -
  let ?stop = "window_stop start t"
  note bounds = window_stop_bounds [OF assms]
  show ?thesis
  proof (rule strip_span_cases [OF less_imp_le [OF bounds(1)] bounds(2)])
    assume "strip_points (span start ?stop t) = []" and "\<And>k. start \<le> k \<Longrightarrow> k < ?stop \<Longrightarrow> space_point (t ! k)"
    then show ?thesis using blank by (simp add: first_unit_def)
  next
    fix a b
    assume ab: "start \<le> a" "a < b" "b \<le> ?stop" and seg: "strip_points (span start ?stop t) = span a b t"
      and ends: "\<not> space_point (t ! a)" "\<not> space_point (t ! (b - 1))"
      and pre: "\<And>k. start \<le> k \<Longrightarrow> k < a \<Longrightarrow> space_point (t ! k)"
      and post: "\<And>k. b \<le> k \<Longrightarrow> k < ?stop \<Longrightarrow> space_point (t ! k)"
    have inner: "span (a - start) (b - start) (span start ?stop t) = span a b t"
      using span_span [of "b - start" ?stop start t "a - start"] ab bounds by simp
    have "find_points (span (a - start) (b - start) (span start ?stop t)) 0 (span start ?stop t) = Some (a - start)"
    proof (rule find_points_at)
      show "\<not> space_point (span start ?stop t ! (a - start))" using ends ab bounds by (simp add: span_nth)
      show "space_point (span start ?stop t ! p)" if "p < a - start" for p
        using pre [of "start + p"] that ab bounds by (simp add: span_nth)
    qed (use ab bounds in auto)
    then have "find_points (span a b t) 0 (span start ?stop t) = Some (a - start)" unfolding inner .
    moreover have "span a b t \<noteq> []" "length (span a b t) = b - a" using ab bounds by (auto simp flip: length_greater_0_conv)
    ultimately have "first_unit t start = [(span a b t, a, b)]" using ab by (simp add: first_unit_def seg)
    then show ?thesis using visible ab ends pre post by blast
  qed
qed

lemma fixed_width_from_tiles:
  "start < length t \<Longrightarrow> tiles t start (length t) (fixed_width_from t 0 start)
     \<and> (\<forall>(u, s, e) \<in> set (fixed_width_from t 0 start). \<not> space_point (t ! s)
        \<and> (\<forall>k. start \<le> k \<and> k < window_stop start t \<and> \<not> space_point (t ! k) \<longrightarrow> k < e))"
proof (induction "length t - start" arbitrary: start rule: less_induct)
  case less
  let ?stop = "window_stop start t" 
  define m where "m = max (window_stop start t - CHUNK_OVERLAP_CHARS) (start + 1)"
  let ?rest = "if ?stop \<ge> length t then [] else fixed_width_from t 0 m"
  note bounds = window_stop_bounds [OF less.prems]
  have F: "fixed_width_from t 0 start = first_unit t start @ ?rest" 
    unfolding m_def by (rule fixed_width_from_unfold [OF less.prems])
  have nxt: "start < m" "m < ?stop" "?stop \<le> window_stop m t" if "?stop < length t"
    using next_window [OF less.prems that] by (simp_all add: m_def)
  have rest: "tiles t m (length t) ?rest \<and> (\<forall>(u, s, e) \<in> set ?rest. \<not> space_point (t ! s)
      \<and> (\<forall>k. start \<le> k \<and> k < ?stop \<and> \<not> space_point (t ! k) \<longrightarrow> k < e)) \<and> m < ?stop" if short: "?stop < length t"
  proof -
    note nxt = nxt [OF short]
    have less': "length t - m < length t - start" "m < length t" using nxt short less.prems by auto
    note hyp = less.hyps [OF less']
    have IH: "tiles t m (length t) (fixed_width_from t 0 m)"
      and ends: "\<And>u s e. (u, s, e) \<in> set (fixed_width_from t 0 m) \<Longrightarrow> \<not> space_point (t ! s)"
      and far: "\<And>u s e k. (u, s, e) \<in> set (fixed_width_from t 0 m) \<Longrightarrow> m \<le> k \<Longrightarrow> k < window_stop m t
        \<Longrightarrow> \<not> space_point (t ! k) \<Longrightarrow> k < e"
      using hyp by (blast, blast, blast)
    have "k < e" if "(u, s, e) \<in> set (fixed_width_from t 0 m)" "start \<le> k" "k < ?stop" "\<not> space_point (t ! k)" for u s e k
    proof (cases "k < m")
      case True
      have "m \<le> s \<and> s < e" using IH that(1) by (auto simp: tiles_def list_all_iff unit_of_def)
      then show ?thesis using True by simp
    next
      case False
      then show ?thesis using far [OF that(1)] that nxt by simp
    qed
    then show ?thesis using IH ends nxt(2) short by auto
  qed
  show ?case
  proof (rule first_unit_cases [OF less.prems])
    assume "first_unit t start = []" and blank: "\<And>k. start \<le> k \<Longrightarrow> k < ?stop \<Longrightarrow> space_point (t ! k)"
    then have F: "fixed_width_from t 0 start = ?rest" using F by simp
    show ?case
    proof (cases "?stop < length t")
      case True
      have "tiles t start (length t) ?rest"
        
      proof (rule tiles_widen)
        show "tiles t m (length t) ?rest" using rest [OF True] by blast
        show "space_point (t ! k)" if "start \<le> k" "k < m" for k using blank [of k] that nxt(2) [OF True] by simp
      qed (use nxt [OF True] in auto)
      then show ?thesis using rest [OF True] unfolding F by blast
    next
      case False
      then show ?thesis using blank bounds unfolding F by (auto intro: tiles_blank)
    qed
  next
    fix a b
    assume ab: "start \<le> a" "a < b" "b \<le> ?stop" and unit: "first_unit t start = [(span a b t, a, b)]"
      and ends: "\<not> space_point (t ! a)" "\<not> space_point (t ! (b - 1))"
      and pre: "\<And>k. start \<le> k \<Longrightarrow> k < a \<Longrightarrow> space_point (t ! k)"
      and post: "\<And>k. b \<le> k \<Longrightarrow> k < ?stop \<Longrightarrow> space_point (t ! k)"
    have one: "tiles t start ?stop [(span a b t, a, b)]"
      using ab bounds pre post by (intro tiles_one) auto
    have F: "fixed_width_from t 0 start = (span a b t, a, b) # ?rest" using F unit by simp
    have here: "k < b" if "k < ?stop" "\<not> space_point (t ! k)" for k using that post by (meson linorder_not_less)
    show ?case
    proof (cases "?stop < length t")
      case True
      note rest = rest [OF True] and nxt = nxt [OF True]
      have after: "unit_le (span a b t, a, b) x" if "x \<in> set ?rest" for x
      proof -
        obtain u s e where x: "x = (u, s, e)" by (cases x)
        have mem: "(u, s, e) \<in> set ?rest" using that x by simp
        have far: "\<not> space_point (t ! s) \<and> (\<forall>k. start \<le> k \<and> k < ?stop \<and> \<not> space_point (t ! k) \<longrightarrow> k < e)"
          using rest mem by blast
        have ms: "m \<le> s" using rest mem unfolding tiles_def list_all_iff unit_of_def by blast
        have "start \<le> b - 1" "b - 1 < ?stop" using ab by linarith+
        then have "b - 1 < e" using far ends(2) by blast
        then have "\<not> space_point (t ! s)" "m \<le> s" "b - 1 < e" using far ms by auto
        then have "a \<le> s" using pre [of s] nxt by (meson le_trans less_imp_le linorder_not_less)
        then show ?thesis using \<open>b - 1 < e\<close> ab(2) by (simp add: x unit_le_def) linarith
      qed
      have "list_all (unit_of t start (length t)) ((span a b t, a, b) # ?rest)"
        using one rest units_widen [of t m "length t" ?rest start "length t"] units_widen [of t start ?stop "[(span a b t, a, b)]" start "length t"]
          bounds nxt by (simp add: tiles_def)
      moreover have "list_ex (in_unit k) ((span a b t, a, b) # ?rest)"
        if "start \<le> k" "k < length t" "\<not> space_point (t ! k)" for k
        using that one rest unfolding tiles_def by (cases "k < ?stop") auto
      moreover have "sorted_wrt unit_le ((span a b t, a, b) # ?rest)" using rest after unfolding tiles_def by simp
      ultimately have "tiles t start (length t) ((span a b t, a, b) # ?rest)" unfolding tiles_def by blast
      then show ?thesis using rest here ends unfolding F by auto
    next
      case False
      then have "?stop = length t" "?rest = []" using bounds by auto
      then show ?thesis using one here ends unfolding F by simp
    qed
  qed
qed

lemma fixed_width_tiles:
  assumes "b \<le> length t" and "a < b"
  shows "tiles t a b (fixed_width_units (span a b t) a)"
proof -
  have "tiles (span a b t) 0 (b - a) (fixed_width_from (span a b t) 0 0)"
    using fixed_width_from_tiles [of 0 "span a b t"] assms by simp
  from tiles_move [OF this] show ?thesis
    using assms unfolding fixed_width_units_def by (subst fixed_width_from_move) simp
qed

section \<open>Sentences tile\<close>

lemma sentence_stop_le: "sentence_stop t \<le> length t"
proof -
  let ?m = "length (takeWhile sentence_mark t)"
  let ?c = "case drop ?m t of g # _ \<Rightarrow> if closing_mark g then 1 else 0 | [] \<Rightarrow> 0"
  have "(case xs of g # _ \<Rightarrow> if closing_mark g then 1 else 0 | [] \<Rightarrow> 0) \<le> length xs" for xs :: points
    by (cases xs) auto
  then have "?c \<le> length (drop ?m t)" .
  then have c: "?c \<le> length t - ?m" by (simp only: length_drop)
  have "length (takeWhile space_point (drop (?m + ?c) t)) \<le> length t - (?m + ?c)"
    by (metis length_drop length_takeWhile_le)
  moreover have "?m \<le> length t" by (rule length_takeWhile_le)
  ultimately have "?m + ?c + length (takeWhile space_point (drop (?m + ?c) t)) \<le> length t" using c by linarith
  then show ?thesis by (simp add: sentence_stop_def Let_def)
qed

lemma sentence_rest_le: "sentence_rest t \<le> length t"
proof (induction t)
  case (Cons g t)
  then show ?case using sentence_stop_le [of "g # t"] by simp
qed simp

lemma sentence_loop_move: "sentence_loop t base cursor ms = map (move_unit base) (sentence_loop t 0 cursor ms)"
proof (induction ms arbitrary: cursor)
  case (Cons m ms)
  obtain pos x where m: "m = (pos, x)" by (cases m)
  have fixed: "fixed_width_units s (base + n) = map (move_unit base) (fixed_width_units s n)" for s n
    unfolding fixed_width_units_def by (subst (1 2) fixed_width_from_move) (simp add: move_unit_def add.assoc split_def)
  show ?case using Cons.IH by (simp add: m Let_def fixed move_unit_def [abs_def])
qed simp

lemma span_Cons: "pos < length t \<Longrightarrow> drop pos t = g # u \<Longrightarrow> n \<le> length u \<Longrightarrow> g # take n u = span pos (pos + Suc n) t"
  by (simp add: span_def drop_take)

lemma sentence_loop_tiles:
  "\<lbrakk>drop pos t = u; cursor \<le> pos; pos \<le> length t; \<And>k. cursor \<le> k \<Longrightarrow> k < pos \<Longrightarrow> space_point (t ! k)\<rbrakk>
     \<Longrightarrow> tiles t cursor (length t) (sentence_loop t 0 cursor (sentence_matches pos u))"
proof (induction pos u arbitrary: cursor rule: sentence_matches.induct)
  case (1 pos)
  then have "pos = length t" by simp
  then show ?case using 1 by (auto intro: tiles_blank)
next
  case (2 pos g u)
  let ?n = "sentence_rest u"
  define stop where "stop = pos + Suc ?n"
  have pos: "pos < length t" and len: "length u = length t - Suc pos"
    using 2(2) by (auto simp: not_le [symmetric] dest: arg_cong [of _ _ length])
  have n: "?n \<le> length u" by (rule sentence_rest_le)
  have stop: "stop \<le> length t" using n len pos unfolding stop_def by linarith
  have m: "g # take ?n u = span pos stop t" unfolding stop_def by (rule span_Cons [OF pos 2(2) n])
  have "drop (Suc pos) t = u" using 2(2) by (metis drop_Suc list.sel(3) tl_drop)
  then have rest: "drop stop t = drop ?n u" unfolding stop_def by (auto simp: add.commute)
  note IH = 2(1) [OF refl, folded stop_def, OF rest _ stop]
  let ?ms = "sentence_matches stop (drop ?n u)"
  have ms: "sentence_matches pos (g # u) = (pos, span pos stop t) # ?ms"
    by (simp only: sentence_matches.simps Let_def m stop_def)
  have "pos \<le> stop" by (simp add: stop_def)
  then show ?case
  proof (rule strip_span_cases [OF _ stop])
    assume empty: "strip_points (span pos stop t) = []" and blank: "\<And>k. pos \<le> k \<Longrightarrow> k < stop \<Longrightarrow> space_point (t ! k)"
    have "space_point (t ! k)" if "cursor \<le> k" "k < stop" for k
      using that blank 2(5) by (meson linorder_not_less)
    then have "tiles t cursor (length t) (sentence_loop t 0 cursor ?ms)"
      using 2(3) \<open>pos \<le> stop\<close> by (intro IH) auto
    then show ?thesis using empty unfolding ms by (simp add: Let_def)
  next
    fix a b
    assume ab: "pos \<le> a" "a < b" "b \<le> stop" and seg: "strip_points (span pos stop t) = span a b t"
      and ends: "\<not> space_point (t ! a)" "\<not> space_point (t ! (b - 1))"
      and pre: "\<And>k. pos \<le> k \<Longrightarrow> k < a \<Longrightarrow> space_point (t ! k)"
      and post: "\<And>k. b \<le> k \<Longrightarrow> k < stop \<Longrightarrow> space_point (t ! k)"
    have before: "space_point (t ! k)" if "cursor \<le> k" "k < a" for k
      using that pre 2(5) by (meson linorder_not_less)
    have found: "find_points (span a b t) cursor t = Some a"
      using ab stop ends before 2(3) by (intro find_points_at) auto
    have b: "b \<le> length t" using ab stop by simp
    let ?here = "if b - a \<le> CHUNK_TARGET_CHARS then [(span a b t, a, b)] else fixed_width_units (span a b t) a"
    have "tiles t a b ?here" using tiles_one [of a a b b t] fixed_width_tiles [OF b ab(2)] ab by simp
    then have here: "tiles t cursor b ?here" by (rule tiles_widen) (use ab 2(3) before in auto)
    have "tiles t b (length t) (sentence_loop t 0 b ?ms)" using ab post by (intro IH) auto
    then have "tiles t cursor (length t) (?here @ sentence_loop t 0 b ?ms)"
      by (rule tiles_append [OF here]) (use ab b 2(3) in auto)
    moreover have "span a b t \<noteq> []" "length (span a b t) = b - a" using ab b by (auto simp flip: length_greater_0_conv)
    ultimately show ?thesis using ab unfolding ms by (cases "b - a \<le> CHUNK_TARGET_CHARS") (simp_all add: seg found Let_def)
  qed
qed

lemma sentence_tiles:
  assumes "b \<le> length t" and "a < b"
  shows "tiles t a b (sentence_units (span a b t) a)"
proof -
  have "tiles (span a b t) 0 (b - a) (sentence_loop (span a b t) 0 0 (sentence_matches 0 (span a b t)))"
    using sentence_loop_tiles [of 0 "span a b t" "span a b t" 0] assms by simp
  from tiles_move [OF this] show ?thesis
    using assms unfolding sentence_units_def by (subst sentence_loop_move) simp
qed

section \<open>Paragraphs tile\<close>

lemma paragraph_rest_bounds:
  "paragraph_rest u = Some n \<Longrightarrow> 1 \<le> n \<and> n \<le> length u \<and> \<not> space_point (u ! (n - 1))"
proof (induction u arbitrary: n)
  case (Cons g u)
  show ?case
  proof (cases "\<not> space_point g \<and> paragraph_boundary u")
    case True
    then show ?thesis using Cons.prems by auto
  next
    case False
    then obtain m where m: "paragraph_rest u = Some m" and n: "n = Suc m" using Cons.prems by (auto split: if_splits)
    then show ?thesis using Cons.IH [OF m] by (simp add: nth_Cons')
  qed
qed simp

lemma paragraph_rest_ends: "u \<noteq> [] \<Longrightarrow> \<not> space_point (last u) \<Longrightarrow> paragraph_rest u \<noteq> None"
proof (induction u)
  case (Cons g u)
  then show ?case by (cases "u = []") (auto simp: paragraph_boundary_def)
qed simp

lemma paragraph_match_None: "paragraph_match (g # u) = None \<Longrightarrow> \<not> space_point (last (g # u)) \<Longrightarrow> space_point g"
  using paragraph_rest_ends [of u]
  by (cases "u = []") (auto simp: paragraph_match_def paragraph_boundary_def split: if_splits option.splits)

lemma paragraph_match_Some:
  "paragraph_match (g # u) = Some n \<Longrightarrow> 1 \<le> n \<and> n \<le> Suc (length u) \<and> \<not> space_point g \<and> \<not> space_point ((g # u) ! (n - 1))"
  by (auto simp: paragraph_match_def nth_Cons' dest!: paragraph_rest_bounds split: if_splits option.splits)

lemma strip_visible_span:
  assumes "a < b" and "b \<le> length t" and "\<not> space_point (t ! a)" and "\<not> space_point (t ! (b - 1))"
  shows "strip_points (span a b t) = span a b t"
proof (rule strip_span_cases [OF less_imp_le [OF assms(1)] assms(2)])
  assume "\<And>k. a \<le> k \<Longrightarrow> k < b \<Longrightarrow> space_point (t ! k)"
  then show ?thesis using assms(1,3) by blast
next
  fix x y
  assume xy: "a \<le> x" "x < y" "y \<le> b" and eq: "strip_points (span a b t) = span x y t"
    and pre: "\<And>k. a \<le> k \<Longrightarrow> k < x \<Longrightarrow> space_point (t ! k)" and post: "\<And>k. y \<le> k \<Longrightarrow> k < b \<Longrightarrow> space_point (t ! k)"
  have "x = a" using xy(1) pre [of a] assms(3) by (cases "a = x") auto
  moreover have "y = b"
  proof (rule ccontr)
    assume "y \<noteq> b"
    then have "y \<le> b - 1" "b - 1 < b" using xy by linarith+
    then show False using post assms(4) by blast
  qed
  ultimately show ?thesis using eq by simp
qed

lemma paragraphs_tile:
  "\<lbrakk>drop pos t = u; pos \<le> length t; t = [] \<or> \<not> space_point (last t)\<rbrakk>
     \<Longrightarrow> tiles t pos (length t) (concat (map paragraph_units (paragraph_matches pos u)))"
proof (induction pos u rule: paragraph_matches.induct)
  case (1 pos)
  then show ?case by (auto intro: tiles_blank)
next
  case (2 pos g u)
  have pos: "pos < length t" and len: "length u = length t - Suc pos"
    using 2(3) by (auto simp: not_le [symmetric] dest: arg_cong [of _ _ length])
  have g: "g = t ! pos" using 2(3) pos by (metis Cons_nth_drop_Suc list.inject)
  have last: "\<not> space_point (last (g # u))" using 2(3,5) pos by (metis last_drop list.size(3) not_less_zero)
  show ?case
  proof (cases "paragraph_match (g # u)")
    case None
    have "drop (Suc pos) t = u" using 2(3) by (metis drop_Suc list.sel(3) tl_drop)
    then have "tiles t (Suc pos) (length t) (concat (map paragraph_units (paragraph_matches (Suc pos) u)))"
      using None pos 2(5) by (intro 2(1)) auto
    moreover have "space_point (t ! pos)" using paragraph_match_None [OF None last] g by simp
    ultimately have "tiles t pos (length t) (concat (map paragraph_units (paragraph_matches (Suc pos) u)))"
      by (rule_tac tiles_widen) (auto simp: le_less_Suc_eq)
    then show ?thesis using None by simp
  next
    case (Some n)
    note n = paragraph_match_Some [OF Some]
    define stop where "stop = pos + n"
    have stop: "stop \<le> length t" "pos < stop" using n len pos unfolding stop_def by linarith+
    have m: "take n (g # u) = span pos stop t" unfolding 2(3) [symmetric] stop_def by (simp add: span_def drop_take)
    have "(g # u) ! (n - 1) = t ! (stop - 1)" unfolding 2(3) [symmetric] using n pos by (simp add: stop_def)
    then have strip: "strip_points (span pos stop t) = span pos stop t"
      using n stop g by (intro strip_visible_span) auto
    have size: "span pos stop t \<noteq> []" "length (span pos stop t) = stop - pos"
      using stop by (auto simp flip: length_greater_0_conv)
    have "tiles t pos stop (paragraph_units (pos, span pos stop t))"
      using tiles_one [of pos pos stop stop t] sentence_tiles [OF stop] stop size by (auto simp: paragraph_units_def strip Let_def)
    moreover have "tiles t stop (length t) (concat (map paragraph_units (paragraph_matches stop (drop n (g # u)))))"
    proof -
      have "max n 1 = n" using n by simp
      moreover have "drop stop t = drop n (g # u)" unfolding 2(3) [symmetric] stop_def by (simp add: add.commute)
      ultimately show ?thesis using 2(2) [OF Some] stop 2(5) by (simp only: stop_def)
    qed
    ultimately have "tiles t pos (length t)
        (paragraph_units (pos, span pos stop t) @ concat (map paragraph_units (paragraph_matches stop (drop n (g # u)))))"
      using stop by (intro tiles_append) auto
    moreover have "paragraph_matches pos (g # u) = (pos, span pos stop t) # paragraph_matches stop (drop n (g # u))"
      using n by (subst paragraph_matches.simps) (simp only: Some option.case m stop_def max_absorb1)
    ultimately show ?thesis by simp
  qed
qed

lemma move_zero [simp]: "map (move_unit 0) us = us"
  by (simp add: move_unit_def map_idI split_def)

lemma blank_strip: "(\<And>k. k < length t \<Longrightarrow> space_point (t ! k)) \<Longrightarrow> strip_points t = []"
proof -
  assume "\<And>k. k < length t \<Longrightarrow> space_point (t ! k)"
  then have "\<forall>x \<in> set t. space_point x" by (auto simp: in_set_conv_nth)
  then have "dropWhile space_point t = []" by (simp only: dropWhile_eq_Nil_conv)
  then show ?thesis unfolding strip_points_def rstrip_points_def by (simp only: rev.simps dropWhile.simps)
qed

lemma semantic_tiles:
  assumes "strip_points t0 \<noteq> []"
  shows "tiles t0 0 (length t0) (semantic_units t0)"
proof -
  obtain post where t0: "t0 = rstrip_points t0 @ post" and post: "\<forall>x \<in> set post. space_point x"
    and end_t: "rstrip_points t0 = [] \<or> \<not> space_point (last (rstrip_points t0))" by (rule rstrip_points_split)
  define t where "t = rstrip_points t0"
  define us where "us = concat (map paragraph_units (paragraph_matches 0 t))"
  have le: "length t \<le> length t0" using t0 by (metis le_add1 length_append t_def)
  have t: "t = span 0 (length t) t0" using t0 by (metis append_eq_conv_conj drop_0 span_def t_def)
  have "tiles (span 0 (length t) t0) 0 (length t) us"
    using paragraphs_tile [of 0 t t] end_t unfolding us_def t [symmetric] by (simp add: t_def)
  then have "tiles t0 (0 + 0) (0 + length t) (map (move_unit 0) us)" by (rule tiles_move) (use le in auto)
  then have inner: "tiles t0 0 (length t) us" by simp
  have tiles: "tiles t0 0 (length t0) us"
  proof (rule tiles_widen [OF inner])
    show "space_point (t0 ! k)" if "length t \<le> k" "k < length t0" for k
    proof -
      have "t0 ! k = post ! (k - length t)" "k - length t < length post"
        using that t0 by (metis add_0 nth_append linorder_not_less t_def, metis add_0 length_append less_diff_conv2 t_def add.commute)
      then show ?thesis using post by simp
    qed
  qed (use le in auto)
  have "us \<noteq> []"
  proof
    assume "us = []"
    then have "\<And>k. k < length t0 \<Longrightarrow> space_point (t0 ! k)" using tiles by (auto simp: tiles_def)
    then show False using assms blank_strip by blast
  qed
  then have "semantic_units t0 = us"
    by (simp only: semantic_units_def Let_def us_def [symmetric] t_def [symmetric] if_False)
  then show ?thesis using tiles by simp
qed

section \<open>Packing keeps slices, size and coverage\<close>

text \<open>What the buffer holds while the units of a text are packed: the stretch from its first unit to its last.\<close>

definition buffer_ok :: "points \<Rightarrow> text_unit list \<Rightarrow> chunk_buffer \<Rightarrow> bool" where
  "buffer_ok t us b \<longleftrightarrow> b = empty_buffer
     \<or> (\<exists>s. cb_units b \<noteq> [] \<and> cb_start b = Some s \<and> s < cb_end b \<and> cb_end b \<le> length t \<and> cb_end b - s \<le> CHUNK_TARGET_CHARS
          \<and> list_all (\<lambda>(_, s', e'). s \<le> s' \<and> cb_end b \<le> e') us)"

definition in_buffer :: "nat \<Rightarrow> chunk_buffer \<Rightarrow> bool" where
  "in_buffer k b \<longleftrightarrow> (\<exists>s. cb_start b = Some s \<and> s \<le> k \<and> k < cb_end b)"

lemma flush_ok:
  assumes "buffer_ok t us b"
  shows "list_all (unit_of t 0 (length t)) (flush_buffer (Some t) b)
    \<and> (\<forall>k. in_buffer k b \<longrightarrow> list_ex (in_unit k) (flush_buffer (Some t) b))"
  using assms by (auto simp: buffer_ok_def flush_buffer_def unit_of_def in_buffer_def in_unit_def empty_buffer_def)

lemma coalesce_keeps:
  "\<lbrakk>list_all (unit_of t 0 (length t)) us; sorted_wrt unit_le us; buffer_ok t us b\<rbrakk>
    \<Longrightarrow> list_all (unit_of t 0 (length t)) (coalesce CHUNK_TARGET_CHARS (Some t) False us b)
      \<and> (\<forall>k. in_buffer k b \<or> list_ex (in_unit k) us \<longrightarrow> list_ex (in_unit k) (coalesce CHUNK_TARGET_CHARS (Some t) False us b))"
proof (induction us arbitrary: b)
  case Nil
  then show ?case using flush_ok by simp
next
  case (Cons x us)
  obtain u s e where x: "x = (u, s, e)" by (cases x)
  have unit: "s < e" "e \<le> length t" "u = span s e t" "e - s \<le> CHUNK_TARGET_CHARS" and units: "list_all (unit_of t 0 (length t)) us"
    using Cons.prems(1) by (auto simp: x unit_of_def)
  have len: "length u = e - s" "u \<noteq> []" using unit by (simp, auto simp flip: length_greater_0_conv)
  have later: "list_all (\<lambda>(_, s', e'). s \<le> s' \<and> e \<le> e') us" and sorted: "sorted_wrt unit_le us"
    using Cons.prems(2) by (auto simp: x unit_le_def list_all_iff)
  let ?fresh = "\<lambda>n. \<lparr>cb_units = [u], cb_start = Some s, cb_end = e, cb_chars = n\<rparr>"
  have fresh: "buffer_ok t us (?fresh n)" for n using unit later by (simp add: buffer_ok_def)
  note flush = flush_ok [OF Cons.prems(3)]
  show ?case
  proof (cases "b = empty_buffer")
    case True
    let ?out = "coalesce CHUNK_TARGET_CHARS (Some t) False us (?fresh (length u))"
    have "coalesce CHUNK_TARGET_CHARS (Some t) False (x # us) b = ?out"
      using len unit(4) by (simp add: x True empty_buffer_def Let_def flush_buffer_def)
    moreover have "\<not> in_buffer k b" "in_unit k x \<longleftrightarrow> in_buffer k (?fresh (length u))" for k
      by (simp_all add: in_buffer_def True empty_buffer_def x in_unit_def)
    ultimately show ?thesis using Cons.IH [OF units sorted fresh] by auto
  next
    case False
    then obtain bs where b: "cb_units b \<noteq> []" "cb_start b = Some bs" "bs < cb_end b" "bs \<le> s" "cb_end b \<le> e"
      using Cons.prems(3) by (auto simp: buffer_ok_def x)
    show ?thesis
    proof (cases "e - bs > CHUNK_TARGET_CHARS")
      case True
      let ?out = "coalesce CHUNK_TARGET_CHARS (Some t) False us (?fresh (length u))"
      have "coalesce CHUNK_TARGET_CHARS (Some t) False (x # us) b = flush_buffer (Some t) b @ ?out"
        using len unit(4) b True by (simp add: x Let_def) (simp add: empty_buffer_def)
      moreover have "in_unit k x \<longleftrightarrow> in_buffer k (?fresh (length u))" for k
        by (simp add: in_buffer_def x in_unit_def)
      ultimately show ?thesis using Cons.IH [OF units sorted fresh] flush by auto
    next
      case False
      let ?b = "\<lparr>cb_units = cb_units b @ [u], cb_start = Some bs, cb_end = e, cb_chars = e - bs\<rparr>"
      let ?out = "coalesce CHUNK_TARGET_CHARS (Some t) False us ?b"
      have "buffer_ok t us ?b" using b False unit later by (auto simp: buffer_ok_def list_all_iff)
      moreover have "coalesce CHUNK_TARGET_CHARS (Some t) False (x # us) b = ?out"
        using len unit(4) b False by (simp add: x Let_def)
      moreover have "in_buffer k b \<Longrightarrow> in_buffer k ?b" "in_unit k x \<Longrightarrow> in_buffer k ?b" for k
        using b by (auto simp: in_buffer_def x in_unit_def)
      ultimately show ?thesis using Cons.IH [OF units sorted, of ?b] by auto
    qed
  qed
qed

lemma chunk_text_tiles:
  assumes "strip_points t \<noteq> []"
  shows "list_all (unit_of t 0 (length t)) (chunk_text CHUNK_TARGET_CHARS preserve_units t)
    \<and> (\<forall>k < length t. \<not> space_point (t ! k) \<longrightarrow> list_ex (in_unit k) (chunk_text CHUNK_TARGET_CHARS preserve_units t))"
proof -
  note tiles = semantic_tiles [OF assms]
  then have units: "list_all (unit_of t 0 (length t)) (semantic_units t)" and sorted: "sorted_wrt unit_le (semantic_units t)"
    and covered: "\<And>k. k < length t \<Longrightarrow> \<not> space_point (t ! k) \<Longrightarrow> list_ex (in_unit k) (semantic_units t)"
    by (auto simp: tiles_def)
  show ?thesis
  proof (cases preserve_units)
    case False
    have "buffer_ok t (semantic_units t) empty_buffer" by (simp add: buffer_ok_def)
    from coalesce_keeps [OF units sorted this] show ?thesis
      using assms covered False by (simp add: chunk_text_def Let_def coalesced_semantic_units_def)
  next
    case True
    let ?f = "\<lambda>(u, s, e). if u = [] then [] else if length u \<le> CHUNK_TARGET_CHARS then [(u, s, e)] else fixed_width_units u s"
    have "?f x = [x]" if "unit_of t 0 (length t) x" for x
      using that by (auto simp: unit_of_def simp flip: length_greater_0_conv split: prod.splits)
    then have same: "concat (map ?f (semantic_units t)) = semantic_units t" using units
      by (induction "semantic_units t") (auto simp: list_all_iff concat_map_singleton cong: map_cong)
    obtain k where "k < length t" "\<not> space_point (t ! k)"
      using assms blank_strip by blast
    then have "semantic_units t \<noteq> []" using covered by force
    then have "chunk_text CHUNK_TARGET_CHARS preserve_units t = semantic_units t"
      using assms True same by (simp add: chunk_text_def Let_def)
    then show ?thesis using units covered by simp
  qed
qed

section \<open>What the chunks of a text hold\<close>

text \<open>
  C10. Chunking a text that is not blank yields exact slices of it, each with the offsets it stands at and
  of at most 1500 characters, and every visible character of the text lies in one of the chunks; this holds
  whether the units are packed together or kept apart.
\<close>

theorem chunk_text_exact_and_complete:
  assumes "strip_points t \<noteq> []"
  shows "(\<forall>(content, s, e) \<in> set (chunk_text CHUNK_TARGET_CHARS preserve_units t).
      content = span s e t \<and> s < e \<and> e \<le> length t \<and> length content \<le> 1500)
    \<and> (\<forall>k < length t. \<not> space_point (t ! k)
        \<longrightarrow> (\<exists>(content, s, e) \<in> set (chunk_text CHUNK_TARGET_CHARS preserve_units t). s \<le> k \<and> k < e))"
  using chunk_text_tiles [OF assms, of preserve_units]
  by (fastforce simp: list_all_iff list_ex_iff unit_of_def in_unit_def CHUNK_TARGET_CHARS_def)

definition sample_text :: points where
  "sample_text = [''A'', '' '', ''c'', ''a'', ''t'', ''.'', [CHR 0x0A], [CHR 0x0A], ''O'', ''k'', '' '']"

theorem chunk_text_exact_and_complete_witness:
  "strip_points sample_text \<noteq> [] \<and> \<not> space_point (sample_text ! 8)
    \<and> (\<exists>(content, s, e) \<in> set (chunk_text CHUNK_TARGET_CHARS False sample_text). s \<le> 8 \<and> 8 < e)"
proof -
  have "strip_points sample_text \<noteq> []" and eight: "8 < length sample_text" "\<not> space_point (sample_text ! 8)"
    by code_simp+
  then show ?thesis using chunk_text_exact_and_complete [of sample_text False] by blast
qed

end
