(* ===== verification/Document_Resolution.thy ===== *)
theory Document_Resolution
  imports Retrieval_Queries
begin

text \<open>
  Which document a question is about: the options a user may choose from
  (\<open>RetrievalService.authorized_document_options\<close>, \<open>authorized_document_options_by_ids\<close>), the
  ranking of titles and filenames against a query (\<open>knowledge/document_resolution.py\<close>) and the
  resolution of one target (\<open>RetrievalService.resolve_full_document_target\<close>).
\<close>

record AuthorizedDocumentOption =
  op_document_id :: ident
  op_title :: string
  op_source_filename :: "string option"
  op_knowledge_base_id :: "ident option"
  op_knowledge_base_name :: "string option"

record 's RankedAuthorizedDocumentOption = AuthorizedDocumentOption +
  op_score :: 's
  op_matched_tokens :: nat
  op_match_confidence :: string
  op_match_reason_code :: string
  op_exact :: bool

record 's FullDocumentTargetResolution =
  ft_target :: "AuthorizedDocumentOption option"
  ft_option_count :: nat
  ft_library_count :: nat
  ft_candidates :: "'s RankedAuthorizedDocumentOption list"
  ft_mode :: string

section \<open>Tokens\<close>

definition document_reference_extension_tokens :: "string list" where
  "document_reference_extension_tokens =
    [''csv'', ''doc'', ''docx'', ''html'', ''htm'', ''json'', ''md'', ''odt'', ''pdf'', ''ppt'', ''pptx'', ''rtf'',
     ''text'', ''txt'', ''xls'', ''xlsx'', ''xml'']"

definition document_reference_ignored_tokens :: "string list" where
  "document_reference_ignored_tokens =
    [''all'', ''analyze'', ''and'', ''beginning'', ''check'', ''compare'', ''complete'', ''completely'', ''content'',
     ''cover'', ''document'', ''end'', ''entire'', ''every'', ''everything'', ''extract'', ''file'', ''for'',
     ''from'', ''identify'', ''list'', ''me'', ''omission'', ''omissions'', ''or'', ''please'', ''read'',
     ''requirement'', ''requirements'', ''review'', ''section'', ''sections'', ''source'', ''summarize'',
     ''summary'', ''that'', ''the'', ''this'', ''to'', ''whole'', ''without'',
     [CHR 0xEA, CHR 0xB2, CHR 0x80, CHR 0xED, CHR 0x86, CHR 0xA0, CHR 0xED, CHR 0x95, CHR 0xB4, CHR 0xEC, CHR 0xA4, CHR 0x98],
     [CHR 0xEB, CHR 0x81, CHR 0x9D, CHR 0xEA, CHR 0xB9, CHR 0x8C, CHR 0xEC, CHR 0xA7, CHR 0x80],
     [CHR 0xEB, CHR 0x88, CHR 0x84, CHR 0xEB, CHR 0x9D, CHR 0xBD],
     [CHR 0xEB, CHR 0x82, CHR 0xB4, CHR 0xEC, CHR 0x9A, CHR 0xA9, CHR 0xEC, CHR 0x9D, CHR 0x84],
     [CHR 0xEB, CHR 0xAA, CHR 0xA8, CHR 0xEB, CHR 0x93, CHR 0xA0],
     [CHR 0xEB, CHR 0xAA, CHR 0xA8, CHR 0xEB, CHR 0x91, CHR 0x90],
     [CHR 0xEB, CHR 0xAC, CHR 0xB8, CHR 0xEC, CHR 0x84, CHR 0x9C],
     [CHR 0xEB, CHR 0xAC, CHR 0xB8, CHR 0xEC, CHR 0x84, CHR 0x9C, CHR 0xEC, CHR 0x9D, CHR 0x98],
     [CHR 0xEB, CHR 0xAC, CHR 0xB8, CHR 0xEC, CHR 0x84, CHR 0x9C, CHR 0xEB, CHR 0xA5, CHR 0xBC],
     [CHR 0xEB, CHR 0xB6, CHR 0x84, CHR 0xEC, CHR 0x84, CHR 0x9D, CHR 0xED, CHR 0x95, CHR 0xB4, CHR 0xEC, CHR 0xA4, CHR 0x98],
     [CHR 0xEB, CHR 0xB9, CHR 0xA0, CHR 0xEC, CHR 0xA7, CHR 0x90, CHR 0xEC, CHR 0x97, CHR 0x86, CHR 0xEC, CHR 0x9D, CHR 0xB4],
     [CHR 0xEC, CHR 0x84, CHR 0xB9, CHR 0xEC, CHR 0x85, CHR 0x98],
     [CHR 0xEC, CHR 0x97, CHR 0x86, CHR 0xEC, CHR 0x9D, CHR 0xB4],
     [CHR 0xEC, CHR 0x9A, CHR 0x94, CHR 0xEA, CHR 0xB5, CHR 0xAC, CHR 0xEC, CHR 0x82, CHR 0xAC, CHR 0xED, CHR 0x95, CHR 0xAD],
     [CHR 0xEC, CHR 0x9A, CHR 0x94, CHR 0xEC, CHR 0x95, CHR 0xBD],
     [CHR 0xEC, CHR 0x9A, CHR 0x94, CHR 0xEC, CHR 0x95, CHR 0xBD, CHR 0xED, CHR 0x95, CHR 0xB4, CHR 0xEC, CHR 0xA4, CHR 0x98],
     [CHR 0xEC, CHR 0x9D, CHR 0xBD, CHR 0xEA, CHR 0xB3, CHR 0xA0],
     [CHR 0xEC, CHR 0x9D, CHR 0xBD, CHR 0xEC, CHR 0x96, CHR 0xB4, CHR 0xEC, CHR 0xA4, CHR 0x98],
     [CHR 0xEC, CHR 0x9E, CHR 0x90, CHR 0xEB, CHR 0xA3, CHR 0x8C],
     [CHR 0xEC, CHR 0xA0, CHR 0x84, CHR 0xEB, CHR 0xB6, CHR 0x80],
     [CHR 0xEC, CHR 0xA0, CHR 0x84, CHR 0xEC, CHR 0xB2, CHR 0xB4, CHR 0xEB, CHR 0xA5, CHR 0xBC],
     [CHR 0xEC, CHR 0xA0, CHR 0x84, CHR 0xEC, CHR 0xB2, CHR 0xB4],
     [CHR 0xEC, CHR 0xA0, CHR 0x95, CHR 0xEB, CHR 0xA6, CHR 0xAC, CHR 0xED, CHR 0x95, CHR 0xB4, CHR 0xEC, CHR 0xA4, CHR 0x98],
     [CHR 0xEC, CHR 0xB2, CHR 0x98, CHR 0xEC, CHR 0x9D, CHR 0x8C, CHR 0xEB, CHR 0xB6, CHR 0x80, CHR 0xED, CHR 0x84, CHR 0xB0],
     [CHR 0xED, CHR 0x8C, CHR 0x8C, CHR 0xEC, CHR 0x9D, CHR 0xBC]]"

definition document_reference_tokens :: "string \<Rightarrow> string list" where
  "document_reference_tokens value =
     filter (\<lambda>token. token \<notin> set document_reference_extension_tokens) (find_words (py_casefold value))"

definition document_query_tokens :: "string \<Rightarrow> string list" where
  "document_query_tokens value =
     filter (\<lambda>token. token \<notin> set document_reference_ignored_tokens) (document_reference_tokens value)"

definition normalize_document_text :: "string \<Rightarrow> string" where
  "normalize_document_text value = py_join '' '' (py_split (py_casefold value))"

definition normalize_document_reference :: "string \<Rightarrow> string" where
  "normalize_document_reference value = py_join '' '' (document_reference_tokens value)"

text \<open>A dot, one of the extensions in any case, and no further letter or digit.\<close>

definition extension_ends :: "string \<Rightarrow> bool" where
  "extension_ends rest = list_ex (\<lambda>ext. take (length ext) (py_casefold rest) = ext
     \<and> (case drop (length ext) rest of [] \<Rightarrow> True | c # _ \<Rightarrow> \<not> ascii_alnum c)) document_reference_extension_tokens"

fun query_has_filename_reference :: "string \<Rightarrow> bool" where
  "query_has_filename_reference [] = False"
| "query_has_filename_reference (c # cs) = (c = CHR ''.'' \<and> extension_ends cs \<or> query_has_filename_reference cs)"

definition reference_point :: "string \<Rightarrow> bool" where
  "reference_point g \<longleftrightarrow> (case g of [c] \<Rightarrow> 97 \<le> byte c \<and> byte c \<le> 122 \<or> ascii_digit c \<or> c = CHR ''_'' | _ \<Rightarrow> False)"

text \<open>
  The searches repeat \<open>str.find\<close> from one past each occurrence, so they ask whether some occurrence
  stands between the right neighbours.
\<close>

definition occurs_at :: "string list \<Rightarrow> string list \<Rightarrow> nat \<Rightarrow> bool" where
  "occurs_at name query p \<longleftrightarrow> take (length name) (drop p query) = name \<and> (p = 0 \<or> \<not> word_point (query ! (p - 1)))"

definition filename_appears_in_query :: "string \<Rightarrow> string \<Rightarrow> bool" where
  "filename_appears_in_query raw_filename normalized_query =
     (let name = code_points (normalize_document_text raw_filename); query = code_points normalized_query
      in list_ex (\<lambda>p. occurs_at name query p
           \<and> (case drop (p + length name) query of [] \<Rightarrow> True | g # _ \<Rightarrow> \<not> reference_point g)) [0..<Suc (length query)])"

definition named_reference_appears_in_query :: "string \<Rightarrow> string \<Rightarrow> bool" where
  "named_reference_appears_in_query raw_reference normalized_query =
     (let name = code_points (normalize_document_text raw_reference); query = code_points normalized_query
      in list_ex (\<lambda>p. occurs_at name query p
           \<and> (case drop (p + length name) query of
                [] \<Rightarrow> True
              | [g] \<Rightarrow> \<not> word_point g
              | g # h # _ \<Rightarrow> \<not> word_point g \<and> \<not> (g = ''.'' \<and> reference_point h))) [0..<Suc (length query)])"

section \<open>The longest common window of tokens\<close>

type_synonym window = "nat \<times> nat \<times> nat"

fun window_row :: "'t \<Rightarrow> nat \<Rightarrow> 't list \<Rightarrow> nat \<Rightarrow> nat list \<Rightarrow> window \<Rightarrow> nat list \<times> window" where
  "window_row left_token left_index (right_token # right) right_index (p # previous) best =
     (let len = (if left_token = right_token then p + 1 else 0);
          best = (if left_token = right_token \<and> len > fst best
                  then (len, left_index + 1 - len, right_index + 1 - len) else best);
          (current, best) = window_row left_token left_index right (right_index + 1) previous best
      in (len # current, best))"
| "window_row left_token left_index right right_index previous best = ([], best)"

fun window_rows :: "'t list \<Rightarrow> nat \<Rightarrow> 't list \<Rightarrow> nat list \<Rightarrow> window \<Rightarrow> window" where
  "window_rows [] left_index right previous best = best"
| "window_rows (left_token # left) left_index right previous best =
     (let (current, best) = window_row left_token left_index right 0 previous best
      in window_rows left (left_index + 1) right (0 # current) best)"

definition longest_common_token_window :: "'t list \<Rightarrow> 't list \<Rightarrow> window" where
  "longest_common_token_window left right =
     (if left = [] \<or> right = [] then (0, 0, 0)
      else window_rows left 0 right (replicate (length right + 1) 0) (0, 0, 0))"

section \<open>Ranking one option\<close>

definition references_of :: "'a AuthorizedDocumentOption_scheme \<Rightarrow> (string \<times> string \<times> bool) list" where
  "references_of option =
     (case op_source_filename option of
        Some f \<Rightarrow> if f = '''' then [] else [(f, ''exact_filename'', True), (file_stem f, ''exact_filename'', False)]
      | None \<Rightarrow> [])
     @ [(op_title option, ''exact_title'', False)]"

definition rank_reference ::
  "('s::linorder, 'b) retrieval_env_scheme \<Rightarrow> AuthorizedDocumentOption \<Rightarrow> string list \<Rightarrow> string \<Rightarrow> bool
    \<Rightarrow> string \<times> string \<times> bool \<Rightarrow> 's RankedAuthorizedDocumentOption option" where
  "rank_reference env option query_tokens normalized_query query_has_filename = (\<lambda>(raw_reference, exact_reason, is_complete_filename).
     let reference_tokens = document_reference_tokens raw_reference;
         distinctive = filter (\<lambda>t. t \<notin> set document_reference_ignored_tokens) reference_tokens;
         exact_filename_match = (is_complete_filename \<and> filename_appears_in_query raw_reference normalized_query);
         exact_named_match = (\<not> query_has_filename \<and> distinctive \<noteq> []
            \<and> named_reference_appears_in_query raw_reference normalized_query);
         matched_tokens = (if exact_filename_match \<or> exact_named_match then length reference_tokens
            else fst (longest_common_token_window query_tokens reference_tokens));
         covers = (query_tokens = [] \<or> set query_tokens \<subseteq> set reference_tokens);
         exact = ((exact_filename_match \<or> exact_named_match) \<and> covers);
         overlap = length (dict_fromkeys (filter (\<lambda>t. t \<in> set reference_tokens) query_tokens));
         ratio = (\<lambda>a b. fl_div (re_ops env) (f_int env (int a)) (f_int env (int b)));
         dice = ratio (2 * overlap) (max (length (dict_fromkeys query_tokens) + length (dict_fromkeys reference_tokens)) 1);
         reference_coverage = ratio matched_tokens (length reference_tokens);
         query_coverage = ratio matched_tokens (max (length query_tokens) 1);
         score = (if exact
            then min (f_lit env 10 1) (f_add env (f_lit env 9 1) (f_mul env (f_lit env 2 2) (f_int env (int (min matched_tokens 5)))))
            else min (f_lit env 89 2) (f_add env (f_add env (f_mul env (f_lit env 5 1) query_coverage)
                   (f_mul env (f_lit env 2 1) reference_coverage)) (f_mul env (f_lit env 3 1) dice)));
         confidence = (if exact then ''high'' else if score \<ge> f_lit env 6 1 then ''medium'' else ''low'');
         reason = (if exact then exact_reason else if matched_tokens < 2 then ''metadata_overlap''
            else if exact_reason = ''exact_filename'' then ''partial_filename'' else ''partial_title'')
     in if reference_tokens = [] \<or> matched_tokens = 0 then None
        else Some (AuthorizedDocumentOption.extend option
          \<lparr>op_score = f_round env score, op_matched_tokens = matched_tokens, op_match_confidence = confidence,
           op_match_reason_code = reason, op_exact = exact\<rparr>))"

definition rank_strength :: "'s RankedAuthorizedDocumentOption \<Rightarrow> bool \<times> nat \<times> 's" where
  "rank_strength c = (op_exact c, op_matched_tokens c, op_score c)"

definition rank_document_option ::
  "('s::linorder, 'b) retrieval_env_scheme \<Rightarrow> string list \<Rightarrow> string \<Rightarrow> bool \<Rightarrow> AuthorizedDocumentOption
    \<Rightarrow> 's RankedAuthorizedDocumentOption option" where
  "rank_document_option env query_tokens normalized_query query_has_filename option =
     foldl (\<lambda>best reference.
       case rank_reference env option query_tokens normalized_query query_has_filename reference of
         None \<Rightarrow> best
       | Some candidate \<Rightarrow>
           (case best of None \<Rightarrow> Some candidate
            | Some b \<Rightarrow> if rank_strength candidate > rank_strength b then Some candidate else best))
       None (references_of option)"

definition document_candidate_sort_key :: "'s RankedAuthorizedDocumentOption \<Rightarrow> nat desc \<times> bool \<times> 's desc \<times> string \<times> ident" where
  "document_candidate_sort_key item =
     (Desc (op_matched_tokens item), \<not> op_exact item, Desc (op_score item), normalize_document_reference (op_title item),
      op_document_id item)"

text \<open>\<open>heapq.nsmallest(n, xs, key)\<close> is \<open>sorted(xs, key=key)[:n]\<close>.\<close>

definition rank_document_options ::
  "('s::linorder, 'b) retrieval_env_scheme \<Rightarrow> string \<Rightarrow> nat option \<Rightarrow> AuthorizedDocumentOption list
    \<Rightarrow> 's RankedAuthorizedDocumentOption list" where
  "rank_document_options env query limit options =
     (let ranked = List.map_filter (rank_document_option env (document_query_tokens query) (normalize_document_text query)
            (query_has_filename_reference query)) options;
          ordered = sort_key document_candidate_sort_key ranked
      in case limit of None \<Rightarrow> ordered | Some n \<Rightarrow> take n ordered)"

section \<open>The options of a user\<close>

definition document_option :: "DocumentModel \<times> string \<Rightarrow> AuthorizedDocumentOption" where
  "document_option = (\<lambda>(d, name).
     \<lparr>op_document_id = d_id d, op_title = d_title d, op_source_filename = d_source_filename d,
      op_knowledge_base_id = Some (d_knowledge_base_id d), op_knowledge_base_name = Some name\<rparr>)"

definition option_rows :: "(DocumentModel \<Rightarrow> bool) \<Rightarrow> 'a retrieval_db_scheme \<Rightarrow> (DocumentModel \<times> string) list" where
  "option_rows p db = concat (map (\<lambda>d. map (\<lambda>kb. (d, kb_name kb))
     (filter (\<lambda>kb. kb_id kb = d_knowledge_base_id d) (knowledge_bases db))) (scalars p (documents db)))"

definition ordered_option_rows :: "(DocumentModel \<Rightarrow> bool) \<Rightarrow> 'a retrieval_db_scheme \<Rightarrow> (DocumentModel \<times> string) list" where
  "ordered_option_rows p db = sort_key (\<lambda>(d, _). (d_title d, d_id d)) (option_rows p db)"

definition authorized_document_options ::
  "('s, 'b) retrieval_env_scheme \<Rightarrow> ident \<Rightarrow> ident list option \<Rightarrow> int \<Rightarrow> int \<Rightarrow> 'a retrieval_db_scheme
    \<Rightarrow> AuthorizedDocumentOption list \<times> nat" where
  "authorized_document_options env user_id ids limit offset db =
     (let rows = ordered_option_rows (user_selectable_document_filter user_id ids (re_has_purpose env) db) db
      in (map document_option (take (nat (max 1 (min limit 50))) (drop (nat (max offset 0)) rows)),
          user_selectable_document_count env user_id ids db))"

definition authorized_document_options_by_ids ::
  "('s, 'b) retrieval_env_scheme \<Rightarrow> ident \<Rightarrow> ident list \<Rightarrow> ident list option \<Rightarrow> 'a retrieval_db_scheme
    \<Rightarrow> AuthorizedDocumentOption list" where
  "authorized_document_options_by_ids env user_id document_ids ids db =
     (let ordered_ids = dict_fromkeys document_ids;
          rows = option_rows (\<lambda>d. user_selectable_document_filter user_id ids (re_has_purpose env) db d
            \<and> d_id d \<in> set ordered_ids) db;
          options_by_id = map_of (rev (map (\<lambda>row. (d_id (fst row), document_option row)) rows))
      in if ordered_ids = [] then [] else List.map_filter options_by_id ordered_ids)"

section \<open>Resolving one target\<close>

definition DOCUMENT_SELECTION_SHORTLIST_LIMIT :: nat where
  "DOCUMENT_SELECTION_SHORTLIST_LIMIT = 5"

definition resolve_shortlist ::
  "('s::linorder, 'b) retrieval_env_scheme \<Rightarrow> nat \<Rightarrow> 's RankedAuthorizedDocumentOption list \<Rightarrow> 's FullDocumentTargetResolution" where
  "resolve_shortlist env library_total ranked =
     (let strongest_matched_tokens = (case ranked of [] \<Rightarrow> 0 | c # _ \<Rightarrow> op_matched_tokens c);
          exact_filenames = filter (\<lambda>c. op_exact c \<and> op_match_reason_code c = ''exact_filename''
            \<and> op_matched_tokens c = strongest_matched_tokens) ranked;
          strongest_exact = (case ranked of [] \<Rightarrow> [] | first # _ \<Rightarrow>
            filter (\<lambda>c. op_exact c \<and> (op_matched_tokens c, op_score c) = (op_matched_tokens first, op_score first)) ranked);
          first_is_exact = (case ranked of [] \<Rightarrow> False | first # _ \<Rightarrow> op_exact first \<and> op_match_reason_code first \<noteq> ''exact_filename'');
          resolved = (\<lambda>c. \<lparr>ft_target = Some (AuthorizedDocumentOption.truncate c), ft_option_count = 1, ft_library_count = library_total,
            ft_candidates = [], ft_mode = ''exact''\<rparr>);
          unresolved = (\<lambda>cs. \<lparr>ft_target = None, ft_option_count = length cs, ft_library_count = library_total, ft_candidates = cs,
            ft_mode = (if cs = [] then ''unresolved'' else ''relevant'')\<rparr>)
      in if exact_filenames \<noteq> []
         then if length exact_filenames = 1 then resolved (hd exact_filenames)
              else unresolved (take DOCUMENT_SELECTION_SHORTLIST_LIMIT exact_filenames)
         else if first_is_exact
         then if length strongest_exact = 1 then resolved (hd strongest_exact)
              else unresolved (take DOCUMENT_SELECTION_SHORTLIST_LIMIT strongest_exact)
         else unresolved (take DOCUMENT_SELECTION_SHORTLIST_LIMIT (filter (\<lambda>c. op_score c \<ge> f_lit env 35 2) ranked)))"

definition resolve_full_document_target ::
  "('s::linorder, 'b) retrieval_env_scheme \<Rightarrow> ident \<Rightarrow> string \<Rightarrow> ident list option \<Rightarrow> ident option \<Rightarrow> 'a retrieval_db_scheme
    \<Rightarrow> 's FullDocumentTargetResolution" where
  "resolve_full_document_target env user_id query ids selected_document_id db =
     (let statement = ordered_option_rows (user_selectable_document_filter user_id ids (re_has_purpose env) db) db;
          library_total = user_selectable_document_count env user_id ids db;
          only_option = (if library_total = 1 then (case statement of [] \<Rightarrow> None | row # _ \<Rightarrow> Some (document_option row)) else None)
      in case selected_document_id of
           Some selected \<Rightarrow>
             (let row = find (\<lambda>(d, _). d_id d = selected) statement
              in \<lparr>ft_target = map_option document_option row, ft_option_count = (if row = None then 0 else 1),
                  ft_library_count = library_total, ft_candidates = [], ft_mode = ''selected''\<rparr>)
         | None \<Rightarrow>
             if only_option \<noteq> None \<and> document_query_tokens query = [] \<and> \<not> query_has_filename_reference query
             then \<lparr>ft_target = only_option, ft_option_count = 1, ft_library_count = 1, ft_candidates = [], ft_mode = ''single''\<rparr>
             else resolve_shortlist env library_total
               (rank_document_options env query (Some DOCUMENT_SELECTION_SHORTLIST_LIMIT) (map document_option statement)))"

section \<open>The window search finds the longest window\<close>

definition is_window :: "'t list \<Rightarrow> 't list \<Rightarrow> window \<Rightarrow> bool" where
  "is_window left right = (\<lambda>(m, a, b). a + m \<le> length left \<and> b + m \<le> length right \<and> take m (drop a left) = take m (drop b right))"

text \<open>How many equal tokens end before two positions: what a cell of the table holds.\<close>

fun run_length :: "'t list \<Rightarrow> 't list \<Rightarrow> nat \<Rightarrow> nat \<Rightarrow> nat" where
  "run_length left right (Suc i) (Suc j) = (if left ! i = right ! j then Suc (run_length left right i j) else 0)"
| "run_length left right _ _ = 0"

lemma window_Suc:
  "is_window left right (Suc m, a, b) \<longleftrightarrow> is_window left right (m, a, b) \<and> a + m < length left \<and> b + m < length right
     \<and> left ! (a + m) = right ! (b + m)"
  by (auto simp: is_window_def take_Suc_conv_app_nth)

lemma run_is_window:
  "i \<le> length left \<Longrightarrow> j \<le> length right \<Longrightarrow> run_length left right i j \<le> i \<and> run_length left right i j \<le> j
     \<and> is_window left right (run_length left right i j, i - run_length left right i j, j - run_length left right i j)"
proof (induction left right i j rule: run_length.induct)
  case (1 left right i j)
  then show ?case by (auto simp: window_Suc Suc_diff_le) (auto simp: is_window_def)
qed (auto simp: is_window_def)

lemma window_in_run: "is_window left right (m, a, b) \<Longrightarrow> m \<le> run_length left right (a + m) (b + m)"
  by (induction m) (auto simp: window_Suc)

lemma window_row_ok:
  assumes "i < length left" and "j \<le> length right" and "is_window left right best"
  shows "case window_row (left ! i) i (drop j right) j (map (run_length left right i) [j..<Suc (length right)]) best of
     (current, best') \<Rightarrow> current = map (\<lambda>k. run_length left right (Suc i) (Suc k)) [j..<length right]
       \<and> is_window left right best' \<and> fst best \<le> fst best' \<and> (\<forall>k \<in> set [j..<length right]. run_length left right (Suc i) (Suc k) \<le> fst best')"
  using assms(2,3)
proof (induction "length right - j" arbitrary: j best)
  case 0
  then show ?case by simp
next
  case (Suc n)
  then have j: "j < length right" by simp
  let ?len = "run_length left right (Suc i) (Suc j)"
  define next_best where "next_best = (if left ! i = right ! j \<and> ?len > fst best then (?len, Suc i - ?len, Suc j - ?len) else best)"
  have ok: "is_window left right next_best" "fst best \<le> fst next_best" "?len \<le> fst next_best"
    using run_is_window [of "Suc i" left "Suc j" right] assms(1) j Suc.prems(2) by (auto simp: next_best_def)
  obtain current best' where row: "window_row (left ! i) i (drop (Suc j) right) (Suc j)
      (map (run_length left right i) [Suc j..<Suc (length right)]) next_best = (current, best')" by (rule prod.exhaust)
  have IH: "current = map (\<lambda>k. run_length left right (Suc i) (Suc k)) [Suc j..<length right]" "is_window left right best'"
    "fst next_best \<le> fst best'" "\<forall>k \<in> set [Suc j..<length right]. run_length left right (Suc i) (Suc k) \<le> fst best'"
    using Suc.hyps(1) [of "Suc j" next_best] Suc.hyps(2) j ok(1) row by auto
  have "window_row (left ! i) i (drop j right) j (map (run_length left right i) [j..<Suc (length right)]) best = (?len # current, best')"
  proof -
    have cell: "(if left ! i = right ! j then Suc (run_length left right i j) else 0) = ?len" by simp
    have "[j..<Suc (length right)] = j # [Suc j..<Suc (length right)]" using j by (simp add: upt_conv_Cons del: upt_Suc)
    then show ?thesis
      by (simp only: Cons_nth_drop_Suc [OF j, symmetric] list.map window_row.simps Let_def cell next_best_def [symmetric]
          Suc_eq_plus1 [symmetric] row prod.case)
  qed
  then show ?case using IH ok j by (auto simp: upt_conv_Cons simp del: run_length.simps upt_Suc)
qed

lemma window_rows_ok:
  assumes "i \<le> length left" and "is_window left right best"
    and "\<forall>i' \<le> i. \<forall>k \<le> length right. run_length left right i' k \<le> fst best"
  shows "is_window left right (window_rows (drop i left) i right (map (run_length left right i) [0..<Suc (length right)]) best)
    \<and> (\<forall>i' \<le> length left. \<forall>k \<le> length right. run_length left right i' k
        \<le> fst (window_rows (drop i left) i right (map (run_length left right i) [0..<Suc (length right)]) best))"
  using assms
proof (induction "length left - i" arbitrary: i best)
  case 0
  then show ?case by simp
next
  case (Suc n)
  then have i: "i < length left" by simp
  obtain current best' where row: "window_row (left ! i) i (drop 0 right) 0 (map (run_length left right i) [0..<Suc (length right)]) best
      = (current, best')" by (rule prod.exhaust)
  have current: "current = map (\<lambda>k. run_length left right (Suc i) (Suc k)) [0..<length right]"
    and best': "is_window left right best'" "fst best \<le> fst best'"
    "\<forall>k < length right. run_length left right (Suc i) (Suc k) \<le> fst best'"
    using window_row_ok [OF i _ Suc.prems(2), of 0] row by (auto simp del: upt_Suc run_length.simps)
  have "0 # current = map (run_length left right (Suc i)) (0 # map Suc [0..<length right])"
    by (simp add: current del: upt_Suc run_length.simps(1))
  also have "0 # map Suc [0..<length right] = [0..<Suc (length right)]"
    by (simp add: map_Suc_upt upt_conv_Cons del: upt_Suc)
  finally have cells: "0 # current = map (run_length left right (Suc i)) [0..<Suc (length right)]" .
  have all: "\<forall>i' \<le> Suc i. \<forall>k \<le> length right. run_length left right i' k \<le> fst best'"
  proof (intro allI impI)
    fix i' k
    assume "i' \<le> Suc i" "k \<le> length right"
    then show "run_length left right i' k \<le> fst best'"
      using Suc.prems(3) best' by (cases "i' = Suc i"; cases k) (auto simp: le_Suc_eq simp del: run_length.simps(1) intro: le_trans)
  qed
  have "window_rows (drop i left) i right (map (run_length left right i) [0..<Suc (length right)]) best
      = window_rows (drop (Suc i) left) (Suc i) right (map (run_length left right (Suc i)) [0..<Suc (length right)]) best'"
    using row by (simp only: Cons_nth_drop_Suc [OF i, symmetric] window_rows.simps drop0 prod.case Let_def cells Suc_eq_plus1)
  then show ?case using Suc.hyps(1) [of "Suc i" best'] Suc.hyps(2) i best'(1) all by simp
qed

lemma no_window: "left = [] \<or> right = [] \<Longrightarrow> is_window left right (m, a, b) \<Longrightarrow> m = 0"
  by (auto simp: is_window_def)

text \<open>
  C15. The token matcher computes a longest common window: its result is a common stretch of the two token
  lists at the positions it names, and its length is the greatest any common stretch has.
\<close>

theorem longest_common_token_window_correct:
  "is_window left right (longest_common_token_window left right)
    \<and> fst (longest_common_token_window left right) = Max {m. \<exists>a b. is_window left right (m, a, b)}"
proof -
  let ?w = "longest_common_token_window left right"
  have upper: "is_window left right ?w \<and> (\<forall>m a b. is_window left right (m, a, b) \<longrightarrow> m \<le> fst ?w)"
  proof (cases "left = [] \<or> right = []")
    case True
    then show ?thesis using no_window [OF True] by (auto simp: longest_common_token_window_def is_window_def)
  next
    case False
    have "map (run_length left right 0) ks = replicate (length ks) 0" for ks by (induction ks) simp_all
    from this [of "[0..<Suc (length right)]"]
    have "replicate (length right + 1) 0 = map (run_length left right 0) [0..<Suc (length right)]" by simp
    then have w: "?w = window_rows (drop 0 left) 0 right (map (run_length left right 0) [0..<Suc (length right)]) (0, 0, 0)"
      using False by (simp add: longest_common_token_window_def)
    have "is_window left right ?w" and runs: "\<forall>i \<le> length left. \<forall>k \<le> length right. run_length left right i k \<le> fst ?w"
      using window_rows_ok [of 0 left right "(0, 0, 0)"] unfolding w by (auto simp: is_window_def)
    moreover have "m \<le> fst ?w" if "is_window left right (m, a, b)" for m a b
    proof -
      have "a + m \<le> length left" "b + m \<le> length right" using that by (simp_all add: is_window_def)
      then show ?thesis using window_in_run [OF that] runs le_trans by blast
    qed
    ultimately show ?thesis by blast
  qed
  have "fst ?w \<in> {m. \<exists>a b. is_window left right (m, a, b)}" using upper by (cases ?w) auto
  moreover have "finite {m. \<exists>a b. is_window left right (m, a, b)}"
    using upper by (intro finite_subset [OF _ finite_atMost [of "fst ?w"]]) auto
  ultimately have "fst ?w = Max {m. \<exists>a b. is_window left right (m, a, b)}"
    using upper by (intro Max_eqI [symmetric]) auto
  then show ?thesis using upper by blast
qed

section \<open>What a resolution may name\<close>

definition option_of :: "'s RankedAuthorizedDocumentOption \<Rightarrow> AuthorizedDocumentOption" where
  "option_of c = AuthorizedDocumentOption.truncate c"

text \<open>One of the names of a document stands in the query, and holds every distinctive word of the query.\<close>

definition query_names :: "string \<Rightarrow> AuthorizedDocumentOption \<Rightarrow> bool" where
  "query_names query option \<longleftrightarrow> (\<exists>(raw, _, complete) \<in> set (references_of option).
     (complete \<and> filename_appears_in_query raw (normalize_document_text query)
        \<or> \<not> query_has_filename_reference query \<and> named_reference_appears_in_query raw (normalize_document_text query))
     \<and> set (document_query_tokens query) \<subseteq> set (document_reference_tokens raw))"

lemma option_of_extend: "option_of (AuthorizedDocumentOption.extend option x) = option"
  by (cases option) (simp add: option_of_def AuthorizedDocumentOption.defs)

lemma op_exact_extend: "op_exact (AuthorizedDocumentOption.extend option
    \<lparr>op_score = s, op_matched_tokens = m, op_match_confidence = f, op_match_reason_code = r, op_exact = e\<rparr>) = e"
  by (simp add: AuthorizedDocumentOption.defs)

lemma guarded_Some: "(if a then None else Some x) = Some c \<Longrightarrow> x = c"
  by (simp split: if_splits)

lemma rank_reference_option:
  assumes "rank_reference env option (document_query_tokens query) (normalize_document_text query)
      (query_has_filename_reference query) reference = Some c" and "reference \<in> set (references_of option)"
  shows "option_of c = option \<and> (op_exact c \<longrightarrow> query_names query option)"
proof -
  obtain raw reason complete where r: "reference = (raw, reason, complete)" by (rule prod_cases3)
  note c = guarded_Some [OF assms(1) [unfolded r rank_reference_def prod.case Let_def]]
  have "option_of c = option" unfolding c [symmetric] by (rule option_of_extend)
  moreover have "(complete \<and> filename_appears_in_query raw (normalize_document_text query)
        \<or> \<not> query_has_filename_reference query \<and> named_reference_appears_in_query raw (normalize_document_text query))
     \<and> set (document_query_tokens query) \<subseteq> set (document_reference_tokens raw)" if "op_exact c"
    using that unfolding c [symmetric] op_exact_extend by (elim conjE disjE) simp_all
  ultimately show ?thesis using assms(2) unfolding query_names_def r by blast
qed

lemma foldl_choice:
  "(\<And>best x. x \<in> set xs \<Longrightarrow> step best x = best \<or> P (step best x)) \<Longrightarrow> P a \<Longrightarrow> P (foldl step a xs)"
  by (induction xs arbitrary: a) (auto, metis)

lemma rank_document_option_ok:
  assumes "rank_document_option env (document_query_tokens query) (normalize_document_text query)
      (query_has_filename_reference query) option = Some c"
  shows "option_of c = option \<and> (op_exact c \<longrightarrow> query_names query option)"
proof -
  let ?P = "\<lambda>best. case best of None \<Rightarrow> True | Some c \<Rightarrow> option_of c = option \<and> (op_exact c \<longrightarrow> query_names query option)"
  have "?P (rank_document_option env (document_query_tokens query) (normalize_document_text query)
      (query_has_filename_reference query) option)"
    unfolding rank_document_option_def
    by (rule foldl_choice) (auto dest: rank_reference_option split: option.splits)
  then show ?thesis using assms by simp
qed

lemma ranked_option_ok:
  assumes "c \<in> set (rank_document_options env query limit options)"
  shows "option_of c \<in> set options \<and> (op_exact c \<longrightarrow> query_names query (option_of c))"
proof -
  have "c \<in> set (List.map_filter (rank_document_option env (document_query_tokens query) (normalize_document_text query)
      (query_has_filename_reference query)) options)"
    using assms by (auto simp: rank_document_options_def Let_def dest: in_set_takeD split: option.splits)
  then obtain option where "option \<in> set options" "rank_document_option env (document_query_tokens query)
      (normalize_document_text query) (query_has_filename_reference query) option = Some c"
    by (auto simp: List.map_filter_def)
  then show ?thesis using rank_document_option_ok by metis
qed

lemma set_ordered_option_rows:
  "set (ordered_option_rows p db) = {(d, kb_name kb) | d kb. d \<in> set (documents db) \<and> p d
     \<and> kb \<in> set (knowledge_bases db) \<and> kb_id kb = d_knowledge_base_id d}"
  by (auto simp: ordered_option_rows_def option_rows_def scalars_def)

text \<open>How a resolution of a shortlist looks.\<close>

lemma resolve_shortlist_cases:
  obtains (exact) c where "c \<in> set ranked" and "op_exact c" and "resolve_shortlist env n ranked =
      \<lparr>ft_target = Some (option_of c), ft_option_count = 1, ft_library_count = n, ft_candidates = [], ft_mode = ''exact''\<rparr>"
  | (open_choice) cs where "set cs \<subseteq> set ranked" and "length cs \<le> 5" and "resolve_shortlist env n ranked =
      \<lparr>ft_target = None, ft_option_count = length cs, ft_library_count = n, ft_candidates = cs,
       ft_mode = (if cs = [] then ''unresolved'' else ''relevant'')\<rparr>"
proof -
  define strong where "strong = (case ranked of [] \<Rightarrow> 0 | c # _ \<Rightarrow> op_matched_tokens c)"
  define files where "files = filter (\<lambda>c. op_exact c \<and> op_match_reason_code c = ''exact_filename'' \<and> op_matched_tokens c = strong) ranked"
  define titles where "titles = (case ranked of [] \<Rightarrow> [] | first # _ \<Rightarrow>
      filter (\<lambda>c. op_exact c \<and> (op_matched_tokens c, op_score c) = (op_matched_tokens first, op_score first)) ranked)"
  define by_title where "by_title = (case ranked of [] \<Rightarrow> False | first # _ \<Rightarrow> op_exact first \<and> op_match_reason_code first \<noteq> ''exact_filename'')"
  define good where "good = filter (\<lambda>c. op_score c \<ge> f_lit env 35 2) ranked"
  define resolved where "resolved = (\<lambda>c::'a RankedAuthorizedDocumentOption. \<lparr>ft_target = Some (option_of c), ft_option_count = 1,
      ft_library_count = n, ft_candidates = [], ft_mode = ''exact''\<rparr> :: 'a FullDocumentTargetResolution)"
  define unresolved where "unresolved = (\<lambda>cs::'a RankedAuthorizedDocumentOption list. \<lparr>ft_target = None, ft_option_count = length cs,
      ft_library_count = n, ft_candidates = cs, ft_mode = (if cs = [] then ''unresolved'' else ''relevant'')\<rparr>)"
  have eq: "resolve_shortlist env n ranked =
      (if files \<noteq> [] then if length files = 1 then resolved (hd files) else unresolved (take 5 files)
       else if by_title then if length titles = 1 then resolved (hd titles) else unresolved (take 5 titles)
       else unresolved (take 5 good))"
    unfolding resolve_shortlist_def Let_def files_def strong_def titles_def by_title_def good_def resolved_def unresolved_def
      option_of_def DOCUMENT_SELECTION_SHORTLIST_LIMIT_def ..
  have members: "set files \<subseteq> {c \<in> set ranked. op_exact c}" "set titles \<subseteq> {c \<in> set ranked. op_exact c}" "set good \<subseteq> set ranked"
    by (auto simp: files_def titles_def good_def split: list.splits)
  have one: "hd cs \<in> {c \<in> set ranked. op_exact c}" if "length cs = 1" "set cs \<subseteq> {c \<in> set ranked. op_exact c}" for cs
    using that by (cases cs) auto
  have pick: thesis if "c \<in> {c \<in> set ranked. op_exact c}" "resolve_shortlist env n ranked = resolved c" for c
    using exact [of c] that unfolding resolved_def by blast
  have leave: thesis if "set cs \<subseteq> set ranked" "resolve_shortlist env n ranked = unresolved (take 5 cs)" for cs
    using open_choice [of "take 5 cs"] that set_take_subset [of 5 cs] unfolding unresolved_def by (simp add: order_trans)
  have subs: "set files \<subseteq> set ranked" "set titles \<subseteq> set ranked" using members by blast+
  show thesis
  proof (cases "files = []")
    case False
    then show thesis using pick [of "hd files"] leave [of files] one [OF _ members(1)] subs eq by (cases "length files = 1") simp_all
  next
    case True
    then show thesis using pick [of "hd titles"] leave [of titles] leave [of good] one [OF _ members(2)] subs members(3) eq
      by (cases "by_title"; cases "length titles = 1") simp_all
  qed
qed

definition selectable_options :: "('s, 'b) retrieval_env_scheme \<Rightarrow> ident \<Rightarrow> ident list option \<Rightarrow> 'a retrieval_db_scheme \<Rightarrow> AuthorizedDocumentOption set" where
  "selectable_options env u ids db = {document_option (d, kb_name kb) | d kb. d \<in> set (documents db)
     \<and> user_selectable_document_filter u ids (re_has_purpose env) db d
     \<and> kb \<in> set (knowledge_bases db) \<and> kb_id kb = d_knowledge_base_id d}"

lemma set_statement:
  "document_option ` set (ordered_option_rows (user_selectable_document_filter u ids (re_has_purpose env) db) db)
    = selectable_options env u ids db"
  by (force simp: set_ordered_option_rows selectable_options_def)

definition resolution_ok ::
  "('s, 'b) retrieval_env_scheme \<Rightarrow> ident \<Rightarrow> string \<Rightarrow> ident list option \<Rightarrow> ident option \<Rightarrow> 'a retrieval_db_scheme
    \<Rightarrow> 's FullDocumentTargetResolution \<Rightarrow> bool" where
  "resolution_ok env u query ids selected db result \<longleftrightarrow>
     set_option (ft_target result) \<union> option_of ` set (ft_candidates result) \<subseteq> selectable_options env u ids db
    \<and> length (ft_candidates result) \<le> 5
    \<and> (ft_mode result = ''selected'' \<and> ft_candidates result = [] \<and> op_document_id ` set_option (ft_target result) \<subseteq> set_option selected
     \<or> ft_mode result = ''single'' \<and> ft_candidates result = [] \<and> user_selectable_document_count env u ids db = 1
     \<or> ft_mode result = ''exact'' \<and> ft_candidates result = [] \<and> (\<exists>o1. ft_target result = Some o1 \<and> query_names query o1)
     \<or> ft_mode result = ''relevant'' \<and> ft_target result = None
     \<or> ft_mode result = ''unresolved'' \<and> ft_target result = None \<and> ft_candidates result = [])"

lemma statement_option:
  "row \<in> set (ordered_option_rows (user_selectable_document_filter u ids (re_has_purpose env) db) db)
    \<Longrightarrow> document_option row \<in> selectable_options env u ids db"
  using set_statement [of u ids env db] by blast

lemma resolve_selected:
  "resolution_ok env u query ids (Some i) db (resolve_full_document_target env u query ids (Some i) db)"
proof -
  let ?statement = "ordered_option_rows (user_selectable_document_filter u ids (re_has_purpose env) db) db"
  define row where "row = find (\<lambda>(d, _). d_id d = i) ?statement"
  have eq: "resolve_full_document_target env u query ids (Some i) db =
      \<lparr>ft_target = map_option document_option row, ft_option_count = (if row = None then 0 else 1),
       ft_library_count = user_selectable_document_count env u ids db, ft_candidates = [], ft_mode = ''selected''\<rparr>"
    unfolding resolve_full_document_target_def Let_def option.case row_def ..
  show ?thesis
  proof (cases row)
    case (Some r)
    have r: "r \<in> set ?statement \<and> (case r of (d, _) \<Rightarrow> d_id d = i)"
      using scalar_SomeD [of "\<lambda>(d, _). d_id d = i" ?statement r] Some by (simp add: scalar_def row_def)
    then have "op_document_id (document_option r) = i" by (auto simp: document_option_def)
    moreover have "document_option r \<in> selectable_options env u ids db" using r by (intro statement_option) blast
    ultimately show ?thesis unfolding eq resolution_ok_def using Some by simp
  qed (simp add: eq resolution_ok_def)
qed

lemma resolve_ranked:
  assumes "ranked = rank_document_options env query limit
      (map document_option (ordered_option_rows (user_selectable_document_filter u ids (re_has_purpose env) db) db))"
  shows "resolution_ok env u query ids None db (resolve_shortlist env n ranked)"
proof -
  have ranked: "option_of c \<in> selectable_options env u ids db \<and> (op_exact c \<longrightarrow> query_names query (option_of c))"
    if "c \<in> set ranked" for c
    using ranked_option_ok [OF that [unfolded assms]] unfolding set_map set_statement by blast
  show ?thesis
  proof (rule resolve_shortlist_cases [of ranked env n])
    fix c
    assume "c \<in> set ranked" "op_exact c" "resolve_shortlist env n ranked = \<lparr>ft_target = Some (option_of c), ft_option_count = 1,
      ft_library_count = n, ft_candidates = [], ft_mode = ''exact''\<rparr>"
    then show ?thesis using ranked by (simp add: resolution_ok_def)
  next
    fix cs
    assume "set cs \<subseteq> set ranked" "length cs \<le> 5" "resolve_shortlist env n ranked = \<lparr>ft_target = None,
      ft_option_count = length cs, ft_library_count = n, ft_candidates = cs, ft_mode = (if cs = [] then ''unresolved'' else ''relevant'')\<rparr>"
    then show ?thesis using ranked by (auto simp: resolution_ok_def)
  qed
qed

lemma resolve_unselected:
  "resolution_ok env u query ids None db (resolve_full_document_target env u query ids None db)"
proof -
  let ?statement = "ordered_option_rows (user_selectable_document_filter u ids (re_has_purpose env) db) db"
  let ?n = "user_selectable_document_count env u ids db"
  let ?only = "if ?n = 1 then (case ?statement of [] \<Rightarrow> None | row # _ \<Rightarrow> Some (document_option row)) else None"
  show ?thesis
  proof (cases "?only \<noteq> None \<and> document_query_tokens query = [] \<and> \<not> query_has_filename_reference query")
    case True
    then obtain o1 where only: "?only = Some o1" by blast
    have n: "?n = 1" using only by (rule contrapos_pp) simp
    have "\<exists>row \<in> set ?statement. o1 = document_option row" using only unfolding n by (cases ?statement) auto
    then have o1: "o1 \<in> selectable_options env u ids db" using statement_option by blast
    have eq: "resolve_full_document_target env u query ids None db =
        \<lparr>ft_target = ?only, ft_option_count = 1, ft_library_count = 1, ft_candidates = [], ft_mode = ''single''\<rparr>"
      unfolding resolve_full_document_target_def Let_def option.case by (rule if_P [OF True])
    show ?thesis unfolding eq only resolution_ok_def using o1 n by simp
  next
    case False
    have "resolve_full_document_target env u query ids None db = resolve_shortlist env ?n
        (rank_document_options env query (Some DOCUMENT_SELECTION_SHORTLIST_LIMIT) (map document_option ?statement))"
      unfolding resolve_full_document_target_def Let_def option.case by (rule if_not_P [OF False])
    then show ?thesis using resolve_ranked [OF refl] by simp
  qed
qed

text \<open>
  C13. A question resolves to a document, or offers documents to choose from, only among those the user may
  select, at most five of them. It names a target without asking exactly in three ways: the user selected
  it, it is the only document there is, or the query spells out one of its names and contains no
  distinctive word that is not part of that name.
\<close>

theorem resolve_full_document_target_sound:
  "let result = resolve_full_document_target env u query ids selected db
   in set_option (ft_target result) \<union> option_of ` set (ft_candidates result) \<subseteq> selectable_options env u ids db
    \<and> length (ft_candidates result) \<le> 5
    \<and> (ft_mode result = ''selected'' \<and> ft_candidates result = [] \<and> op_document_id ` set_option (ft_target result) \<subseteq> set_option selected
     \<or> ft_mode result = ''single'' \<and> ft_candidates result = [] \<and> user_selectable_document_count env u ids db = 1
     \<or> ft_mode result = ''exact'' \<and> ft_candidates result = [] \<and> (\<exists>o1. ft_target result = Some o1 \<and> query_names query o1)
     \<or> ft_mode result = ''relevant'' \<and> ft_target result = None
     \<or> ft_mode result = ''unresolved'' \<and> ft_target result = None \<and> ft_candidates result = [])"
proof -
  have "resolution_ok env u query ids selected db (resolve_full_document_target env u query ids selected db)"
    using resolve_selected resolve_unselected by (cases selected) simp_all
  then show ?thesis unfolding Let_def resolution_ok_def .
qed

end
