(* ===== verification/Document_Reading.thy ===== *)
theory Document_Reading
  imports Context_Retrieval Document_Resolution
begin

text \<open>
  Reading one document in full (\<open>RetrievalService.read_full_document_range\<close> of
  \<open>knowledge/retrieval.py\<close>): cursors, ranges, the provenance chunks of a range, and the reader that
  follows the cursors it is given. Text is read in code points, so a range ends where the code ends it.
\<close>

datatype read_error = ReadValueError string

section \<open>Cursors\<close>

definition parse_decimal :: "string \<Rightarrow> nat" where
  "parse_decimal s = foldl (\<lambda>n c. 10 * n + (byte c - 48)) 0 s"

text \<open>\<open>int\<close> raises a \<open>ValueError\<close> for more digits than \<open>sys.get_int_max_str_digits()\<close>.\<close>

definition INT_MAX_STR_DIGITS :: nat where
  "INT_MAX_STR_DIGITS = 4300"

definition full_document_cursor_offset :: "string option \<Rightarrow> read_error + nat" where
  "full_document_cursor_offset cursor =
     (case cursor of
        None \<Rightarrow> Inr 0
      | Some c \<Rightarrow>
          if c = '''' \<or> \<not> list_all (\<lambda>x. byte x < 128) c \<or> \<not> list_all ascii_digit c
          then Inl (ReadValueError ''full-document cursor must be a non-negative integer'')
          else if length c > INT_MAX_STR_DIGITS then Inl (ReadValueError ''int'')
          else
            let offset = parse_decimal c
            in if c \<noteq> show_nat offset
               then Inl (ReadValueError ''full-document cursor must use its canonical decimal form'')
               else Inr offset)"

section \<open>Provenance of a range\<close>

definition FULL_DOCUMENT_MAX_CITATION_CHUNKS :: nat where
  "FULL_DOCUMENT_MAX_CITATION_CHUNKS = 100"

definition FULL_DOCUMENT_MAX_PROVENANCE_SCAN_CHUNKS :: nat where
  "FULL_DOCUMENT_MAX_PROVENANCE_SCAN_CHUNKS = 2000"

definition distributed_chunk_sample :: "nat \<Rightarrow> 'c list \<Rightarrow> read_error + 'c list" where
  "distributed_chunk_sample limit chunks =
     (if limit < 1 then Inl (ReadValueError ''distributed chunk sample limit must be positive'')
      else if length chunks \<le> limit then Inr chunks
      else if limit = 1 then Inr [chunks ! 0]
      else
        let last_index = length chunks - 1
        in Inr (map (\<lambda>sample_index. chunks ! ((sample_index * last_index) div (limit - 1))) [0..<limit]))"

definition chunk_matches_document_content :: "DocumentChunkModel \<Rightarrow> string \<Rightarrow> bool" where
  "chunk_matches_document_content chunk document_content =
     (if ch_start_offset chunk < 0 \<or> ch_end_offset chunk < ch_start_offset chunk then False
      else if ch_end_offset chunk > int (py_len document_content) then False
      else
        let window_start = nat (max (ch_start_offset chunk - 512) 0);
            window_end = nat (min (ch_end_offset chunk + 512) (int (py_len document_content)));
            expected = normalize_chunk_content (py_slice window_start window_end document_content);
            actual = normalize_chunk_content (ch_content chunk)
        in actual \<noteq> '''' \<and> (actual = expected \<or> contains actual expected))"

definition range_chunks :: "DocumentModel \<Rightarrow> nat \<Rightarrow> nat \<Rightarrow> 'a retrieval_db_scheme \<Rightarrow> DocumentChunkModel list" where
  "range_chunks document start_offset end_offset db =
     take (FULL_DOCUMENT_MAX_PROVENANCE_SCAN_CHUNKS + 1)
       (sort_key ch_ordinal (scalars (\<lambda>c. ch_document_id c = d_id document \<and> ch_start_offset c < int end_offset
          \<and> ch_end_offset c > int start_offset) (document_chunks db)))"

definition cited_chunks :: "DocumentModel \<Rightarrow> DocumentChunkModel list \<Rightarrow> read_error + DocumentChunkModel list" where
  "cited_chunks document chunks =
     (if length chunks > FULL_DOCUMENT_MAX_PROVENANCE_SCAN_CHUNKS
         \<or> list_ex (\<lambda>c. \<not> chunk_matches_document_content c (d_content document)) chunks
      then Inr []
      else distributed_chunk_sample FULL_DOCUMENT_MAX_CITATION_CHUNKS chunks)"

section \<open>One read\<close>

record 's FullDocumentReadResult =
  fd_document :: DocumentModel
  fd_content :: string
  fd_retrieved_chunks :: "'s RetrievedChunk list"
  fd_start_offset :: nat
  fd_end_offset :: nat
  fd_total_chars :: nat
  fd_next_cursor :: "string option"
  fd_complete :: bool

definition read_document ::
  "('s, 'b) retrieval_env_scheme \<Rightarrow> nat \<Rightarrow> int \<Rightarrow> int \<Rightarrow> 'a retrieval_db_scheme \<Rightarrow> DocumentModel
    \<Rightarrow> read_error + 's FullDocumentReadResult" where
  "read_document env start_offset full_document_max_chars range_chars db document =
     (let total_chars = py_len (d_content document);
          end_offset = (if start_offset = 0 \<and> int total_chars \<le> full_document_max_chars then total_chars
                        else nat (min (int start_offset + range_chars) (int total_chars)))
      in if start_offset > total_chars \<or> (start_offset = total_chars \<and> total_chars > 0)
         then Inl (ReadValueError ''full-document cursor is outside the document'')
         else (case cited_chunks document (range_chunks document start_offset end_offset db) of
                 Inl e \<Rightarrow> Inl e
               | Inr chunks \<Rightarrow> Inr
                   \<lparr>fd_document = document, fd_content = py_slice start_offset end_offset (d_content document),
                    fd_retrieved_chunks = map (\<lambda>c. retrieved (c, document) (f_int env 1) ''full_document'') chunks,
                    fd_start_offset = start_offset, fd_end_offset = end_offset, fd_total_chars = total_chars,
                    fd_next_cursor = (if end_offset < total_chars then Some (show_nat end_offset) else None),
                    fd_complete = (start_offset = 0 \<and> end_offset = total_chars)\<rparr>))"

definition read_full_document_range ::
  "('s, 'b) retrieval_env_scheme \<Rightarrow> ident \<Rightarrow> ident \<Rightarrow> ident list option \<Rightarrow> int \<Rightarrow> int \<Rightarrow> 'a retrieval_db_scheme
    \<Rightarrow> string option \<Rightarrow> read_error + 's FullDocumentReadResult option" where
  "read_full_document_range env user_id document_id ids full_document_max_chars range_chars db cursor =
     (if full_document_max_chars \<le> 0 \<or> range_chars \<le> 0
      then Inl (ReadValueError ''full-document character limits must be positive'')
      else if range_chars > full_document_max_chars
      then Inl (ReadValueError ''full-document range cannot exceed the complete-read limit'')
      else (case full_document_cursor_offset cursor of
              Inl e \<Rightarrow> Inl e
            | Inr start_offset \<Rightarrow>
                (case scalar (\<lambda>d. d_id d = document_id \<and> user_selectable_document_filter user_id ids (re_has_purpose env) db d)
                        (documents db) of
                   None \<Rightarrow> Inr None
                 | Some document \<Rightarrow>
                     map_sum id Some (read_document env start_offset full_document_max_chars range_chars db document))))"

text \<open>
  A reader that asks for the next range as long as it is handed a cursor: the contents it collects,
  \<open>None\<close> when a read is refused or the fuel runs out.
\<close>

fun read_all :: "nat \<Rightarrow> (string option \<Rightarrow> read_error + 's FullDocumentReadResult option) \<Rightarrow> string option \<Rightarrow> string list option" where
  "read_all 0 read cursor = None"
| "read_all (Suc fuel) read cursor =
     (case read cursor of
        Inr (Some r) \<Rightarrow>
          (case fd_next_cursor r of
             None \<Rightarrow> Some [fd_content r]
           | Some c \<Rightarrow> map_option (Cons (fd_content r)) (read_all fuel read (Some c)))
      | _ \<Rightarrow> None)"

section \<open>Cursors are canonical decimals\<close>

lemma show_nat_ascii: "list_all ascii_digit (show_nat n) \<and> list_all (\<lambda>x. byte x < 128) (show_nat n) \<and> show_nat n \<noteq> ''''"
proof (induction n rule: show_nat.induct)
  case (1 n)
  have digit: "ascii_digit (char_of (48 + m)) \<and> byte (char_of (48 + m)) < 128" if "m < 10" for m :: nat
    using that by (simp add: ascii_digit_def)
  show ?case using 1 digit [of n] digit [of "n mod 10"] by (subst (1 2 3) show_nat.simps) auto
qed

lemma parse_show_nat [simp]: "parse_decimal (show_nat n) = n"
proof (induction n rule: show_nat.induct)
  case (1 n)
  have digit: "byte (char_of (48 + m)) - 48 = m" if "m < 10" for m :: nat
    using that by simp
  show ?case using 1 digit [of n] digit [of "n mod 10"] by (subst show_nat.simps) (auto simp: parse_decimal_def)
qed

lemma length_show_nat: "n < 10 ^ Suc k \<Longrightarrow> length (show_nat n) \<le> Suc k"
proof (induction k arbitrary: n)
  case 0
  then show ?case by (subst show_nat.simps) simp
next
  case (Suc k)
  then have "n div 10 < 10 ^ Suc k" by (simp add: less_mult_imp_div_less mult.commute)
  then show ?case using Suc.IH [of "n div 10"] by (subst show_nat.simps) auto
qed

lemma cursor_accepted: "n < 10 ^ INT_MAX_STR_DIGITS \<Longrightarrow> full_document_cursor_offset (Some (show_nat n)) = Inr n"
proof -
  assume n: "n < 10 ^ INT_MAX_STR_DIGITS"
  obtain k where "INT_MAX_STR_DIGITS = Suc k" by (cases INT_MAX_STR_DIGITS) (auto simp: INT_MAX_STR_DIGITS_def)
  then have "length (show_nat n) \<le> INT_MAX_STR_DIGITS" using n length_show_nat [of n k] by simp
  then show ?thesis using show_nat_ascii [of n] by (simp add: full_document_cursor_offset_def)
qed

section \<open>Provenance\<close>

lemma distributed_chunk_sample_ok:
  assumes "0 < limit"
  obtains cs where "distributed_chunk_sample limit chunks = Inr cs" and "set cs \<subseteq> set chunks" and "length cs \<le> limit"
proof (cases "length chunks \<le> limit \<or> limit = 1")
  case True
  then show ?thesis using that assms by (cases chunks) (auto simp: distributed_chunk_sample_def split: if_splits)
next
  case False
  let ?last = "length chunks - 1"
  have "(k * ?last) div (limit - 1) < length chunks" if "k < limit" for k
  proof -
    have "k * ?last \<le> (limit - 1) * ?last" using that by (intro mult_le_mono1) simp
    then have "(k * ?last) div (limit - 1) \<le> ((limit - 1) * ?last) div (limit - 1)" by (rule div_le_mono)
    also have "\<dots> = ?last" using False assms by simp
    finally show ?thesis using False by linarith
  qed
  then have "set (map (\<lambda>k. chunks ! ((k * ?last) div (limit - 1))) [0..<limit]) \<subseteq> set chunks" by auto
  moreover have "distributed_chunk_sample limit chunks = Inr (map (\<lambda>k. chunks ! ((k * ?last) div (limit - 1))) [0..<limit])"
    using False assms by (simp add: distributed_chunk_sample_def Let_def)
  ultimately show ?thesis using that by simp
qed

lemma cited_chunks_ok:
  obtains cs where "cited_chunks d chunks = Inr cs" and "set cs \<subseteq> set chunks" and "length cs \<le> FULL_DOCUMENT_MAX_CITATION_CHUNKS"
proof -
  have "0 < FULL_DOCUMENT_MAX_CITATION_CHUNKS" by (simp add: FULL_DOCUMENT_MAX_CITATION_CHUNKS_def)
  then obtain cs where "distributed_chunk_sample FULL_DOCUMENT_MAX_CITATION_CHUNKS chunks = Inr cs" "set cs \<subseteq> set chunks"
    "length cs \<le> FULL_DOCUMENT_MAX_CITATION_CHUNKS" by (rule distributed_chunk_sample_ok)
  moreover have "cited_chunks d chunks = Inr [] \<or> cited_chunks d chunks = distributed_chunk_sample FULL_DOCUMENT_MAX_CITATION_CHUNKS chunks"
    by (simp add: cited_chunks_def)
  ultimately show ?thesis using that [of "[]"] that [of cs] by auto
qed

lemma set_range_chunks:
  "c \<in> set (range_chunks d start stop db) \<Longrightarrow> c \<in> set (document_chunks db) \<and> ch_document_id c = d_id d
    \<and> ch_start_offset c < int stop \<and> int start < ch_end_offset c"
  by (auto simp: range_chunks_def scalars_def dest!: in_set_takeD)

section \<open>One read\<close>

definition outside :: "nat \<Rightarrow> DocumentModel \<Rightarrow> bool" where
  "outside start d \<longleftrightarrow> start > py_len (d_content d) \<or> (start = py_len (d_content d) \<and> start > 0)"

definition range_end :: "int \<Rightarrow> int \<Rightarrow> nat \<Rightarrow> DocumentModel \<Rightarrow> nat" where
  "range_end full_max step_chars start d =
     (if start = 0 \<and> int (py_len (d_content d)) \<le> full_max then py_len (d_content d)
      else min (start + nat step_chars) (py_len (d_content d)))"

definition range_read :: "'a retrieval_db_scheme \<Rightarrow> nat \<Rightarrow> nat \<Rightarrow> DocumentModel \<Rightarrow> 's FullDocumentReadResult \<Rightarrow> bool" where
  "range_read db start stop d r \<longleftrightarrow>
     fd_document r = d \<and> fd_start_offset r = start \<and> fd_end_offset r = stop \<and> fd_total_chars r = py_len (d_content d)
     \<and> fd_content r = py_slice start stop (d_content d)
     \<and> fd_next_cursor r = (if stop < py_len (d_content d) then Some (show_nat stop) else None)
     \<and> fd_complete r = (start = 0 \<and> stop = py_len (d_content d))
     \<and> length (fd_retrieved_chunks r) \<le> 100
     \<and> (\<forall>c \<in> set (fd_retrieved_chunks r). rc_document c = d \<and> rc_chunk c \<in> set (document_chunks db)
          \<and> ch_document_id (rc_chunk c) = d_id d
          \<and> ch_start_offset (rc_chunk c) < int stop \<and> int start < ch_end_offset (rc_chunk c))"

lemma read_document_cases:
  assumes "0 < step_chars"
  shows "if outside start d then \<exists>e. read_document env start full_max step_chars db d = Inl e
    else \<exists>r. read_document env start full_max step_chars db d = Inr r \<and> range_read db start (range_end full_max step_chars start d) d r"
proof (cases "outside start d")
  case True
  then show ?thesis by (auto simp: read_document_def outside_def Let_def)
next
  case False
  let ?total = "py_len (d_content d)"
  let ?stop = "if start = 0 \<and> int ?total \<le> full_max then ?total else nat (min (int start + step_chars) (int ?total))"
  have stop: "?stop = range_end full_max step_chars start d" using assms by (auto simp: range_end_def min_def nat_add_distrib)
  obtain cs where cs: "cited_chunks d (range_chunks d start ?stop db) = Inr cs"
    "set cs \<subseteq> set (range_chunks d start ?stop db)" "length cs \<le> FULL_DOCUMENT_MAX_CITATION_CHUNKS"
    by (rule cited_chunks_ok)
  have "\<forall>c \<in> set cs. c \<in> set (document_chunks db) \<and> ch_document_id c = d_id d
      \<and> ch_start_offset c < int ?stop \<and> int start < ch_end_offset c"
    using cs(2) set_range_chunks by blast
  then show ?thesis using False cs(1,3)
    by (auto simp: read_document_def Let_def outside_def stop range_read_def retrieved_def FULL_DOCUMENT_MAX_CITATION_CHUNKS_def)
qed

section \<open>Every outcome of a read\<close>

lemma selectable_scalar:
  "document_is_user_selectable env u i ids db \<longleftrightarrow>
     scalar (\<lambda>d. d_id d = i \<and> user_selectable_document_filter u ids (re_has_purpose env) db d) (documents db) \<noteq> None"
  by (auto simp: document_is_user_selectable_def scalar_None_iff list_ex_iff simp del: not_None_eq)

text \<open>
  C12. Every outcome of a read is accounted for. It is refused for impossible limits, a malformed cursor or,
  for a document the user may select only, a cursor past its end. It is empty exactly because the user may
  not select such a document, whatever that document holds. Otherwise it is the stretch from the cursor to
  the end of the range, with at most 100 provenance chunks, all stored chunks of this document that overlap
  the stretch.
\<close>

theorem read_outcomes:
  "case read_full_document_range env u i ids full_max step_chars db cursor of
     Inl _ \<Rightarrow> full_max \<le> 0 \<or> step_chars \<le> 0 \<or> step_chars > full_max
       \<or> (case full_document_cursor_offset cursor of Inl _ \<Rightarrow> True
           | Inr start \<Rightarrow> \<exists>d \<in> set (documents db). d_id d = i
               \<and> user_selectable_document_filter u ids (re_has_purpose env) db d \<and> outside start d)
   | Inr None \<Rightarrow> \<not> document_is_user_selectable env u i ids db
   | Inr (Some r) \<Rightarrow> \<exists>start. full_document_cursor_offset cursor = Inr start \<and> \<not> outside start (fd_document r)
       \<and> fd_document r \<in> set (documents db) \<and> d_id (fd_document r) = i
       \<and> user_selectable_document_filter u ids (re_has_purpose env) db (fd_document r)
       \<and> range_read db start (range_end full_max step_chars start (fd_document r)) (fd_document r) r"
proof (cases "full_max \<le> 0 \<or> step_chars \<le> 0 \<or> step_chars > full_max")
  case False
  then have pos: "0 < step_chars" by simp
  let ?p = "\<lambda>d. d_id d = i \<and> user_selectable_document_filter u ids (re_has_purpose env) db d"
  show ?thesis
  proof (cases "full_document_cursor_offset cursor")
    case (Inr start)
    show ?thesis
    proof (cases "scalar ?p (documents db)")
      case None
      then show ?thesis using False Inr by (simp add: read_full_document_range_def selectable_scalar)
    next
      case (Some d)
      have "d \<in> set (documents db) \<and> ?p d" using scalar_SomeD [OF Some] .
      then show ?thesis using read_document_cases [OF pos, of start d env full_max db] False Inr Some
        by (cases "outside start d") (auto simp: read_full_document_range_def range_read_def)
    qed
  qed (use False in \<open>simp add: read_full_document_range_def\<close>)
qed (auto simp: read_full_document_range_def)

section \<open>Following the cursors\<close>

lemma selected_document:
  assumes "distinct (map d_id (documents db))" and "d \<in> set (documents db)"
    and "user_selectable_document_filter u ids req db d"
  shows "scalar (\<lambda>d'. d_id d' = d_id d \<and> user_selectable_document_filter u ids req db d') (documents db) = Some d"
proof -
  let ?p = "\<lambda>d'. d_id d' = d_id d \<and> user_selectable_document_filter u ids req db d'"
  have "scalar ?p (documents db) \<noteq> None" using assms(2,3) by (auto simp: scalar_None_iff simp del: not_None_eq)
  then obtain d' where d': "scalar ?p (documents db) = Some d'" by blast
  then have "d' \<in> set (documents db)" "d_id d' = d_id d" using scalar_SomeD by fastforce+
  then have "d' = d" using assms(1,2) by (meson distinct_map inj_onD)
  then show ?thesis using d' by simp
qed

lemma read_from_cursor:
  assumes "scalar (\<lambda>d'. d_id d' = i \<and> user_selectable_document_filter u ids (re_has_purpose env) db d') (documents db) = Some d"
    and "0 < step_chars" and "step_chars \<le> full_max" and "full_document_cursor_offset cursor = Inr start" and "\<not> outside start d"
  obtains r where "read_full_document_range env u i ids full_max step_chars db cursor = Inr (Some r)"
    and "range_read db start (range_end full_max step_chars start d) d r"
  using read_document_cases [OF assms(2), of start d env full_max db] assms that
  by (auto simp: read_full_document_range_def)

lemma read_all_from:
  assumes selected: "scalar (\<lambda>d'. d_id d' = i \<and> user_selectable_document_filter u ids (re_has_purpose env) db d') (documents db) = Some d"
    and limits: "0 < step_chars" "step_chars \<le> full_max" and size: "py_len (d_content d) < 10 ^ INT_MAX_STR_DIGITS"
  shows "\<lbrakk>\<not> outside start d; full_document_cursor_offset cursor = Inr start;
      (py_len (d_content d) - start) div nat step_chars < fuel\<rbrakk>
    \<Longrightarrow> \<exists>pieces. read_all fuel (read_full_document_range env u i ids full_max step_chars db) cursor = Some pieces
      \<and> concat pieces = py_slice start (py_len (d_content d)) (d_content d)
      \<and> length pieces \<le> fuel \<and> (\<forall>p \<in> set pieces. py_len p \<le> nat full_max)"
proof (induction fuel arbitrary: start cursor)
  case (Suc fuel)
  let ?total = "py_len (d_content d)" and ?stop = "range_end full_max step_chars start d"
  let ?read = "read_full_document_range env u i ids full_max step_chars db"
  obtain r where r: "?read cursor = Inr (Some r)" and range: "range_read db start ?stop d r"
    by (rule read_from_cursor [OF selected limits Suc.prems(2,1)])
  have content: "fd_content r = py_slice start ?stop (d_content d)" using range by (simp add: range_read_def)
  have stop: "start \<le> ?stop" "?stop \<le> ?total" using Suc.prems(1) by (auto simp: range_end_def outside_def)
  have width: "?stop - start \<le> nat full_max" using limits by (auto simp: range_end_def nat_le_eq_zle)
  have piece: "py_len (fd_content r) \<le> nat full_max"
    using stop width by (simp add: content py_len_slice min_def split: if_splits)
  show ?case
  proof (cases "?stop < ?total")
    case False
    then have "?stop = ?total" using stop by simp
    then show ?thesis using r range piece content by (simp add: range_read_def)
  next
    case True
    then have "?stop = start + nat step_chars" by (auto simp: range_end_def split: if_splits)
    moreover have "\<not> outside ?stop d" using True by (simp add: outside_def)
    moreover have next_cursor: "full_document_cursor_offset (Some (show_nat ?stop)) = Inr ?stop"
      using size True by (intro cursor_accepted) simp
    moreover have "(?total - (start + nat step_chars)) div nat step_chars < fuel"
    proof -
      define rest where "rest = ?total - (start + nat step_chars)"
      have "?total - start = rest + nat step_chars" using True calculation(1) unfolding rest_def by linarith
      moreover have "(rest + nat step_chars) div nat step_chars = Suc (rest div nat step_chars)"
        using limits by (simp add: div_add_self2)
      ultimately have "Suc (rest div nat step_chars) < Suc fuel" using Suc.prems(3) by simp
      then show ?thesis by (simp add: rest_def)
    qed
    ultimately obtain pieces where pieces: "read_all fuel ?read (Some (show_nat ?stop)) = Some pieces"
      "concat pieces = py_slice ?stop ?total (d_content d)" "length pieces \<le> fuel" "\<forall>p \<in> set pieces. py_len p \<le> nat full_max"
      using Suc.IH [of ?stop "Some (show_nat ?stop)"] by auto
    have "concat (fd_content r # pieces) = py_slice start ?total (d_content d)"
      using stop by (simp add: content pieces(2) py_slice_append)
    moreover have "fd_next_cursor r = Some (show_nat ?stop)" using range True by (simp add: range_read_def)
    ultimately show ?thesis using r pieces piece by auto
  qed
qed simp

text \<open>
  C11. Reading a document the user may select from its start and following every cursor ends, after at most
  one read more than the document has full ranges; no read is refused, no piece exceeds the complete-read
  limit, and the pieces in order are the document's text.
\<close>

theorem following_cursors_reads_everything:
  assumes "distinct (map d_id (documents db))" and "d \<in> set (documents db)"
    and "user_selectable_document_filter u ids (re_has_purpose env) db d"
    and "0 < step_chars" and "step_chars \<le> full_max" and "py_len (d_content d) < 10 ^ INT_MAX_STR_DIGITS"
  shows "\<exists>pieces. read_all (Suc (py_len (d_content d) div nat step_chars))
        (read_full_document_range env u (d_id d) ids full_max step_chars db) None = Some pieces
      \<and> concat pieces = d_content d \<and> length pieces \<le> Suc (py_len (d_content d) div nat step_chars)
      \<and> (\<forall>p \<in> set pieces. py_len p \<le> nat full_max)"
  using read_all_from [OF selected_document [OF assms(1-3)] assms(4-6), of 0 None]
  by (simp add: outside_def full_document_cursor_offset_def del: read_all.simps)

definition sample_contract :: DocumentModel where
  "sample_contract = sample_stored_document\<lparr>d_content := ''notice period''\<rparr>"

definition sample_reading_store :: retrieval_db where
  "sample_reading_store = sample_store\<lparr>documents := [sample_contract]\<rparr>"

theorem following_cursors_reads_everything_witness:
  "\<exists>pieces. read_all 3 (read_full_document_range sample_env ''u1'' ''d1'' None 6 5 sample_reading_store) None = Some pieces
     \<and> concat pieces = ''notice period''"
proof -
  have doc: "d_id sample_contract = ''d1''" "d_content sample_contract = ''notice period''" "py_len ''notice period'' = 13"
    by code_simp+
  obtain n where n: "INT_MAX_STR_DIGITS = Suc (Suc n)"
    by (metis INT_MAX_STR_DIGITS_def numeral_eq_Suc pred_numeral_simps(2))
  have "(1::nat) \<le> 10 ^ n" by simp
  then have "(100::nat) \<le> 10 ^ INT_MAX_STR_DIGITS" unfolding n power_Suc by linarith
  then have small: "py_len (d_content sample_contract) < 10 ^ INT_MAX_STR_DIGITS" unfolding doc by linarith
  have selectable: "user_selectable_document_filter ''u1'' None (re_has_purpose sample_env) sample_reading_store sample_contract"
    by code_simp
  have fuel: "Suc (py_len (d_content sample_contract) div nat 5) = 3" unfolding doc by simp
  have "sample_contract \<in> set (documents sample_reading_store)" "distinct (map d_id (documents sample_reading_store))"
    by (simp_all add: sample_reading_store_def)
  from following_cursors_reads_everything [OF this(2,1) selectable _ _ small, of 5 6, unfolded fuel doc]
  show ?thesis by auto
qed

section \<open>A shortlist that hides an ambiguity\<close>

text \<open>
  The target is looked for among the five best options only. Four documents titled like the query and two
  files named like it are six equally strong matches; the shortlist keeps one of the two files, which is
  then the only exact filename match left and is read without asking.
\<close>

definition sample_option :: "ident \<Rightarrow> string \<Rightarrow> string option \<Rightarrow> AuthorizedDocumentOption" where
  "sample_option i title filename = \<lparr>op_document_id = i, op_title = title, op_source_filename = filename,
     op_knowledge_base_id = Some ''k2'', op_knowledge_base_name = Some ''Mine''\<rparr>"

definition sample_rank :: "AuthorizedDocumentOption \<Rightarrow> int \<Rightarrow> string \<Rightarrow> string \<Rightarrow> bool \<Rightarrow> int RankedAuthorizedDocumentOption" where
  "sample_rank option score confidence reason exact = AuthorizedDocumentOption.extend option
     \<lparr>op_score = score, op_matched_tokens = 1, op_match_confidence = confidence, op_match_reason_code = reason, op_exact = exact\<rparr>"

lemma sample_title_match: "rank_reference sample_env option [''tax''] ''tax'' False (''Tax'', ''exact_title'', False)
   = Some (sample_rank option 920 ''high'' ''exact_title'' True)" by code_simp

lemma sample_stem_match: "rank_reference sample_env option [''tax''] ''tax'' False (''tax'', ''exact_filename'', False)
   = Some (sample_rank option 920 ''high'' ''exact_filename'' True)" by code_simp

lemma sample_filename_match: "rank_reference sample_env option [''tax''] ''tax'' False (''tax.md'', ''exact_filename'', True)
   = Some (sample_rank option 890 ''medium'' ''metadata_overlap'' False)" by code_simp

lemma sample_no_match: "rank_reference sample_env option [''tax''] ''tax'' False (''Y'', ''exact_title'', False) = None" by code_simp

definition sample_option_list :: "AuthorizedDocumentOption list" where
  "sample_option_list = map (\<lambda>i. sample_option i ''Tax'' None) [''a'', ''b'', ''c'', ''d'']
     @ [sample_option ''e'' ''Y'' (Some ''tax.md''), sample_option ''f'' ''Z'' (Some ''tax.md'')]"

abbreviation sample_exact :: "string \<Rightarrow> AuthorizedDocumentOption \<Rightarrow> int RankedAuthorizedDocumentOption" where
  "sample_exact reason option \<equiv> sample_rank option 920 ''high'' reason True"

definition sample_ranked :: "int RankedAuthorizedDocumentOption list" where
  "sample_ranked = map (sample_exact ''exact_title'') (take 4 sample_option_list) @ map (sample_exact ''exact_filename'') (drop 4 sample_option_list)"

lemma sample_query: "document_query_tokens ''tax'' = [''tax'']" "normalize_document_text ''tax'' = ''tax''"
   "query_has_filename_reference ''tax'' = False" "file_stem ''tax.md'' = ''tax''"
   "map normalize_document_reference [''Tax'', ''Y'', ''Z''] = [''tax'', ''y'', ''z'']" by code_simp+

lemma sample_title_option: "rank_document_option sample_env [''tax''] ''tax'' False (sample_option i ''Tax'' None)
   = Some (sample_exact ''exact_title'' (sample_option i ''Tax'' None))"
  by (simp add: rank_document_option_def references_of_def sample_option_def sample_title_match)

lemma sample_strength: "rank_strength (sample_rank option s c r e) = (e, 1, s)"
  by (simp add: rank_strength_def sample_rank_def AuthorizedDocumentOption.defs)

lemma sample_no_match_z: "rank_reference sample_env option [''tax''] ''tax'' False (''Z'', ''exact_title'', False) = None" by code_simp

lemma sample_file_option: "t = ''Y'' \<or> t = ''Z'' \<Longrightarrow> rank_document_option sample_env [''tax''] ''tax'' False (sample_option i t (Some ''tax.md''))
   = Some (sample_exact ''exact_filename'' (sample_option i t (Some ''tax.md'')))"
  by (auto simp: rank_document_option_def references_of_def sample_option_def sample_query(4) sample_stem_match sample_filename_match sample_no_match sample_no_match_z sample_strength)

lemma sample_options_ranked: "List.map_filter (rank_document_option sample_env [''tax''] ''tax'' False) sample_option_list = sample_ranked"
  by (simp add: List.map_filter_def sample_option_list_def sample_ranked_def sample_title_option sample_file_option)

lemma sample_sort_key: "document_candidate_sort_key (sample_rank (sample_option i t f) s c r e) = (Desc 1, \<not> e, Desc s, normalize_document_reference t, i)"
  by (simp add: document_candidate_sort_key_def sample_rank_def AuthorizedDocumentOption.defs sample_option_def)

lemma sample_ranked_sorted: "sort_key document_candidate_sort_key sample_ranked = sample_ranked"
proof (rule sort_key_id_if_sorted)
  have "sorted [(Desc (1::nat), False, Desc (920::int), ''tax'', ''a''), (Desc 1, False, Desc 920, ''tax'', ''b''), (Desc 1, False, Desc 920, ''tax'', ''c''), (Desc 1, False, Desc 920, ''tax'', ''d''),
     (Desc 1, False, Desc 920, ''y'', ''e''), (Desc 1, False, Desc 920, ''z'', ''f'')]" by code_simp
  then show "sorted (map document_candidate_sort_key sample_ranked)"
    using sample_query(5) by (simp add: sample_ranked_def sample_option_list_def sample_sort_key)
qed

lemma sample_ranking: "rank_document_options sample_env ''tax'' None sample_option_list = sample_ranked"
   by (simp add: rank_document_options_def Let_def sample_query sample_options_ranked sample_ranked_sorted)

lemma sample_shortlist: "rank_document_options sample_env ''tax'' (Some DOCUMENT_SELECTION_SHORTLIST_LIMIT) sample_option_list = take 5 sample_ranked"
   by (simp add: rank_document_options_def Let_def sample_query sample_options_ranked sample_ranked_sorted DOCUMENT_SELECTION_SHORTLIST_LIMIT_def)

lemma sample_shortlist_target: "ft_target (resolve_shortlist sample_env 6 (take 5 sample_ranked)) = Some (sample_option ''e'' ''Y'' (Some ''tax.md''))"
  by (simp add: resolve_shortlist_def Let_def sample_ranked_def sample_option_list_def sample_rank_def sample_option_def AuthorizedDocumentOption.defs)

theorem shortlist_hides_ambiguity:
  "rank_document_options sample_env ''tax'' None sample_option_list = sample_ranked
    \<and> (\<forall>c \<in> set sample_ranked. op_exact c \<and> op_matched_tokens c = 1 \<and> op_score c = 920)
    \<and> length (filter (\<lambda>c. op_match_reason_code c = ''exact_filename'') sample_ranked) = 2
    \<and> map_option op_document_id (ft_target (resolve_shortlist sample_env 6
         (rank_document_options sample_env ''tax'' (Some DOCUMENT_SELECTION_SHORTLIST_LIMIT) sample_option_list))) = Some ''e''"
  unfolding sample_shortlist sample_ranking sample_shortlist_target
  by (simp add: sample_ranked_def sample_option_list_def sample_rank_def sample_option_def AuthorizedDocumentOption.defs)

end
