(* ===== verification/Query_Planning.thy ===== *)
theory Query_Planning
  imports Context_Retrieval
begin

text \<open>
  Which requests search documents (\<open>knowledge/routing.py\<close>) and what they look for
  (\<open>QueryCartographer\<close> of \<open>agents/context_forge/planner.py\<close>): the routing policy with its hint
  lists in both languages, the intent, the structured entity types, and the plan the retrieval pipeline
  runs on. The model that may classify the intent is a parameter; only the choices the code accepts from
  it matter.
\<close>

datatype base_message = HumanMessage string | OtherMessage

text \<open>A message holds the text of its content, \<open>str(content)\<close> where the content is not a string.\<close>

section \<open>Hints\<close>

definition required_document_hints :: "string list" where
  "required_document_hints =
    [''uploaded document'', ''uploaded file'', ''my document'', ''my documents'', ''my resume'', ''my cv'',
     ''about me'', ''resume'', ''cv'', ''contract'', ''agreement'', ''clause'', ''based on the document'',
     ''from the document'', ''in the document'', ''according to the document'',
     [CHR 0xEB, CHR 0xAC, CHR 0xB8, CHR 0xEC, CHR 0x84, CHR 0x9C],
     [CHR 0xEC, CHR 0x9E, CHR 0x90, CHR 0xEB, CHR 0xA3, CHR 0x8C],
     [CHR 0xED, CHR 0x8C, CHR 0x8C, CHR 0xEC, CHR 0x9D, CHR 0xBC],
     [CHR 0xEC, CHR 0x97, CHR 0x85, CHR 0xEB, CHR 0xA1, CHR 0x9C, CHR 0xEB, CHR 0x93, CHR 0x9C],
     [CHR 0xEC, CHR 0x9D, CHR 0xB4, CHR 0xEB, CHR 0xA0, CHR 0xA5, CHR 0xEC, CHR 0x84, CHR 0x9C],
     [CHR 0xEA, CHR 0xB3, CHR 0x84, CHR 0xEC, CHR 0x95, CHR 0xBD, CHR 0xEC, CHR 0x84, CHR 0x9C],
     [CHR 0xEC, CHR 0xA1, CHR 0xB0, CHR 0xED, CHR 0x95, CHR 0xAD],
     [CHR 0xEA, CHR 0xB8, CHR 0xB0, CHR 0xEC, CHR 0xA4, CHR 0x80, CHR 0xEC, CHR 0x9C, CHR 0xBC, CHR 0xEB, CHR 0xA1, CHR 0x9C],
     [CHR 0xEA, CHR 0xB7, CHR 0xBC, CHR 0xEA, CHR 0xB1, CHR 0xB0, CHR 0xEB, CHR 0xA1, CHR 0x9C],
     [CHR 0xEC, CHR 0x9A, CHR 0x94, CHR 0xEC, CHR 0x95, CHR 0xBD]]"

definition ambiguous_document_references :: "string list" where
  "ambiguous_document_references =
    [''this document'', ''that document'', ''the document'', ''this file'', ''that file'', ''the file'',
     [CHR 0xEC, CHR 0x9D, CHR 0xB4, CHR 0x20, CHR 0xEB, CHR 0xAC, CHR 0xB8, CHR 0xEC, CHR 0x84, CHR 0x9C],
     [CHR 0xEA, CHR 0xB7, CHR 0xB8, CHR 0x20, CHR 0xEB, CHR 0xAC, CHR 0xB8, CHR 0xEC, CHR 0x84, CHR 0x9C],
     [CHR 0xED, CHR 0x95, CHR 0xB4, CHR 0xEB, CHR 0x8B, CHR 0xB9, CHR 0x20, CHR 0xEB, CHR 0xAC, CHR 0xB8, CHR 0xEC, CHR 0x84, CHR 0x9C],
     [CHR 0xEC, CHR 0x9D, CHR 0xB4, CHR 0x20, CHR 0xEC, CHR 0x9E, CHR 0x90, CHR 0xEB, CHR 0xA3, CHR 0x8C],
     [CHR 0xEA, CHR 0xB7, CHR 0xB8, CHR 0x20, CHR 0xEC, CHR 0x9E, CHR 0x90, CHR 0xEB, CHR 0xA3, CHR 0x8C],
     [CHR 0xED, CHR 0x95, CHR 0xB4, CHR 0xEB, CHR 0x8B, CHR 0xB9, CHR 0x20, CHR 0xEC, CHR 0x9E, CHR 0x90, CHR 0xEB, CHR 0xA3, CHR 0x8C]]"

definition optional_retrieval_hints :: "string list" where
  "optional_retrieval_hints =
    [''our service'', ''our app'', ''our backend'', ''our api'', ''auth logic'', ''authentication logic'',
     ''system design'', ''architecture'', ''implementation'', ''codebase'', ''project'',
     [CHR 0xEC, CHR 0x84, CHR 0x9C, CHR 0xEB, CHR 0xB9, CHR 0x84, CHR 0xEC, CHR 0x8A, CHR 0xA4],
     [CHR 0xEC, CHR 0x9D, CHR 0xB8, CHR 0xEC, CHR 0xA6, CHR 0x9D, CHR 0x20, CHR 0xEB, CHR 0xA1, CHR 0x9C, CHR 0xEC, CHR 0xA7, CHR 0x81],
     [CHR 0xEB, CHR 0xB0, CHR 0xB1, CHR 0xEC, CHR 0x97, CHR 0x94, CHR 0xEB, CHR 0x93, CHR 0x9C],
     [CHR 0xEC, CHR 0x95, CHR 0x84, CHR 0xED, CHR 0x82, CHR 0xA4, CHR 0xED, CHR 0x85, CHR 0x8D, CHR 0xEC, CHR 0xB2, CHR 0x98],
     [CHR 0xEA, CHR 0xB5, CHR 0xAC, CHR 0xED, CHR 0x98, CHR 0x84],
     [CHR 0xED, CHR 0x94, CHR 0x84, CHR 0xEB, CHR 0xA1, CHR 0x9C, CHR 0xEC, CHR 0xA0, CHR 0x9D, CHR 0xED, CHR 0x8A, CHR 0xB8]]"

definition general_knowledge_hints :: "string list" where
  "general_knowledge_hints =
    [''what is rag'', ''what is r.a.g'', ''explain rag'',
     [CHR 0x72, CHR 0x61, CHR 0x67, CHR 0xEA, CHR 0xB0, CHR 0x80, CHR 0x20, CHR 0xEB, CHR 0xAD, CHR 0x90, CHR 0xEC, CHR 0x95, CHR 0xBC],
     [CHR 0x72, CHR 0x61, CHR 0x67, CHR 0xEB, CHR 0x9E, CHR 0x80],
     [CHR 0x72, CHR 0x61, CHR 0x67, CHR 0x20, CHR 0xEB, CHR 0xAD, CHR 0x90, CHR 0xEC, CHR 0x95, CHR 0xBC],
     [CHR 0xEA, CHR 0xB0, CHR 0x9C, CHR 0xEB, CHR 0x85, CHR 0x90],
     [CHR 0xEC, CHR 0xA0, CHR 0x95, CHR 0xEC, CHR 0x9D, CHR 0x98]]"

definition group_scope_hints :: "string list" where
  "group_scope_hints =
    [''group'', ''team'', ''shared'',
     [CHR 0xEC, CHR 0x9A, CHR 0xB0, CHR 0xEB, CHR 0xA6, CHR 0xAC, CHR 0x20, CHR 0xED, CHR 0x8C, CHR 0x80],
     [CHR 0xEA, CHR 0xB7, CHR 0xB8, CHR 0xEB, CHR 0xA3, CHR 0xB9],
     [CHR 0xEA, CHR 0xB3, CHR 0xB5, CHR 0xEC, CHR 0x9C, CHR 0xA0]]"

definition current_scope_hints :: "string list" where
  "current_scope_hints =
    [''current conversation'', ''this chat'',
     [CHR 0xEC, CHR 0x9D, CHR 0xB4, CHR 0x20, CHR 0xEB, CHR 0x8C, CHR 0x80, CHR 0xED, CHR 0x99, CHR 0x94],
     [CHR 0xED, CHR 0x98, CHR 0x84, CHR 0xEC, CHR 0x9E, CHR 0xAC, CHR 0x20, CHR 0xEB, CHR 0x8C, CHR 0x80, CHR 0xED, CHR 0x99, CHR 0x94]]"

definition user_scope_hints :: "string list" where
  "user_scope_hints =
    [''my '', [CHR 0xEB, CHR 0x82, CHR 0xB4, CHR 0x20], [CHR 0xEC, CHR 0xA0, CHR 0x9C, CHR 0xEA, CHR 0xB0, CHR 0x80, CHR 0x20], [CHR 0xEB, CHR 0x82, CHR 0x98, CHR 0xEC, CHR 0x9D, CHR 0x98], [CHR 0xEB, CHR 0x82, CHR 0xB4, CHR 0xEA, CHR 0xB0, CHR 0x80]]"

definition comprehensive_document_hints :: "string list" where
  "comprehensive_document_hints =
    [''entire document'', ''whole document'', ''complete document'', ''full document'', ''entire file'',
     ''whole file'', ''complete file'', ''every section in the document'', ''all sections in the document'',
     ''all requirements in the document'', ''from beginning to end of the document'', ''across all sections'',
     ''cross-section consistency'', ''throughout the document'',
     [CHR 0xEB, CHR 0xAC, CHR 0xB8, CHR 0xEC, CHR 0x84, CHR 0x9C, CHR 0x20, CHR 0xEC, CHR 0xA0, CHR 0x84, CHR 0xEC, CHR 0xB2, CHR 0xB4],
     [CHR 0xEC, CHR 0xA0, CHR 0x84, CHR 0xEC, CHR 0xB2, CHR 0xB4, CHR 0x20, CHR 0xEB, CHR 0xAC, CHR 0xB8, CHR 0xEC, CHR 0x84, CHR 0x9C],
     [CHR 0xED, CHR 0x8C, CHR 0x8C, CHR 0xEC, CHR 0x9D, CHR 0xBC, CHR 0x20, CHR 0xEC, CHR 0xA0, CHR 0x84, CHR 0xEC, CHR 0xB2, CHR 0xB4],
     [CHR 0xEC, CHR 0xA0, CHR 0x84, CHR 0xEC, CHR 0xB2, CHR 0xB4, CHR 0x20, CHR 0xED, CHR 0x8C, CHR 0x8C, CHR 0xEC, CHR 0x9D, CHR 0xBC],
     [CHR 0xEB, CHR 0xAC, CHR 0xB8, CHR 0xEC, CHR 0x84, CHR 0x9C, CHR 0xEC, CHR 0x9D, CHR 0x98, CHR 0x20, CHR 0xEB, CHR 0xAA, CHR 0xA8, CHR 0xEB, CHR 0x93, CHR 0xA0, CHR 0x20, CHR 0xEC, CHR 0x84, CHR 0xB9, CHR 0xEC, CHR 0x85, CHR 0x98],
     [CHR 0xEB, CHR 0xAC, CHR 0xB8, CHR 0xEC, CHR 0x84, CHR 0x9C, CHR 0xEC, CHR 0x9D, CHR 0x98, CHR 0x20, CHR 0xEB, CHR 0xAA, CHR 0xA8, CHR 0xEB, CHR 0x93, CHR 0xA0, CHR 0x20, CHR 0xEC, CHR 0xA0, CHR 0x88],
     [CHR 0xEB, CHR 0xAC, CHR 0xB8, CHR 0xEC, CHR 0x84, CHR 0x9C, CHR 0xEC, CHR 0x9D, CHR 0x98, CHR 0x20, CHR 0xEB, CHR 0xAA, CHR 0xA8, CHR 0xEB, CHR 0x93, CHR 0xA0, CHR 0x20, CHR 0xEC, CHR 0x9A, CHR 0x94, CHR 0xEA, CHR 0xB5, CHR 0xAC, CHR 0xEC, CHR 0x82, CHR 0xAC, CHR 0xED, CHR 0x95, CHR 0xAD],
     [CHR 0xEB, CHR 0xAC, CHR 0xB8, CHR 0xEC, CHR 0x84, CHR 0x9C, CHR 0x20, CHR 0xEC, CHR 0x9A, CHR 0x94, CHR 0xEA, CHR 0xB5, CHR 0xAC, CHR 0xEC, CHR 0x82, CHR 0xAC, CHR 0xED, CHR 0x95, CHR 0xAD, CHR 0x20, CHR 0xEC, CHR 0xA0, CHR 0x84, CHR 0xEC, CHR 0xB2, CHR 0xB4],
     [CHR 0xEB, CHR 0xAC, CHR 0xB8, CHR 0xEC, CHR 0x84, CHR 0x9C, CHR 0xEB, CHR 0xA5, CHR 0xBC, CHR 0x20, CHR 0xEC, CHR 0xB2, CHR 0x98, CHR 0xEC, CHR 0x9D, CHR 0x8C, CHR 0xEB, CHR 0xB6, CHR 0x80, CHR 0xED, CHR 0x84, CHR 0xB0, CHR 0x20, CHR 0xEB, CHR 0x81, CHR 0x9D, CHR 0xEA, CHR 0xB9, CHR 0x8C, CHR 0xEC, CHR 0xA7, CHR 0x80],
     [CHR 0xEB, CHR 0xAC, CHR 0xB8, CHR 0xEC, CHR 0x84, CHR 0x9C, CHR 0x20, CHR 0xEC, CHR 0xA0, CHR 0x84, CHR 0xEC, CHR 0xB2, CHR 0xB4, CHR 0xEB, CHR 0xA5, CHR 0xBC, CHR 0x20, CHR 0xEB, CHR 0xB9, CHR 0xA0, CHR 0xEC, CHR 0xA7, CHR 0x90, CHR 0xEC, CHR 0x97, CHR 0x86, CHR 0xEC, CHR 0x9D, CHR 0xB4],
     [CHR 0xEB, CHR 0xAC, CHR 0xB8, CHR 0xEC, CHR 0x84, CHR 0x9C, CHR 0xEC, CHR 0x9D, CHR 0x98, CHR 0x20, CHR 0xEC, CHR 0x84, CHR 0xB9, CHR 0xEC, CHR 0x85, CHR 0x98, CHR 0x20, CHR 0xEA, CHR 0xB0, CHR 0x84]]"

definition comprehensive_document_task_hints :: "string list" where
  "comprehensive_document_task_hints =
    [''read'', ''summarize'', ''review'', ''analyze'', ''extract'', ''check'', ''list'', ''identify'', ''compare'',
     ''cover'', [CHR 0xEC, CHR 0x9D, CHR 0xBD], [CHR 0xEC, CHR 0x9A, CHR 0x94, CHR 0xEC, CHR 0x95, CHR 0xBD],
     [CHR 0xEA, CHR 0xB2, CHR 0x80, CHR 0xED, CHR 0x86, CHR 0xA0],
     [CHR 0xEB, CHR 0xB6, CHR 0x84, CHR 0xEC, CHR 0x84, CHR 0x9D],
     [CHR 0xEC, CHR 0xB6, CHR 0x94, CHR 0xEC, CHR 0xB6, CHR 0x9C],
     [CHR 0xED, CHR 0x99, CHR 0x95, CHR 0xEC, CHR 0x9D, CHR 0xB8],
     [CHR 0xEC, CHR 0xA0, CHR 0x95, CHR 0xEB, CHR 0xA6, CHR 0xAC],
     [CHR 0xEB, CHR 0x82, CHR 0x98, CHR 0xEC, CHR 0x97, CHR 0xB4],
     [CHR 0xEB, CHR 0xB9, CHR 0x84, CHR 0xEA, CHR 0xB5, CHR 0x90]]"

definition exhaustive_coverage_hints :: "string list" where
  "exhaustive_coverage_hints =
    [''without missing anything'', ''without omitting anything'', ''without omissions'', ''no omissions'',
     ''all content'', ''everything in'',
     [CHR 0xEB, CHR 0xB9, CHR 0xA0, CHR 0xEC, CHR 0xA7, CHR 0x90, CHR 0xEC, CHR 0x97, CHR 0x86, CHR 0xEC, CHR 0x9D, CHR 0xB4],
     [CHR 0xEB, CHR 0x88, CHR 0x84, CHR 0xEB, CHR 0x9D, CHR 0xBD, CHR 0x20, CHR 0xEC, CHR 0x97, CHR 0x86, CHR 0xEC, CHR 0x9D, CHR 0xB4],
     [CHR 0xEB, CHR 0x88, CHR 0x84, CHR 0xEB, CHR 0x9D, CHR 0xBD, CHR 0xEC, CHR 0x97, CHR 0x86, CHR 0xEC, CHR 0x9D, CHR 0xB4],
     [CHR 0xEB, CHR 0xAA, CHR 0xA8, CHR 0xEB, CHR 0x93, CHR 0xA0, CHR 0x20, CHR 0xEB, CHR 0x82, CHR 0xB4, CHR 0xEC, CHR 0x9A, CHR 0xA9],
     [CHR 0xEB, CHR 0xAA, CHR 0xA8, CHR 0xEB, CHR 0x91, CHR 0x90],
     [CHR 0xEC, CHR 0xA0, CHR 0x84, CHR 0xEB, CHR 0xB6, CHR 0x80]]"

definition document_reference_hints :: "string list" where
  "document_reference_hints =
    [''document'', ''file'', ''source'', [CHR 0xEB, CHR 0xAC, CHR 0xB8, CHR 0xEC, CHR 0x84, CHR 0x9C],
     [CHR 0xED, CHR 0x8C, CHR 0x8C, CHR 0xEC, CHR 0x9D, CHR 0xBC],
     [CHR 0xEC, CHR 0x9E, CHR 0x90, CHR 0xEB, CHR 0xA3, CHR 0x8C]]"

definition enumeration_hints :: "string list" where
  "enumeration_hints =
    [''list'', ''show'', ''extract'', ''enumerate'', ''what are the'',
     [CHR 0xEB, CHR 0xAA, CHR 0xA9, CHR 0xEB, CHR 0xA1, CHR 0x9D],
     [CHR 0xEB, CHR 0x82, CHR 0x98, CHR 0xEC, CHR 0x97, CHR 0xB4],
     [CHR 0xEB, CHR 0xB3, CHR 0xB4, CHR 0xEC, CHR 0x97, CHR 0xAC, CHR 0xEC, CHR 0xA4, CHR 0x98],
     [CHR 0xEC, CHR 0xB6, CHR 0x94, CHR 0xEC, CHR 0xB6, CHR 0x9C]]"

definition entity_type_hints :: "(string \<times> string list) list" where
  "entity_type_hints =
    [(''api_endpoint'', [''endpoint'', ''endpoints'', ''route'', ''routes'', ''api'', ''get /'', ''post /'']),
     (''config_key'', [''env'', ''environment variable'', ''config'', ''setting'', [CHR 0xED, CHR 0x99, CHR 0x98, CHR 0xEA, CHR 0xB2, CHR 0xBD, CHR 0xEB, CHR 0xB3, CHR 0x80, CHR 0xEC, CHR 0x88, CHR 0x98], [CHR 0xEC, CHR 0x84, CHR 0xA4, CHR 0xEC, CHR 0xA0, CHR 0x95]]),
     (''command'', [''command'', ''commands'', ''cli'', ''shell'', [CHR 0xEB, CHR 0xAA, CHR 0x85, CHR 0xEB, CHR 0xA0, CHR 0xB9, CHR 0xEC, CHR 0x96, CHR 0xB4]]),
     (''error_code'', [''error code'', ''status code'', ''http code'', [CHR 0xEC, CHR 0x97, CHR 0x90, CHR 0xEB, CHR 0x9F, CHR 0xAC], [CHR 0xEC, CHR 0x98, CHR 0xA4, CHR 0xEB, CHR 0xA5, CHR 0x98], [CHR 0xEC, CHR 0x83, CHR 0x81, CHR 0xED, CHR 0x83, CHR 0x9C, CHR 0x20, CHR 0xEC, CHR 0xBD, CHR 0x94, CHR 0xEB, CHR 0x93, CHR 0x9C]]),
     (''database_table'', [''table'', ''tables'', ''database'', ''schema'', ''db'', [CHR 0xED, CHR 0x85, CHR 0x8C, CHR 0xEC, CHR 0x9D, CHR 0xB4, CHR 0xEB, CHR 0xB8, CHR 0x94]])]"

definition overview_hints :: "string list" where
  "overview_hints =
    [''summarize'', ''summary'', ''overview'', [CHR 0xEC, CHR 0x9A, CHR 0x94, CHR 0xEC, CHR 0x95, CHR 0xBD]]"

definition comparison_hints :: "string list" where
  "comparison_hints =
    [''compare'', ''difference'', ''vs'', ''versus'', [CHR 0xEB, CHR 0xB9, CHR 0x84, CHR 0xEA, CHR 0xB5, CHR 0x90],
     [CHR 0xEC, CHR 0xB0, CHR 0xA8, CHR 0xEC, CHR 0x9D, CHR 0xB4]]"

definition source_lookup_hints :: "string list" where
  "source_lookup_hints =
    [''where'', ''source'', ''citation'', ''which document'',
     [CHR 0xEA, CHR 0xB7, CHR 0xBC, CHR 0xEA, CHR 0xB1, CHR 0xB0],
     [CHR 0xEC, CHR 0xB6, CHR 0x9C, CHR 0xEC, CHR 0xB2, CHR 0x98]]"

definition structured_document_hints :: "string list" where
  "structured_document_hints =
    [''document'', ''file'', [CHR 0xEB, CHR 0xAC, CHR 0xB8, CHR 0xEC, CHR 0x84, CHR 0x9C], [CHR 0xEC, CHR 0x9E, CHR 0x90, CHR 0xEB, CHR 0xA3, CHR 0x8C], [CHR 0xED, CHR 0x8C, CHR 0x8C, CHR 0xEC, CHR 0x9D, CHR 0xBC]]"

section \<open>Handles that name a document\<close>

definition regex_word_point :: "string \<Rightarrow> bool" where
  "regex_word_point g \<longleftrightarrow> word_point g \<or> g = ''_''"

definition handle_point :: "string \<Rightarrow> bool" where
  "handle_point g \<longleftrightarrow> (case g of [c] \<Rightarrow> ascii_alnum c \<or> c \<in> set ''._-'' | _ \<Rightarrow> False)"

definition handle_mark :: "string \<Rightarrow> bool" where
  "handle_mark g \<longleftrightarrow> (case g of [c] \<Rightarrow> ascii_digit c \<or> c \<in> set ''._-'' | _ \<Rightarrow> False)"

definition handle_start :: "string \<Rightarrow> bool" where
  "handle_start g \<longleftrightarrow> (case g of [c] \<Rightarrow> ascii_alnum c | _ \<Rightarrow> False)"

definition word_boundary :: "string list \<Rightarrow> nat \<Rightarrow> bool" where
  "word_boundary t p \<longleftrightarrow>
     (0 < p \<and> p \<le> length t \<and> regex_word_point (t ! (p - 1))) \<noteq> (p < length t \<and> regex_word_point (t ! p))"

text \<open>
  The regular expression: a stretch of at least five handle characters between word boundaries that starts
  with a letter or digit, in a run of handle characters that contains a digit, dot, underscore or dash.
\<close>

definition has_specific_document_reference :: "string \<Rightarrow> bool" where
  "has_specific_document_reference value =
     (let t = code_points value
      in list_ex (\<lambda>p. word_boundary t p \<and> handle_start (t ! p)
           \<and> (let run = takeWhile handle_point (drop p t)
              in list_ex handle_mark run \<and> list_ex (\<lambda>n. word_boundary t (p + n)) [5..<Suc (length run)]))
         [0..<length t])"

section \<open>Routing\<close>

definition clean_query :: "string \<Rightarrow> string" where
  "clean_query message = py_join '' '' (py_split (py_strip message))"

definition document_scope :: "string \<Rightarrow> string" where
  "document_scope normalized =
     (if has_any normalized current_scope_hints then ''current_conversation''
      else if has_any normalized group_scope_hints then ''group_documents''
      else if has_any normalized user_scope_hints then ''user_documents''
      else ''unknown'')"

definition mentions_documents :: "base_message \<Rightarrow> bool" where
  "mentions_documents m = (case m of HumanMessage s \<Rightarrow> has_any (py_casefold s) required_document_hints | OtherMessage \<Rightarrow> False)"

definition recent_history_mentions_documents :: "base_message list \<Rightarrow> bool" where
  "recent_history_mentions_documents history = list_ex mentions_documents (drop (length history - 4) history)"

definition routing :: "string \<Rightarrow> string \<Rightarrow> string \<Rightarrow> string \<Rightarrow> RetrievalRoutingDecision" where
  "routing route reason query scope =
     \<lparr>rd_route = route, rd_reason = reason, rd_rewritten_query = query, rd_document_scope = scope\<rparr>"

definition route_retrieval ::
  "string \<Rightarrow> base_message list \<Rightarrow> nat option \<Rightarrow> nat option \<Rightarrow> RetrievalRoutingDecision" where
  "route_retrieval message history document_count selectable_count =
     (let query = clean_query message;
          normalized = py_casefold query;
          scope = document_scope normalized;
          clarification_count =
            (if selectable_count = None then document_count else selectable_count)
      in if has_any normalized ambiguous_document_references \<and> \<not> has_specific_document_reference query
         then (case clarification_count of
                 Some n \<Rightarrow>
                   if n > 1
                   then routing ''clarification_required''
                     ''ambiguous document reference with multiple user-selectable documents'' query ''unknown''
                   else routing ''retrieval_required''
                     ''ambiguous document reference requires authorized document retrieval'' query ''unknown''
               | None \<Rightarrow> routing ''retrieval_required''
                     ''ambiguous document reference requires authorized document retrieval'' query ''unknown'')
         else if has_any normalized required_document_hints
         then routing ''retrieval_required'' ''request explicitly references uploaded or document-backed material'' query scope
         else if has_any normalized general_knowledge_hints
         then routing ''no_retrieval'' ''general conceptual request without document grounding hints'' query ''unknown''
         else if has_any normalized optional_retrieval_hints \<or> recent_history_mentions_documents history
         then routing ''retrieval_optional'' ''stored project or service context may improve answer reliability'' query scope
         else if (case document_count of Some n \<Rightarrow> n > 0 | None \<Rightarrow> False)
         then routing ''retrieval_optional''
           ''authorized documents are available and may contain project-specific context'' query scope
         else routing ''no_retrieval'' ''no document-retrieval hint detected'' query ''unknown'')"

definition is_comprehensive_document_request :: "string \<Rightarrow> bool" where
  "is_comprehensive_document_request message =
     (let normalized = py_casefold (clean_query message);
          has_task = has_any normalized comprehensive_document_task_hints;
          known = has_any normalized comprehensive_document_hints;
          composed = (has_any normalized exhaustive_coverage_hints
            \<and> (has_any normalized document_reference_hints \<or> has_specific_document_reference normalized))
      in has_task \<and> (known \<or> composed))"

section \<open>The plan\<close>

definition structured_entity_types :: "string \<Rightarrow> string list" where
  "structured_entity_types normalized =
     (if \<not> has_any normalized enumeration_hints then []
      else dict_fromkeys (map fst (filter (\<lambda>(entity_type, hints). has_any normalized hints) entity_type_hints)))"

definition plan_intent :: "string \<Rightarrow> string list \<Rightarrow> string" where
  "plan_intent normalized entity_types =
     (if is_comprehensive_document_request normalized then ''comprehensive_document''
      else if entity_types \<noteq> [] \<and> has_any normalized enumeration_hints then ''enumeration''
      else if has_any normalized overview_hints then ''overview''
      else if has_any normalized comparison_hints then ''comparison''
      else if has_any normalized source_lookup_hints then ''source_lookup''
      else ''semantic_qa'')"

definition should_require_structured_retrieval :: "string \<Rightarrow> string list \<Rightarrow> nat option \<Rightarrow> string \<Rightarrow> bool" where
  "should_require_structured_retrieval normalized entity_types document_count route =
     (if entity_types = [] \<or> route \<notin> {''no_retrieval'', ''retrieval_optional''} then False
      else if (case document_count of Some n \<Rightarrow> n > 0 | None \<Rightarrow> False) then True
      else has_any normalized structured_document_hints)"

definition plan_intents :: "string list" where
  "plan_intents = [''semantic_qa'', ''overview'', ''comprehensive_document'', ''enumeration'', ''comparison'', ''source_lookup'']"

type_synonym choice_decider = "base_message list \<Rightarrow> string option"

definition query_plan ::
  "CandidateLimits \<Rightarrow> choice_decider option \<Rightarrow> string \<Rightarrow> base_message list \<Rightarrow> nat option \<Rightarrow> nat option \<Rightarrow> RetrievalPlan" where
  "query_plan candidate_limits decider message history document_count selectable_count =
     (let decision = route_retrieval message history document_count selectable_count;
          normalized = py_casefold message;
          entity_types = structured_entity_types normalized;
          decision = (if should_require_structured_retrieval normalized entity_types document_count (rd_route decision)
            then routing ''retrieval_required'' ''structured enumeration request references document-backed material''
              (rd_rewritten_query decision) (rd_document_scope decision)
            else decision);
          intent = plan_intent normalized entity_types;
          intent = (case decider of
              None \<Rightarrow> intent
            | Some ask \<Rightarrow>
                (case ask (history @ [HumanMessage message]) of
                   Some choice \<Rightarrow> if choice \<in> set plan_intents then choice else intent
                 | None \<Rightarrow> intent))
      in \<lparr>pl_intent = intent, pl_original_query = message, pl_rewritten_query = rd_rewritten_query decision,
          pl_route_decision = decision, pl_structured_entity_types = entity_types, pl_limits = candidate_limits\<rparr>)"

text \<open>The planner of a turn, in the place the retrieval pipeline calls it.\<close>

definition planned_forge ::
  "'s forge_env \<Rightarrow> CandidateLimits \<Rightarrow> choice_decider option \<Rightarrow> base_message list \<Rightarrow> 's forge_env" where
  "planned_forge fe candidate_limits decider history = fe\<lparr>fe_plan := (\<lambda>request document_count selectable_count.
     query_plan candidate_limits decider (cf_query request) history (Some document_count) (Some selectable_count))\<rparr>"

section \<open>Which requests search\<close>

text \<open>The counts the planner of a request is given.\<close>

definition planned_count :: "(ident \<Rightarrow> ident list option \<Rightarrow> nat) \<Rightarrow> ContextForgeRequest \<Rightarrow> nat" where
  "planned_count counter request =
     (if cf_selected_document_id request \<noteq> None then 1
      else counter (cf_user_id request) (retrieval_knowledge_base_ids (cf_selection_context request)))"

definition ambiguous_request :: "string \<Rightarrow> bool" where
  "ambiguous_request message \<longleftrightarrow> has_any (py_casefold (clean_query message)) ambiguous_document_references
     \<and> \<not> has_specific_document_reference (clean_query message)"

definition structured_request :: "string \<Rightarrow> nat \<Rightarrow> bool" where
  "structured_request message n \<longleftrightarrow> structured_entity_types (py_casefold message) \<noteq> []
     \<and> (n > 0 \<or> has_any (py_casefold message) structured_document_hints)"

definition unrelated_request :: "string \<Rightarrow> base_message list \<Rightarrow> nat \<Rightarrow> bool" where
  "unrelated_request message history n \<longleftrightarrow>
     (let normalized = py_casefold (clean_query message)
      in \<not> has_any normalized required_document_hints
         \<and> (has_any normalized general_knowledge_hints
            \<or> (\<not> has_any normalized optional_retrieval_hints \<and> \<not> recent_history_mentions_documents history \<and> n = 0)))"

lemma routing_sel [simp]: "rd_route (routing r reason q s) = r" "rd_rewritten_query (routing r reason q s) = q"
  by (simp_all add: routing_def)

lemma route_cases:
  "rd_route (route_retrieval message history (Some n) (Some k)) =
     (if ambiguous_request message then if k > 1 then ''clarification_required'' else ''retrieval_required''
      else if unrelated_request message history n then ''no_retrieval''
      else if has_any (py_casefold (clean_query message)) required_document_hints then ''retrieval_required''
      else ''retrieval_optional'')"
  by (auto simp: route_retrieval_def ambiguous_request_def unrelated_request_def Let_def)

lemma plan_route:
  "rd_route (pl_route_decision (query_plan limits decider message history (Some n) (Some k))) =
     (let route = rd_route (route_retrieval message history (Some n) (Some k))
      in if structured_request message n \<and> route \<in> {''no_retrieval'', ''retrieval_optional''} then ''retrieval_required'' else route)"
  unfolding query_plan_def Let_def should_require_structured_retrieval_def structured_request_def by (simp split: option.splits)

lemma forge_plan_planned:
  "forge_plan (planned_forge fe limits decider history) request =
     force_route (cf_force_retrieval request) (query_plan limits decider (cf_query request) history
       (Some (planned_count (rs_document_count (fe_service fe)) request))
       (Some (planned_count (rs_selectable_count (fe_service fe)) request)))"
  by (simp add: forge_plan_def planned_forge_def planned_count_def Let_def)

lemma force_route_route:
  "rd_route (pl_route_decision (force_route force plan)) =
     (if force \<and> rd_route (pl_route_decision plan) = ''no_retrieval'' then ''retrieval_optional''
      else rd_route (pl_route_decision plan))"
  by (simp add: force_route_def)

lemma fr_plan_forge: "fr_plan (retrieve fe rerank request) = forge_plan fe request"
proof (cases "searches (forge_plan fe request)")
  case True
  then show ?thesis by (rule retrieve_searches)
qed (rule retrieve_skips)

text \<open>
  C14. A turn asks the user back exactly when the request points at "this document" without naming one, no
  document is selected and more than one could be meant. It goes unsearched exactly when nothing forces a
  search, nothing in it points at documents or structured facts, and it is either a general question or
  the user has no documents and neither the request nor the recent history suggests any.
\<close>

theorem unsearched_turns:
  "let service = fe_service fe;
       result = context_forge_retrieve (planned_forge fe limits decider history) rerankers request;
       route = rd_route (pl_route_decision (fr_plan result));
       n = planned_count (rs_document_count service) request
   in (route = ''clarification_required'' \<longleftrightarrow>
         ambiguous_request (cf_query request) \<and> cf_selected_document_id request = None
         \<and> planned_count (rs_selectable_count service) request > 1)
    \<and> (route = ''no_retrieval'' \<longleftrightarrow>
         \<not> cf_force_retrieval request \<and> \<not> ambiguous_request (cf_query request)
         \<and> unrelated_request (cf_query request) history n \<and> \<not> structured_request (cf_query request) n)
    \<and> (route \<in> {''clarification_required'', ''no_retrieval'', ''retrieval_required'', ''retrieval_optional''})"
proof -
  have selected: "planned_count c request > 1 \<Longrightarrow> cf_selected_document_id request = None" for c
    by (simp add: planned_count_def split: if_splits)
  show ?thesis
    unfolding Let_def context_forge_retrieve_def fr_plan_forge forge_plan_planned force_route_route plan_route route_cases
    using selected by auto
qed

end
