(* ===== verification/Memory_Policy.thy ===== *)
theory Memory_Policy
  imports Text_Model "HOL-Library.AList"
begin

text \<open>
  What may become a long-term memory (\<open>memory/policy.py\<close>) and the documents a memory is stored as
  (\<open>memory/service.py\<close>, \<open>memory/models.py\<close>). The compiled patterns are searches over the bytes of
  the text: they name ASCII characters only, and the bytes of a Hangul syllable are word characters, so
  word boundaries fall where Python sees them. A JSON document is its tree; \<open>json.dumps\<close> is written
  out, since the policy reads the text it renders.
\<close>

section \<open>Enumerations\<close>

datatype MemoryCategory = STABLE_PREFERENCE | PROJECT_CONTEXT | PERSONAL_FACT | DOCUMENT_DERIVED_FACT

primrec memory_category_value :: "MemoryCategory \<Rightarrow> string" where
  "memory_category_value STABLE_PREFERENCE = ''stable_preference''"
| "memory_category_value PROJECT_CONTEXT = ''project_context''"
| "memory_category_value PERSONAL_FACT = ''personal_fact''"
| "memory_category_value DOCUMENT_DERIVED_FACT = ''document_derived_fact''"

datatype MemoryProvenanceType = EXPLICIT_USER | ASSISTANT_SUGGESTED | AUTO_STORED | DOCUMENT_DERIVED

primrec provenance_value :: "MemoryProvenanceType \<Rightarrow> string" where
  "provenance_value EXPLICIT_USER = ''explicit_user''"
| "provenance_value ASSISTANT_SUGGESTED = ''assistant_suggested''"
| "provenance_value AUTO_STORED = ''auto_stored''"
| "provenance_value DOCUMENT_DERIVED = ''document_derived''"

datatype MemorySensitivity = NON_SENSITIVE | SENSITIVE

primrec sensitivity_value :: "MemorySensitivity \<Rightarrow> string" where
  "sensitivity_value NON_SENSITIVE = ''non_sensitive''"
| "sensitivity_value SENSITIVE = ''sensitive''"

datatype MemoryWriteMode = EXPLICIT_WRITE | SUGGEST_CONFIRM | AUTO_STORE

datatype MemoryPolicyDecision =
    ALLOW | REJECT_SENSITIVE | REJECT_UNSUPPORTED_CATEGORY | REJECT_MISSING_DOCUMENT_PROVENANCE | REJECT_UNSUPPORTED_CONTENT

text \<open>\<open>MemoryCategory(str(category))\<close>, \<open>None\<close> for its \<open>ValueError\<close>.\<close>

definition parse_memory_category :: "string \<Rightarrow> MemoryCategory option" where
  "parse_memory_category s = find (\<lambda>c. memory_category_value c = s)
     [STABLE_PREFERENCE, PROJECT_CONTEXT, PERSONAL_FACT, DOCUMENT_DERIVED_FACT]"

lemma parse_category_iff: "parse_memory_category s = Some c \<longleftrightarrow> s = memory_category_value c"
  by (cases c) (auto simp: parse_memory_category_def)

section \<open>Searches with word boundaries\<close>

definition word_byte :: "char \<Rightarrow> bool" where
  "word_byte c \<longleftrightarrow> ascii_alnum c \<or> c = CHR ''_'' \<or> 128 \<le> byte c"

definition boundary :: "string \<Rightarrow> nat \<Rightarrow> bool" where
  "boundary s p \<longleftrightarrow> (0 < p \<and> word_byte (s ! (p - 1))) \<noteq> (p < length s \<and> word_byte (s ! p))"

definition search :: "(string \<Rightarrow> nat \<Rightarrow> bool) \<Rightarrow> string \<Rightarrow> bool" where
  "search found s \<longleftrightarrow> list_ex (found s) [0..<Suc (length s)]"

definition phrase_at :: "string \<Rightarrow> string \<Rightarrow> nat \<Rightarrow> bool" where
  "phrase_at w s p \<longleftrightarrow> take (length w) (drop p s) = w \<and> boundary s p \<and> boundary s (p + length w)"

definition has_phrase :: "string list \<Rightarrow> string \<Rightarrow> bool" where
  "has_phrase ws s \<longleftrightarrow> list_ex (\<lambda>w. search (phrase_at w) s) ws"

text \<open>Three, two and four digits joined by dashes; and 13 to 19 digits with blanks and dashes after each.\<close>

definition social_number_at :: "string \<Rightarrow> nat \<Rightarrow> bool" where
  "social_number_at s p \<longleftrightarrow> (let w = take 11 (drop p s)
     in length w = 11 \<and> map ascii_digit w = [True, True, True, False, True, True, False, True, True, True, True]
        \<and> w ! 3 = CHR ''-'' \<and> w ! 6 = CHR ''-'' \<and> boundary s p \<and> boundary s (p + 11))"

definition card_byte :: "char \<Rightarrow> bool" where
  "card_byte c \<longleftrightarrow> ascii_digit c \<or> c = CHR '' '' \<or> c = CHR ''-''"

definition card_number_at :: "string \<Rightarrow> nat \<Rightarrow> bool" where
  "card_number_at s p \<longleftrightarrow> boundary s p \<and> p < length s \<and> ascii_digit (s ! p)
     \<and> list_ex (\<lambda>n. (let digits = length (filter ascii_digit (take n (drop p s)))
            in list_all card_byte (take n (drop p s)) \<and> 13 \<le> digits \<and> digits \<le> 19 \<and> boundary s (p + n)))
         [0..<Suc (length s - p)]"

section \<open>The policy\<close>

definition sensitive_phrases :: "string list" where
  "sensitive_phrases =
    [''ssn'', ''social security number'', ''password'', ''passcode'', ''api key'', ''secret key'', ''access token'',
     ''refresh token'', ''diagnosed with'', ''medical record'', ''prescription'', ''mental health'', ''religion'',
     ''political affiliation'', ''union membership'']"

definition detect_memory_sensitivity :: "string \<Rightarrow> MemorySensitivity" where
  "detect_memory_sensitivity content =
     (let s = py_casefold content
      in if has_phrase sensitive_phrases s \<or> search social_number_at s \<or> search card_number_at s
         then SENSITIVE else NON_SENSITIVE)"

definition preference_phrases :: "string list" where
  "preference_phrases =
    [''prefer'', ''prefers'', ''preference'', ''like'', ''likes'', ''want'', ''wants'', ''usually'', ''always'', ''default'',
     ''use'', ''answer'', ''respond'', ''explain'', ''format'', ''tone'', ''language'', ''call me'']"

definition preference_hints :: "string list" where
  "preference_hints = [[CHR 0xEC, CHR 0x84, CHR 0xA0, CHR 0xED, CHR 0x98, CHR 0xB8],
     [CHR 0xEC, CHR 0xA2, CHR 0x8B, CHR 0xEC, CHR 0x95, CHR 0x84],
     [CHR 0xEB, CHR 0x8B, CHR 0xB5, CHR 0xEB, CHR 0xB3, CHR 0x80],
     [CHR 0xED, CHR 0x95, CHR 0x9C, CHR 0xEA, CHR 0xB5, CHR 0xAD, CHR 0xEC, CHR 0x96, CHR 0xB4],
     [CHR 0xEA, CHR 0xB0, CHR 0x84, CHR 0xEA, CHR 0xB2, CHR 0xB0],
     [CHR 0xEC, CHR 0x9E, CHR 0x90, CHR 0xEC, CHR 0x84, CHR 0xB8, CHR 0xED, CHR 0x9E, CHR 0x88]]"

definition has_preference_shape :: "string \<Rightarrow> bool" where
  "has_preference_shape content \<longleftrightarrow> has_phrase preference_phrases (py_casefold content) \<or> has_any content preference_hints"

definition provenance_for_write_mode :: "MemoryWriteMode \<Rightarrow> MemoryCategory \<Rightarrow> MemoryProvenanceType" where
  "provenance_for_write_mode mode category =
     (if category = DOCUMENT_DERIVED_FACT then DOCUMENT_DERIVED
      else (case mode of EXPLICIT_WRITE \<Rightarrow> EXPLICIT_USER | SUGGEST_CONFIRM \<Rightarrow> ASSISTANT_SUGGESTED | AUTO_STORE \<Rightarrow> AUTO_STORED))"

definition auto_store_categories :: "MemoryCategory list" where
  "auto_store_categories = [STABLE_PREFERENCE, PROJECT_CONTEXT, PERSONAL_FACT, DOCUMENT_DERIVED_FACT]"

record MemoryWritePolicyResult =
  pr_decision :: MemoryPolicyDecision
  pr_category :: MemoryCategory
  pr_provenance_type :: MemoryProvenanceType
  pr_sensitivity :: MemorySensitivity
  pr_reason :: string

definition evaluate_memory_write :: "string \<Rightarrow> MemoryCategory \<Rightarrow> MemoryWriteMode \<Rightarrow> ident option \<Rightarrow> MemoryWritePolicyResult" where
  "evaluate_memory_write content category mode source_document_id =
     (let sensitivity = detect_memory_sensitivity content;
          result = (\<lambda>decision reason. \<lparr>pr_decision = decision, pr_category = category,
             pr_provenance_type = provenance_for_write_mode mode category, pr_sensitivity = sensitivity, pr_reason = reason\<rparr>)
      in if sensitivity = SENSITIVE then result REJECT_SENSITIVE ''sensitive facts are not stored in long-term memory''
         else if mode = AUTO_STORE \<and> category \<notin> set auto_store_categories
         then result REJECT_UNSUPPORTED_CATEGORY ''category is not allowed for auto-store''
         else if category = STABLE_PREFERENCE \<and> \<not> has_preference_shape content
         then result REJECT_UNSUPPORTED_CONTENT ''stable preference memory must describe a durable user preference''
         else if category = DOCUMENT_DERIVED_FACT \<and> (source_document_id = None \<or> source_document_id = Some '''')
         then result REJECT_MISSING_DOCUMENT_PROVENANCE ''document-derived memory requires source_document_id''
         else result ALLOW ''allowed'')"

section \<open>JSON documents\<close>

datatype json = JNull | JBool bool | JInt int | JString string | JList "json list" | JDict "(string \<times> json) list"

definition hex_digit :: "nat \<Rightarrow> char" where
  "hex_digit n = ''0123456789abcdef'' ! n"

definition json_escape :: "char \<Rightarrow> string" where
  "json_escape c =
     (if c = CHR 0x22 then [CHR 0x5C, CHR 0x22] else if c = CHR 0x5C then [CHR 0x5C, CHR 0x5C]
      else if c = CHR 0x0A then [CHR 0x5C, CHR ''n''] else if c = CHR 0x0D then [CHR 0x5C, CHR ''r'']
      else if c = CHR 0x09 then [CHR 0x5C, CHR ''t''] else if c = CHR 0x08 then [CHR 0x5C, CHR ''b'']
      else if c = CHR 0x0C then [CHR 0x5C, CHR ''f'']
      else if byte c < 32 then [CHR 0x5C, CHR ''u'', CHR ''0'', CHR ''0'', hex_digit (byte c div 16), hex_digit (byte c mod 16)]
      else [c])"

definition json_string :: "string \<Rightarrow> string" where
  "json_string s = [CHR 0x22] @ concat (map json_escape s) @ [CHR 0x22]"

text \<open>\<open>json.dumps\<close> with \<open>ensure_ascii=False\<close>, sorted keys and no blanks.\<close>

fun json_dumps :: "json \<Rightarrow> string" where
  "json_dumps JNull = ''null''"
| "json_dumps (JBool b) = (if b then ''true'' else ''false'')"
| "json_dumps (JInt i) = py_str_int i"
| "json_dumps (JString s) = json_string s"
| "json_dumps (JList xs) = ''['' @ py_join '','' (map json_dumps xs) @ '']''"
| "json_dumps (JDict kvs) =
     ''{'' @ py_join '','' (map snd (sort_key fst (map (\<lambda>(k, v). (k, json_string k @ '':'' @ json_dumps v)) kvs))) @ ''}''"

type_synonym dict = "(string \<times> json) list"

text \<open>Assigning a key keeps its place in the dictionary, a new key goes last.\<close>

definition dict_update :: "dict \<Rightarrow> dict \<Rightarrow> dict" where
  "dict_update d e = fold (\<lambda>(k, v) d. AList.update k v d) e d"

definition policy_text :: "string \<Rightarrow> dict option \<Rightarrow> string" where
  "policy_text content v_doc = (case v_doc of
     None \<Rightarrow> content | Some d \<Rightarrow> if d = [] then content else content @ [CHR 0x0A] @ json_dumps (JDict d))"

record memory_source =
  src_conversation_id :: "ident option"
  src_message_id :: "ident option"
  src_run_id :: "ident option"
  src_document_id :: "ident option"

definition json_id :: "ident option \<Rightarrow> json" where
  "json_id i = (case i of None \<Rightarrow> JNull | Some s \<Rightarrow> JString s)"

definition provenance_document :: "string \<Rightarrow> memory_source \<Rightarrow> json" where
  "provenance_document provenance_type source = JDict
     [(''type'', JString provenance_type), (''source_conversation_id'', json_id (src_conversation_id source)),
      (''source_message_id'', json_id (src_message_id source)), (''source_run_id'', json_id (src_run_id source)),
      (''source_document_id'', json_id (src_document_id source))]"

definition memory_value_document :: "string \<Rightarrow> string \<Rightarrow> string \<Rightarrow> string \<Rightarrow> dict option \<Rightarrow> memory_source \<Rightarrow> dict" where
  "memory_value_document content category provenance_type sensitivity v_doc source =
     dict_update (case v_doc of None \<Rightarrow> [] | Some d \<Rightarrow> d)
       [(''content'', JString content), (''category'', JString category), (''sensitivity'', JString sensitivity),
        (''provenance'', provenance_document provenance_type source)]"

section \<open>A sensitive text stays sensitive between blanks\<close>

definition framed :: "string \<Rightarrow> string \<Rightarrow> string \<Rightarrow> bool" where
  "framed pre w post \<longleftrightarrow> (pre = [] \<or> \<not> word_byte (last pre)) \<and> (post = [] \<or> \<not> word_byte (hd post))"

lemma boundary_frame:
  assumes "framed pre w post" and "p \<le> length w"
  shows "boundary (pre @ w @ post) (length pre + p) = boundary w p"
proof -
  have left: "(0 < length pre + p \<and> word_byte ((pre @ w @ post) ! (length pre + p - 1))) \<longleftrightarrow> (0 < p \<and> word_byte (w ! (p - 1)))"
  proof (cases p)
    case 0
    then show ?thesis using assms(1) by (cases "pre = []") (auto simp: framed_def nth_append last_conv_nth)
  next
    case (Suc q)
    then show ?thesis using assms(2) by (simp add: nth_append)
  qed
  have right: "(length pre + p < length (pre @ w @ post) \<and> word_byte ((pre @ w @ post) ! (length pre + p)))
      \<longleftrightarrow> (p < length w \<and> word_byte (w ! p))"
  proof (cases "p < length w")
    case False
    then have "p = length w" using assms(2) by simp
    then show ?thesis using assms(1) by (cases post) (auto simp: framed_def nth_append)
  qed (simp add: nth_append)
  show ?thesis unfolding boundary_def left right ..
qed

lemma take_drop_frame: "p + n \<le> length w \<Longrightarrow> take n (drop (length pre + p) (pre @ w @ post)) = take n (drop p w)"
  by simp

lemma search_frame:
  assumes "search found w" and "\<And>p. p \<le> length w \<Longrightarrow> found w p \<Longrightarrow> found (pre @ w @ post) (length pre + p)"
  shows "search found (pre @ w @ post)"
proof -
  obtain p where "p \<le> length w" "found w p" using assms(1) by (auto simp: search_def list_ex_iff less_Suc_eq_le simp del: upt_Suc)
  then have "found (pre @ w @ post) (length pre + p)" "length pre + p \<in> set [0..<Suc (length (pre @ w @ post))]"
    using assms(2) by auto
  then show ?thesis unfolding search_def list_ex_iff by blast
qed

lemma phrase_frame:
  assumes "framed pre w post" and "p \<le> length w" and "phrase_at x w p"
  shows "phrase_at x (pre @ w @ post) (length pre + p)"
proof -
  have "length x \<le> length w - p" using assms(3) unfolding phrase_at_def by (metis length_drop length_take min.cobounded1)
  then have le: "p + length x \<le> length w" using assms(2) by simp
  then show ?thesis
    using assms(3) boundary_frame [OF assms(1,2)] boundary_frame [OF assms(1) le] take_drop_frame [OF le]
    by (simp add: phrase_at_def add.assoc)
qed

lemma social_frame:
  assumes "framed pre w post" and "p \<le> length w" and "social_number_at w p"
  shows "social_number_at (pre @ w @ post) (length pre + p)"
proof -
  have le: "p + 11 \<le> length w" using assms(2,3) by (auto simp: social_number_at_def Let_def min_def split: if_splits)
  show ?thesis
    using assms(3) boundary_frame [OF assms(1,2)] boundary_frame [OF assms(1) le]
    unfolding social_number_at_def take_drop_frame [OF le] add.assoc by simp
qed

lemma card_frame:
  assumes "framed pre w post" and "card_number_at w p"
  shows "card_number_at (pre @ w @ post) (length pre + p)"
proof -
  have p: "p < length w" "ascii_digit (w ! p)" "boundary w p" using assms(2) by (simp_all add: card_number_at_def)
  obtain n where n: "n \<le> length w - p" "list_all card_byte (take n (drop p w))" "13 \<le> length (filter ascii_digit (take n (drop p w)))"
    "length (filter ascii_digit (take n (drop p w))) \<le> 19" "boundary w (p + n)"
    using assms(2) by (auto simp: card_number_at_def list_ex_iff Let_def less_Suc_eq_le simp del: upt_Suc)
  have le: "p + n \<le> length w" using n(1) p(1) by simp
  have "n \<in> set [0..<Suc (length (pre @ w @ post) - (length pre + p))]" using le by auto
  moreover have "boundary (pre @ w @ post) (length pre + p + n)" using boundary_frame [OF assms(1) le] n(5) by (simp add: add.assoc)
  moreover have "boundary (pre @ w @ post) (length pre + p)" using boundary_frame [OF assms(1), of p] p by simp
  ultimately show ?thesis
    using p n unfolding card_number_at_def list_ex_iff Let_def
    by (intro conjI bexI [of _ n]) (simp_all add: nth_append)
qed

lemma word_byte_space: "py_space c \<Longrightarrow> \<not> word_byte c"
  by (auto simp: py_space_def word_byte_def ascii_alnum_def)

lemma sensitive_frame:
  assumes "detect_memory_sensitivity w = SENSITIVE"
    and "pre = [] \<or> py_space (last pre)" and "post = [] \<or> py_space (hd post)"
  shows "detect_memory_sensitivity (pre @ w @ post) = SENSITIVE"
proof -
  let ?pre = "py_casefold pre" and ?w = "py_casefold w" and ?post = "py_casefold post"
  have frame: "framed ?pre ?w ?post"
    using assms(2,3) by (auto simp: framed_def py_casefold_def last_map hd_map word_byte_space)
  have split: "py_casefold (pre @ w @ post) = ?pre @ ?w @ ?post" by (simp add: py_casefold_def)
  have "has_phrase sensitive_phrases ?w \<or> search social_number_at ?w \<or> search card_number_at ?w"
    using assms(1) by (simp add: detect_memory_sensitivity_def Let_def split: if_splits)
  then have "has_phrase sensitive_phrases (?pre @ ?w @ ?post) \<or> search social_number_at (?pre @ ?w @ ?post)
      \<or> search card_number_at (?pre @ ?w @ ?post)"
    using search_frame phrase_frame [OF frame] social_frame [OF frame] card_frame [OF frame]
    by (auto simp: has_phrase_def list_ex_iff) blast+
  then show ?thesis by (simp add: detect_memory_sensitivity_def Let_def split)
qed

text \<open>So stripping a text the policy accepted, with or without a document rendered after it, keeps it acceptable.\<close>

lemma py_strip_parts:
  obtains pre post where "s = pre @ py_strip s @ post" and "\<forall>c \<in> set pre. py_space c" and "\<forall>c \<in> set post. py_space c"
proof -
  let ?u = "py_lstrip s"
  have s: "s = takeWhile py_space s @ ?u" by (simp add: py_lstrip_def)
  have "rev ?u = takeWhile py_space (rev ?u) @ py_lstrip (rev ?u)" by (simp add: py_lstrip_def)
  then have "?u = py_strip s @ rev (takeWhile py_space (rev ?u))"
    unfolding py_strip_def by (metis rev_append rev_rev_ident)
  then show ?thesis
    using that [of "takeWhile py_space s" "rev (takeWhile py_space (rev ?u))"] s by (auto dest: set_takeWhileD)
qed

lemma policy_text_parts:
  obtains tail where "policy_text content v_doc = content @ tail" and "tail = [] \<or> hd tail = CHR 0x0A"
proof (cases v_doc)
  case None
  then show ?thesis using that [of "[]"] by (simp add: policy_text_def)
next
  case (Some d)
  then show ?thesis using that [of "if d = [] then [] else CHR 0x0A # json_dumps (JDict d)"] by (simp add: policy_text_def)
qed

lemma accepted_strip:
  assumes "detect_memory_sensitivity (policy_text content v_doc) = NON_SENSITIVE"
  shows "detect_memory_sensitivity (py_strip content) = NON_SENSITIVE"
proof (rule ccontr)
  assume "detect_memory_sensitivity (py_strip content) \<noteq> NON_SENSITIVE"
  then have sensitive: "detect_memory_sensitivity (py_strip content) = SENSITIVE"
    by (cases "detect_memory_sensitivity (py_strip content)") simp_all
  obtain pre post where parts: "content = pre @ py_strip content @ post" and pre: "\<forall>c \<in> set pre. py_space c"
    and post: "\<forall>c \<in> set post. py_space c" by (rule py_strip_parts)
  obtain tail where tail: "policy_text content v_doc = content @ tail" "tail = [] \<or> hd tail = CHR 0x0A" by (rule policy_text_parts)
  have newline: "py_space (CHR 0x0A)" by (simp add: py_space_def)
  have "pre = [] \<or> py_space (last pre)" using pre by (cases pre rule: rev_cases) auto
  moreover have "post @ tail = [] \<or> py_space (hd (post @ tail))" using post tail(2) newline by (cases post) auto
  ultimately have "detect_memory_sensitivity (pre @ py_strip content @ post @ tail) = SENSITIVE"
    by (rule sensitive_frame [OF sensitive])
  moreover have "pre @ py_strip content @ post @ tail = policy_text content v_doc" using parts tail(1) by (metis append_assoc)
  ultimately show False using assms by simp
qed

end
