(* ===== verification/Memory_Service.thy ===== *)
theory Memory_Service
  imports Memory_Policy
begin

text \<open>
  The long-term memory of a user: settings, suggestions and memories (\<open>memory/service.py\<close>,
  \<open>memory/models.py\<close>) and the recall boundary of the assistant (\<open>memory/runtime.py\<close>). The columns
  \<open>value_json\<close> and \<open>namespace_json\<close> are the documents they render; a status, category or
  sensitivity column is the enum whose value it holds. Identifiers and keys drawn from \<open>uuid4\<close> are
  arguments, and one \<open>now\<close> stands for the clock readings of a call. Operations that sweep the user's
  expired suggestions commit the sweep, so it survives an error they raise later.
\<close>

section \<open>Tables\<close>

datatype MemoryStatus = ACTIVE | INACTIVE | DELETED

datatype MemorySuggestionStatus = PENDING | CONFIRMED | REJECTED | EXPIRED

record UserMemorySettingsModel =
  us_id :: ident
  us_user_id :: ident
  us_enabled :: bool
  us_created_at :: time
  us_updated_at :: time

record UserMemoryModel =
  um_id :: ident
  um_user_id :: ident
  um_namespace :: "string list"
  um_key :: string
  um_category :: MemoryCategory
  um_content :: string
  um_value :: dict
  um_status :: MemoryStatus
  um_sensitivity :: MemorySensitivity
  um_provenance_type :: MemoryProvenanceType
  um_source :: memory_source
  um_created_at :: time
  um_updated_at :: time
  um_deactivated_at :: "time option"
  um_deleted_at :: "time option"
  um_stale_at :: "time option"
  um_stale_reason :: "string option"

record MemorySuggestionModel =
  ms_id :: ident
  ms_user_id :: ident
  ms_category :: MemoryCategory
  ms_content :: string
  ms_value :: dict
  ms_status :: MemorySuggestionStatus
  ms_sensitivity :: MemorySensitivity
  ms_source :: memory_source
  ms_expires_at :: time
  ms_created_at :: time
  ms_updated_at :: time
  ms_decided_at :: "time option"
  ms_memory_id :: "ident option"

record memory_db =
  memory_settings :: "UserMemorySettingsModel list"
  user_memories :: "UserMemoryModel list"
  memory_suggestions :: "MemorySuggestionModel list"

datatype memory_error =
    MemoryDisabledError | MemoryNotFoundError | MemoryPolicyError string | MemorySuggestionNotFoundError
  | MemorySuggestionUnavailableError string | MemoryValueError string

definition DEFAULT_SUGGESTION_TTL :: time where
  "DEFAULT_SUGGESTION_TTL = days 7"

section \<open>Suggestions that run out\<close>

definition scrubbed_document :: "string \<Rightarrow> MemoryCategory \<Rightarrow> memory_source \<Rightarrow> dict" where
  "scrubbed_document reason category source =
     [(''scrubbed'', JBool True), (''scrubbed_reason'', JString reason), (''category'', JString (memory_category_value category)),
      (''provenance'', provenance_document (provenance_value ASSISTANT_SUGGESTED) source)]"

definition scrub_suggestion_content :: "string \<Rightarrow> MemorySuggestionModel \<Rightarrow> MemorySuggestionModel" where
  "scrub_suggestion_content reason s =
     s\<lparr>ms_content := '''', ms_value := scrubbed_document reason (ms_category s) (ms_source s)\<rparr>"

definition expire_suggestion :: "time \<Rightarrow> MemorySuggestionModel \<Rightarrow> MemorySuggestionModel" where
  "expire_suggestion now s = scrub_suggestion_content ''expired''
     (s\<lparr>ms_status := EXPIRED, ms_decided_at := Some now, ms_updated_at := now\<rparr>)"

definition suggestion_due :: "ident option \<Rightarrow> time \<Rightarrow> MemorySuggestionModel \<Rightarrow> bool" where
  "suggestion_due user_id now s \<longleftrightarrow>
     ms_status s = PENDING \<and> (case user_id of None \<Rightarrow> True | Some u \<Rightarrow> ms_user_id s = u) \<and> ms_expires_at s \<le> now"

definition expire_pending_suggestions :: "ident option \<Rightarrow> time \<Rightarrow> memory_db \<Rightarrow> nat \<times> memory_db" where
  "expire_pending_suggestions user_id now db =
     (rowcount (suggestion_due user_id now) (memory_suggestions db),
      db\<lparr>memory_suggestions := update_where (suggestion_due user_id now) (expire_suggestion now) (memory_suggestions db)\<rparr>)"

definition expire_user_pending_suggestions :: "ident \<Rightarrow> time \<Rightarrow> memory_db \<Rightarrow> memory_db" where
  "expire_user_pending_suggestions user_id now db = snd (expire_pending_suggestions (Some user_id) now db)"

section \<open>Settings\<close>

definition get_settings :: "ident \<Rightarrow> memory_db \<Rightarrow> UserMemorySettingsModel option" where
  "get_settings user_id db = scalar (\<lambda>s. us_user_id s = user_id) (memory_settings db)"

definition memory_enabled :: "ident \<Rightarrow> memory_db \<Rightarrow> bool" where
  "memory_enabled user_id db = (case get_settings user_id db of None \<Rightarrow> False | Some s \<Rightarrow> us_enabled s)"

definition get_or_create_settings :: "ident \<Rightarrow> time \<Rightarrow> ident \<Rightarrow> memory_db \<Rightarrow> UserMemorySettingsModel \<times> memory_db" where
  "get_or_create_settings new_id now user_id db =
     (let db = expire_user_pending_suggestions user_id now db
      in case get_settings user_id db of
           Some s \<Rightarrow> (s, db)
         | None \<Rightarrow>
             let s = \<lparr>us_id = new_id, us_user_id = user_id, us_enabled = False, us_created_at = now, us_updated_at = now\<rparr>
             in (s, db\<lparr>memory_settings := insert_row s (memory_settings db)\<rparr>))"

definition set_enabled :: "ident \<Rightarrow> time \<Rightarrow> ident \<Rightarrow> bool \<Rightarrow> memory_db \<Rightarrow> UserMemorySettingsModel \<times> memory_db" where
  "set_enabled new_id now user_id enabled db =
     (let db = expire_user_pending_suggestions user_id now db;
          (settings, db) = get_or_create_settings new_id now user_id db;
          patch = (\<lambda>s. s\<lparr>us_enabled := enabled, us_updated_at := now\<rparr>)
      in (patch settings,
          db\<lparr>memory_settings := update_where (\<lambda>s. us_id s = us_id settings) patch (memory_settings db)\<rparr>))"

section \<open>Writing memories\<close>

definition MEMORY_NAMESPACE_KIND :: string where
  "MEMORY_NAMESPACE_KIND = ''memories''"

definition user_memory_namespace :: "ident \<Rightarrow> MemoryCategory \<Rightarrow> string list" where
  "user_memory_namespace user_id category = [user_id, MEMORY_NAMESPACE_KIND, memory_category_value category]"

record memory_fresh =
  mf_id :: ident
  mf_key :: string

definition new_memory ::
  "memory_fresh \<Rightarrow> time \<Rightarrow> ident \<Rightarrow> string \<Rightarrow> MemoryCategory \<Rightarrow> MemoryProvenanceType \<Rightarrow> MemorySensitivity
    \<Rightarrow> dict option \<Rightarrow> memory_source \<Rightarrow> UserMemoryModel" where
  "new_memory fresh now user_id content category provenance_type sensitivity v_doc source =
     \<lparr>um_id = mf_id fresh, um_user_id = user_id, um_namespace = user_memory_namespace user_id category,
      um_key = mf_key fresh, um_category = category, um_content = content,
      um_value = memory_value_document content (memory_category_value category) (provenance_value provenance_type)
                   (sensitivity_value sensitivity) v_doc source,
      um_status = ACTIVE, um_sensitivity = sensitivity, um_provenance_type = provenance_type, um_source = source,
      um_created_at = now, um_updated_at = now, um_deactivated_at = None, um_deleted_at = None,
      um_stale_at = None, um_stale_reason = None\<rparr>"

definition store_memory_after_policy ::
  "memory_fresh \<Rightarrow> time \<Rightarrow> ident \<Rightarrow> string \<Rightarrow> MemoryCategory \<Rightarrow> MemoryProvenanceType \<Rightarrow> MemorySensitivity
    \<Rightarrow> dict option \<Rightarrow> memory_source \<Rightarrow> memory_db \<Rightarrow> (memory_error, UserMemoryModel \<times> memory_db) res" where
  "store_memory_after_policy fresh now user_id content category provenance_type sensitivity v_doc source db =
     (let normalized = py_strip content
      in if normalized = '''' then Inl (MemoryValueError ''memory content must not be blank'')
         else if \<not> memory_enabled user_id db then Inl MemoryDisabledError
         else let memory = new_memory fresh now user_id normalized category provenance_type sensitivity v_doc source
              in Inr (memory, db\<lparr>user_memories := insert_row memory (user_memories db)\<rparr>))"

text \<open>
  The outcome of a call that swept the suggestions first: an error keeps the sweep. A category is a
  string, and one that is no \<open>MemoryCategory\<close> raises.
\<close>

definition after_sweep :: "('e, 'v \<times> memory_db) res \<Rightarrow> memory_db \<Rightarrow> ('e, 'v) res \<times> memory_db" where
  "after_sweep r db = (case r of Inl e \<Rightarrow> (Inl e, db) | Inr (v, db') \<Rightarrow> (Inr v, db'))"

definition category_error :: memory_error where
  "category_error = MemoryValueError ''not a valid MemoryCategory''"

definition store_explicit_memory ::
  "memory_fresh \<Rightarrow> time \<Rightarrow> ident \<Rightarrow> string \<Rightarrow> string \<Rightarrow> dict option \<Rightarrow> memory_source \<Rightarrow> memory_db
    \<Rightarrow> (memory_error, UserMemoryModel) res \<times> memory_db" where
  "store_explicit_memory fresh now user_id content category v_doc source db =
     (let db = expire_user_pending_suggestions user_id now db
      in case parse_memory_category category of
           None \<Rightarrow> (Inl category_error, db)
         | Some c \<Rightarrow>
             let policy = evaluate_memory_write (policy_text content v_doc) c EXPLICIT_WRITE (src_document_id source)
             in if pr_decision policy \<noteq> ALLOW then (Inl (MemoryPolicyError (pr_reason policy)), db)
                else after_sweep (store_memory_after_policy fresh now user_id content (pr_category policy)
                       (pr_provenance_type policy) (pr_sensitivity policy) v_doc source db) db)"

definition auto_store_memory ::
  "memory_fresh \<Rightarrow> time \<Rightarrow> ident \<Rightarrow> string \<Rightarrow> string \<Rightarrow> dict option \<Rightarrow> memory_source \<Rightarrow> memory_db
    \<Rightarrow> (memory_error, UserMemoryModel option) res \<times> memory_db" where
  "auto_store_memory fresh now user_id content category v_doc source db =
     (let db = expire_user_pending_suggestions user_id now db
      in if \<not> memory_enabled user_id db then (Inr None, db)
         else case parse_memory_category category of
           None \<Rightarrow> (Inl category_error, db)
         | Some c \<Rightarrow>
             let policy = evaluate_memory_write (policy_text content v_doc) c AUTO_STORE (src_document_id source)
             in if pr_decision policy \<noteq> ALLOW then (Inr None, db)
                else after_sweep (map_sum id (apfst Some) (store_memory_after_policy fresh now user_id content
                       (pr_category policy) (pr_provenance_type policy) (pr_sensitivity policy) v_doc source db)) db)"

definition new_suggestion ::
  "ident \<Rightarrow> time \<Rightarrow> ident \<Rightarrow> string \<Rightarrow> MemoryWritePolicyResult \<Rightarrow> dict option \<Rightarrow> memory_source \<Rightarrow> time option
    \<Rightarrow> MemorySuggestionModel" where
  "new_suggestion new_id now user_id content policy v_doc source expires_at =
     \<lparr>ms_id = new_id, ms_user_id = user_id, ms_category = pr_category policy, ms_content = content,
      ms_value = memory_value_document content (memory_category_value (pr_category policy))
                   (provenance_value ASSISTANT_SUGGESTED) (sensitivity_value (pr_sensitivity policy)) v_doc source,
      ms_status = PENDING, ms_sensitivity = pr_sensitivity policy, ms_source = source,
      ms_expires_at = (case expires_at of None \<Rightarrow> now + DEFAULT_SUGGESTION_TTL | Some t \<Rightarrow> t),
      ms_created_at = now, ms_updated_at = now, ms_decided_at = None, ms_memory_id = None\<rparr>"

definition create_memory_suggestion ::
  "ident \<Rightarrow> time \<Rightarrow> ident \<Rightarrow> string \<Rightarrow> string \<Rightarrow> dict option \<Rightarrow> memory_source \<Rightarrow> time option \<Rightarrow> memory_db
    \<Rightarrow> (memory_error, MemorySuggestionModel) res \<times> memory_db" where
  "create_memory_suggestion new_id now user_id content category v_doc source expires_at db =
     (let db = expire_user_pending_suggestions user_id now db
      in if \<not> memory_enabled user_id db then (Inl MemoryDisabledError, db)
         else case parse_memory_category category of
           None \<Rightarrow> (Inl category_error, db)
         | Some c \<Rightarrow>
             let policy = evaluate_memory_write (policy_text content v_doc) c SUGGEST_CONFIRM (src_document_id source);
                 normalized = py_strip content
             in if pr_decision policy \<noteq> ALLOW then (Inl (MemoryPolicyError (pr_reason policy)), db)
                else if normalized = '''' then (Inl (MemoryValueError ''memory suggestion content must not be blank''), db)
                else let s = new_suggestion new_id now user_id normalized policy v_doc source expires_at
                     in (Inr s, db\<lparr>memory_suggestions := insert_row s (memory_suggestions db)\<rparr>))"

section \<open>Deciding suggestions\<close>

definition pending_suggestion_for_user :: "ident \<Rightarrow> ident \<Rightarrow> memory_db \<Rightarrow> (memory_error, MemorySuggestionModel) res" where
  "pending_suggestion_for_user user_id suggestion_id db =
     (case get_row ms_id suggestion_id (memory_suggestions db) of
        None \<Rightarrow> Inl MemorySuggestionNotFoundError
      | Some s \<Rightarrow>
          if ms_user_id s \<noteq> user_id then Inl MemorySuggestionNotFoundError
          else if ms_status s \<noteq> PENDING then Inl (MemorySuggestionUnavailableError ''memory suggestion is not pending'')
          else Inr s)"

definition write_suggestion :: "ident \<Rightarrow> (MemorySuggestionModel \<Rightarrow> MemorySuggestionModel) \<Rightarrow> memory_db \<Rightarrow> memory_db" where
  "write_suggestion suggestion_id f db =
     db\<lparr>memory_suggestions := update_where (\<lambda>s. ms_id s = suggestion_id) f (memory_suggestions db)\<rparr>"

definition confirm_suggestion :: "time \<Rightarrow> ident \<Rightarrow> MemorySuggestionModel \<Rightarrow> MemorySuggestionModel" where
  "confirm_suggestion now memory_id s = scrub_suggestion_content ''confirmed''
     (s\<lparr>ms_status := CONFIRMED, ms_decided_at := Some now, ms_updated_at := now, ms_memory_id := Some memory_id\<rparr>)"

definition confirm_memory_suggestion ::
  "memory_fresh \<Rightarrow> time \<Rightarrow> ident \<Rightarrow> ident \<Rightarrow> memory_db \<Rightarrow> (memory_error, UserMemoryModel) res \<times> memory_db" where
  "confirm_memory_suggestion fresh now user_id suggestion_id db =
     (case pending_suggestion_for_user user_id suggestion_id db of
        Inl e \<Rightarrow> (Inl e, db)
      | Inr s \<Rightarrow>
          if ms_expires_at s \<le> now
          then (Inl (MemorySuggestionUnavailableError ''memory suggestion expired''),
                write_suggestion suggestion_id (expire_suggestion now) db)
          else if \<not> memory_enabled user_id db then (Inl MemoryDisabledError, db)
          else (case store_memory_after_policy fresh now user_id (ms_content s) (ms_category s) ASSISTANT_SUGGESTED
                       (ms_sensitivity s) (Some (ms_value s)) (ms_source s) db of
                  Inl e \<Rightarrow> (Inl e, db)
                | Inr (memory, db1) \<Rightarrow> (Inr memory, write_suggestion suggestion_id (confirm_suggestion now (um_id memory)) db1)))"

definition reject_suggestion :: "time \<Rightarrow> MemorySuggestionModel \<Rightarrow> MemorySuggestionModel" where
  "reject_suggestion now s = scrub_suggestion_content ''rejected''
     (s\<lparr>ms_status := REJECTED, ms_decided_at := Some now, ms_updated_at := now\<rparr>)"

definition reject_memory_suggestion ::
  "time \<Rightarrow> ident \<Rightarrow> ident \<Rightarrow> memory_db \<Rightarrow> (memory_error, MemorySuggestionModel) res \<times> memory_db" where
  "reject_memory_suggestion now user_id suggestion_id db =
     (case pending_suggestion_for_user user_id suggestion_id db of
        Inl e \<Rightarrow> (Inl e, db)
      | Inr s \<Rightarrow>
          if ms_expires_at s \<le> now
          then (Inl (MemorySuggestionUnavailableError ''memory suggestion expired''),
                write_suggestion suggestion_id (expire_suggestion now) db)
          else (Inr (reject_suggestion now s), write_suggestion suggestion_id (reject_suggestion now) db))"

section \<open>Reading\<close>

definition list_memory_suggestions :: "time \<Rightarrow> ident \<Rightarrow> bool \<Rightarrow> memory_db \<Rightarrow> MemorySuggestionModel list \<times> memory_db" where
  "list_memory_suggestions now user_id include_decided db =
     (let db = expire_user_pending_suggestions user_id now db;
          statuses = [PENDING] @ (if include_decided then [CONFIRMED, REJECTED, EXPIRED] else [])
      in (rev (sort_key (\<lambda>s. (ms_created_at s, ms_id s))
            (scalars (\<lambda>s. ms_user_id s = user_id \<and> ms_status s \<in> set statuses) (memory_suggestions db))), db))"

definition list_memories :: "time \<Rightarrow> ident \<Rightarrow> bool \<Rightarrow> bool \<Rightarrow> memory_db \<Rightarrow> UserMemoryModel list \<times> memory_db" where
  "list_memories now user_id include_inactive include_deleted db =
     (let db = expire_user_pending_suggestions user_id now db;
          statuses = [ACTIVE] @ (if include_inactive then [INACTIVE] else []) @ (if include_deleted then [DELETED] else [])
      in (rev (sort_key (\<lambda>m. (um_created_at m, um_id m))
            (scalars (\<lambda>m. um_user_id m = user_id \<and> um_status m \<in> set statuses) (user_memories db))), db))"

text \<open>The tokens of a text: word characters, four or more in a row.\<close>

definition token_point :: "string \<Rightarrow> bool" where
  "token_point g \<longleftrightarrow> word_point g \<or> g = ''_''"

definition meaningful_tokens :: "string \<Rightarrow> string set" where
  "meaningful_tokens s = set (map concat (filter (\<lambda>r. 4 \<le> length r) (runs token_point (code_points (py_casefold s)))))"

definition memory_relevant :: "UserMemoryModel \<Rightarrow> string set \<Rightarrow> bool" where
  "memory_relevant memory query_tokens \<longleftrightarrow>
     (if um_category memory = STABLE_PREFERENCE then has_preference_shape (um_content memory)
      else query_tokens \<noteq> {}
        \<and> query_tokens \<inter> meaningful_tokens (memory_category_value (um_category memory) @ '' '' @ um_content memory) \<noteq> {})"

text \<open>The rows the queries for the provider's context select.\<close>

definition provider_row :: "UserMemoryModel \<Rightarrow> bool" where
  "provider_row m \<longleftrightarrow> um_status m = ACTIVE \<and> um_sensitivity m = NON_SENSITIVE \<and> um_stale_at m = None"

definition active_memories_for_context ::
  "time \<Rightarrow> ident \<Rightarrow> MemoryCategory list \<Rightarrow> string \<Rightarrow> nat \<Rightarrow> memory_db \<Rightarrow> UserMemoryModel list \<times> memory_db" where
  "active_memories_for_context now user_id categories query limit db =
     (let db = expire_user_pending_suggestions user_id now db
      in if \<not> memory_enabled user_id db then ([], db)
         else let rows = scalars (\<lambda>m. um_user_id m = user_id \<and> provider_row m
                       \<and> (categories = [] \<or> um_category m \<in> set categories)) (user_memories db);
                  candidates = take (max (limit * 4) limit) (rev (sort_key (\<lambda>m. (um_updated_at m, um_id m)) rows));
                  query_tokens = meaningful_tokens query
              in (take limit (filter (\<lambda>m. memory_relevant m query_tokens) candidates), db))"

definition eligible_memories_for_store :: "ident option \<Rightarrow> memory_db \<Rightarrow> UserMemoryModel list" where
  "eligible_memories_for_store user_id db =
     sort_key (\<lambda>m. (um_user_id m, um_key m))
       (scalars (\<lambda>m. provider_row m \<and> um_user_id m \<in> us_user_id ` set (scalars us_enabled (memory_settings db))
          \<and> (case user_id of None \<Rightarrow> True | Some u \<Rightarrow> um_user_id m = u)) (user_memories db))"

definition active_memories_by_ids_for_context :: "ident \<Rightarrow> ident list \<Rightarrow> memory_db \<Rightarrow> UserMemoryModel list" where
  "active_memories_by_ids_for_context user_id memory_ids db =
     (if memory_ids = [] \<or> \<not> memory_enabled user_id db then []
      else let rows = scalars (\<lambda>m. um_user_id m = user_id \<and> um_id m \<in> set memory_ids \<and> provider_row m) (user_memories db)
           in List.map_filter (\<lambda>i. get_row um_id i rows) memory_ids)"

section \<open>Ending memories\<close>

definition memory_for_user :: "ident \<Rightarrow> ident \<Rightarrow> memory_db \<Rightarrow> (memory_error, UserMemoryModel) res" where
  "memory_for_user user_id memory_id db =
     (case get_row um_id memory_id (user_memories db) of
        None \<Rightarrow> Inl MemoryNotFoundError
      | Some m \<Rightarrow> if um_user_id m \<noteq> user_id then Inl MemoryNotFoundError else Inr m)"

definition write_memory :: "ident \<Rightarrow> (UserMemoryModel \<Rightarrow> UserMemoryModel) \<Rightarrow> memory_db \<Rightarrow> memory_db" where
  "write_memory memory_id f db = db\<lparr>user_memories := update_where (\<lambda>m. um_id m = memory_id) f (user_memories db)\<rparr>"

definition deactivate_row :: "time \<Rightarrow> UserMemoryModel \<Rightarrow> UserMemoryModel" where
  "deactivate_row now m = m\<lparr>um_status := INACTIVE, um_deactivated_at := Some now, um_updated_at := now\<rparr>"

definition deactivate_memory :: "time \<Rightarrow> ident \<Rightarrow> ident \<Rightarrow> memory_db \<Rightarrow> (memory_error, UserMemoryModel) res \<times> memory_db" where
  "deactivate_memory now user_id memory_id db =
     (let db = expire_user_pending_suggestions user_id now db
      in case memory_for_user user_id memory_id db of
           Inl e \<Rightarrow> (Inl e, db)
         | Inr m \<Rightarrow>
             if um_status m = DELETED then (Inl MemoryNotFoundError, db)
             else (Inr (deactivate_row now m), write_memory memory_id (deactivate_row now) db))"

definition deleted_document :: "string \<Rightarrow> UserMemoryModel \<Rightarrow> dict" where
  "deleted_document deleted_at m =
     [(''deleted'', JBool True), (''deleted_at'', JString deleted_at),
      (''category'', JString (memory_category_value (um_category m))),
      (''provenance'', provenance_document (provenance_value (um_provenance_type m)) (um_source m))]"

definition delete_row :: "(time \<Rightarrow> string) \<Rightarrow> time \<Rightarrow> UserMemoryModel \<Rightarrow> UserMemoryModel" where
  "delete_row isoformat now m =
     m\<lparr>um_status := DELETED, um_content := '''', um_value := deleted_document (isoformat now) m,
       um_deleted_at := Some now, um_updated_at := now\<rparr>"

text \<open>The suggestions that became the memory are scrubbed again, which touches their \<open>updated_at\<close>.\<close>

definition delete_memory ::
  "(time \<Rightarrow> string) \<Rightarrow> time \<Rightarrow> ident \<Rightarrow> ident \<Rightarrow> memory_db \<Rightarrow> (memory_error, unit) res \<times> memory_db" where
  "delete_memory isoformat now user_id memory_id db =
     (let db = expire_user_pending_suggestions user_id now db
      in case memory_for_user user_id memory_id db of
           Inl e \<Rightarrow> (Inl e, db)
         | Inr m \<Rightarrow>
             if um_status m = DELETED then (Inl MemoryNotFoundError, db)
             else (Inr (), (write_memory memory_id (delete_row isoformat now) db)
                \<lparr>memory_suggestions := update_where (\<lambda>s. ms_memory_id s = Some (um_id m))
                   (\<lambda>s. scrub_suggestion_content ''memory_deleted'' (s\<lparr>ms_updated_at := now\<rparr>)) (memory_suggestions db)\<rparr>))"

definition stale_row :: "time \<Rightarrow> string \<Rightarrow> UserMemoryModel \<Rightarrow> UserMemoryModel" where
  "stale_row now reason m = m\<lparr>um_stale_at := Some now, um_stale_reason := Some reason, um_updated_at := now\<rparr>"

definition mark_stale :: "time \<Rightarrow> string \<Rightarrow> (memory_source \<Rightarrow> bool) \<Rightarrow> memory_db \<Rightarrow> nat \<times> memory_db" where
  "mark_stale now reason derived db =
     (let fresh = (\<lambda>m. derived (um_source m) \<and> um_status m = ACTIVE \<and> um_stale_at m = None)
      in (rowcount fresh (user_memories db), db\<lparr>user_memories := update_where fresh (stale_row now reason) (user_memories db)\<rparr>))"

definition mark_document_memories_stale :: "time \<Rightarrow> ident \<Rightarrow> string \<Rightarrow> memory_db \<Rightarrow> nat \<times> memory_db" where
  "mark_document_memories_stale now source_document_id reason db =
     mark_stale now reason (\<lambda>src. src_document_id src = Some source_document_id) db"

definition unique_non_empty :: "string list \<Rightarrow> string list" where
  "unique_non_empty values = dict_fromkeys (filter (\<lambda>v. v \<noteq> '''') values)"

definition from_transcript :: "ident option \<Rightarrow> ident list \<Rightarrow> ident list \<Rightarrow> memory_source \<Rightarrow> bool" where
  "from_transcript conversation_id message_ids run_ids src \<longleftrightarrow>
     conversation_id \<notin> {None, Some ''''} \<and> src_conversation_id src = conversation_id
   \<or> src_message_id src \<in> Some ` set message_ids \<or> src_run_id src \<in> Some ` set run_ids"

definition mark_transcript_memories_stale ::
  "time \<Rightarrow> ident option \<Rightarrow> ident list \<Rightarrow> ident list \<Rightarrow> string \<Rightarrow> memory_db \<Rightarrow> nat \<times> memory_db" where
  "mark_transcript_memories_stale now conversation_id message_ids run_ids reason db =
     (let message_ids = unique_non_empty message_ids; run_ids = unique_non_empty run_ids
      in if conversation_id \<in> {None, Some ''''} \<and> message_ids = [] \<and> run_ids = [] then (0, db)
         else mark_stale now reason (from_transcript conversation_id message_ids run_ids) db)"

section \<open>The recall boundary\<close>

text \<open>
  \<open>store\<close> is the search of the LangGraph store: a namespace prefix, a query and a limit to the values
  of the items found. It is a parameter: what it returns is only a list of candidates.
\<close>

type_synonym store_search = "string list \<Rightarrow> string option \<Rightarrow> nat \<Rightarrow> dict list"

record MemoryRuntimeItem =
  mi_id :: ident
  mi_key :: string
  mi_category :: MemoryCategory
  mi_content :: string
  mi_provenance_type :: MemoryProvenanceType
  mi_source :: memory_source

definition memory_runtime_item_from_model :: "UserMemoryModel \<Rightarrow> MemoryRuntimeItem" where
  "memory_runtime_item_from_model m =
     \<lparr>mi_id = um_id m, mi_key = um_key m, mi_category = um_category m, mi_content = um_content m,
      mi_provenance_type = um_provenance_type m, mi_source = um_source m\<rparr>"

definition candidate_memory_id :: "MemoryCategory list \<Rightarrow> dict \<Rightarrow> ident option" where
  "candidate_memory_id categories item =
     (case map_of item ''memory_id'' of
        Some (JString i) \<Rightarrow>
          if categories = [] \<or> map_of item ''category'' \<in> (\<lambda>c. Some (JString (memory_category_value c))) ` set categories
          then Some i else None
      | _ \<Rightarrow> None)"

definition memory_search ::
  "store_search option \<Rightarrow> time \<Rightarrow> ident \<Rightarrow> string \<Rightarrow> MemoryCategory list \<Rightarrow> nat \<Rightarrow> memory_db
    \<Rightarrow> MemoryRuntimeItem list \<times> memory_db" where
  "memory_search store now user_id query categories limit db =
     (case store of
        Some store \<Rightarrow>
          let items = store [user_id, MEMORY_NAMESPACE_KIND] (if query = '''' then None else Some query) (max (limit * 4) limit);
              memory_ids = List.map_filter (candidate_memory_id categories) items
          in (map memory_runtime_item_from_model (take limit (active_memories_by_ids_for_context user_id memory_ids db)), db)
      | None \<Rightarrow> apfst (map memory_runtime_item_from_model)
                 (active_memories_for_context now user_id categories query limit db))"

section \<open>Steps\<close>

definition fresh_memory :: "memory_fresh \<Rightarrow> memory_db \<Rightarrow> bool" where
  "fresh_memory fresh db \<longleftrightarrow> mf_id fresh \<notin> um_id ` set (user_memories db) \<and> mf_key fresh \<notin> um_key ` set (user_memories db)"

definition fresh_suggestion :: "ident \<Rightarrow> memory_db \<Rightarrow> bool" where
  "fresh_suggestion i db \<longleftrightarrow> i \<notin> ms_id ` set (memory_suggestions db)"

definition fresh_settings :: "ident \<Rightarrow> memory_db \<Rightarrow> bool" where
  "fresh_settings i db \<longleftrightarrow> i \<notin> us_id ` set (memory_settings db)"

text \<open>What a user's calls do, and what the system does on its own.\<close>

inductive user_step :: "ident \<Rightarrow> memory_db \<Rightarrow> memory_db \<Rightarrow> bool" for u :: ident where
  get_settings: "fresh_settings i db \<Longrightarrow> user_step u db (snd (get_or_create_settings i now u db))"
| patch_settings: "fresh_settings i db \<Longrightarrow> user_step u db (snd (set_enabled i now u enabled db))"
| store_explicit: "fresh_memory fresh db \<Longrightarrow> user_step u db (snd (store_explicit_memory fresh now u content category v_doc source db))"
| auto_store: "fresh_memory fresh db \<Longrightarrow> user_step u db (snd (auto_store_memory fresh now u content category v_doc source db))"
| suggest: "fresh_suggestion i db \<Longrightarrow> user_step u db (snd (create_memory_suggestion i now u content category v_doc source expires_at db))"
| confirm: "fresh_memory fresh db \<Longrightarrow> user_step u db (snd (confirm_memory_suggestion fresh now u i db))"
| reject: "user_step u db (snd (reject_memory_suggestion now u i db))"
| list_suggestions: "user_step u db (snd (list_memory_suggestions now u decided db))"
| list_rows: "user_step u db (snd (list_memories now u inactive deleted db))"
| recall: "user_step u db (snd (memory_search store now u query categories limit db))"
| deactivate: "user_step u db (snd (deactivate_memory now u i db))"
| delete: "user_step u db (snd (delete_memory isoformat now u i db))"

inductive memory_step :: "memory_db \<Rightarrow> memory_db \<Rightarrow> bool" where
  user: "user_step u db db' \<Longrightarrow> memory_step db db'"
| sweep: "memory_step db (snd (expire_pending_suggestions user_id now db))"
| document_gone: "memory_step db (snd (mark_document_memories_stale now d reason db))"
| transcript_gone: "memory_step db (snd (mark_transcript_memories_stale now conv ms rs reason db))"

definition empty_memory :: "memory_db \<Rightarrow> bool" where
  "empty_memory db \<longleftrightarrow> db = \<lparr>memory_settings = [], user_memories = [], memory_suggestions = []\<rparr>"

section \<open>The invariant\<close>

text \<open>
  A live memory and a pending suggestion hold a text the policy accepts, and their document holds the
  same text; a deleted memory and a decided suggestion hold none, in either column.
\<close>

definition accepted_text :: "string \<Rightarrow> dict \<Rightarrow> bool" where
  "accepted_text content v_doc \<longleftrightarrow> content \<noteq> '''' \<and> py_strip content = content
     \<and> detect_memory_sensitivity content = NON_SENSITIVE \<and> map_of v_doc ''content'' = Some (JString content)"

definition memory_row_ok :: "UserMemoryModel \<Rightarrow> bool" where
  "memory_row_ok m \<longleftrightarrow>
     um_sensitivity m = NON_SENSITIVE \<and> um_namespace m = user_memory_namespace (um_user_id m) (um_category m)
   \<and> (if um_status m = DELETED
      then um_content m = '''' \<and> um_deleted_at m \<noteq> None \<and> (\<exists>t. um_value m = deleted_document t m)
      else um_deleted_at m = None \<and> accepted_text (um_content m) (um_value m))"

definition suggestion_row_ok :: "MemorySuggestionModel \<Rightarrow> bool" where
  "suggestion_row_ok s \<longleftrightarrow>
     ms_sensitivity s = NON_SENSITIVE \<and> (ms_memory_id s \<noteq> None) = (ms_status s = CONFIRMED)
   \<and> (if ms_status s = PENDING
      then ms_decided_at s = None \<and> accepted_text (ms_content s) (ms_value s)
      else ms_content s = '''' \<and> ms_decided_at s \<noteq> None
         \<and> (\<exists>reason. ms_value s = scrubbed_document reason (ms_category s) (ms_source s)))"

definition suggestion_linked :: "UserMemoryModel list \<Rightarrow> MemorySuggestionModel \<Rightarrow> bool" where
  "suggestion_linked ms s \<longleftrightarrow>
     (case ms_memory_id s of None \<Rightarrow> True | Some i \<Rightarrow> \<exists>m \<in> set ms. um_id m = i \<and> um_user_id m = ms_user_id s)"

definition memory_sound :: "memory_db \<Rightarrow> bool" where
  "memory_sound db \<longleftrightarrow>
     unique_on us_id (memory_settings db) \<and> unique_on us_user_id (memory_settings db)
   \<and> unique_on um_id (user_memories db) \<and> unique_on um_key (user_memories db)
   \<and> unique_on ms_id (memory_suggestions db)
   \<and> (\<forall>m \<in> set (user_memories db). memory_row_ok m)
   \<and> (\<forall>s \<in> set (memory_suggestions db). suggestion_row_ok s \<and> suggestion_linked (user_memories db) s)"

section \<open>The operations keep the invariant\<close>

lemma soundI_suggestions:
  assumes "memory_sound db"
    and "\<And>s. s \<in> set (memory_suggestions db) \<Longrightarrow> p s \<Longrightarrow>
      ms_id (f s) = ms_id s \<and> suggestion_row_ok (f s) \<and> suggestion_linked (user_memories db) (f s)"
  shows "memory_sound (db\<lparr>memory_suggestions := update_where p f (memory_suggestions db)\<rparr>)"
proof -
  have "map ms_id (update_where p f (memory_suggestions db)) = map ms_id (memory_suggestions db)"
    using assms(2) by (simp add: update_where_def)
  then show ?thesis using assms by (auto simp: memory_sound_def set_update_where unique_on_def)
qed

lemma soundI_memories:
  assumes "memory_sound db"
    and "\<And>m. m \<in> set (user_memories db) \<Longrightarrow> p m \<Longrightarrow>
      um_id (f m) = um_id m \<and> um_key (f m) = um_key m \<and> um_user_id (f m) = um_user_id m \<and> memory_row_ok (f m)"
  shows "memory_sound (db\<lparr>user_memories := update_where p f (user_memories db)\<rparr>)"
proof -
  let ?ms = "update_where p f (user_memories db)"
  have keep: "map um_id ?ms = map um_id (user_memories db)" "map um_key ?ms = map um_key (user_memories db)"
    using assms(2) by (simp_all add: update_where_def)
  have linked: "suggestion_linked ?ms s" if s: "suggestion_linked (user_memories db) s" for s
  proof (cases "ms_memory_id s")
    case (Some i)
    then obtain m where m: "m \<in> set (user_memories db)" "um_id m = i" "um_user_id m = ms_user_id s"
      using s by (auto simp: suggestion_linked_def)
    moreover have "(if p m then f m else m) \<in> set ?ms" by (rule update_where_mem [OF m(1)])
    ultimately show ?thesis using Some assms(2) [OF m(1)] unfolding suggestion_linked_def by (auto split: if_splits)
  qed (simp add: suggestion_linked_def)
  show ?thesis using assms keep linked by (auto simp: memory_sound_def set_update_where unique_on_def)
qed

lemma sound_insert_memory:
  assumes "memory_sound db" and "memory_row_ok m"
    and "um_id m \<notin> um_id ` set (user_memories db)" and "um_key m \<notin> um_key ` set (user_memories db)"
  shows "memory_sound (db\<lparr>user_memories := insert_row m (user_memories db)\<rparr>)"
  using assms by (auto simp: memory_sound_def suggestion_linked_def split: option.splits)

lemma sound_insert_suggestion:
  assumes "memory_sound db" and "suggestion_row_ok s" and "ms_memory_id s = None" and "fresh_suggestion (ms_id s) db"
  shows "memory_sound (db\<lparr>memory_suggestions := insert_row s (memory_suggestions db)\<rparr>)"
  using assms by (simp add: memory_sound_def suggestion_linked_def fresh_suggestion_def)

lemma decided_row_ok:
  assumes "suggestion_row_ok s" and "ms_status s = PENDING"
  shows "suggestion_row_ok (expire_suggestion now s)" and "suggestion_row_ok (reject_suggestion now s)"
    and "suggestion_row_ok (confirm_suggestion now i s)"
  using assms
  by (simp_all add: suggestion_row_ok_def expire_suggestion_def reject_suggestion_def confirm_suggestion_def scrub_suggestion_content_def)
    blast+

lemma decided_links:
  "suggestion_linked ms (expire_suggestion now s) = suggestion_linked ms s"
  "suggestion_linked ms (reject_suggestion now s) = suggestion_linked ms s"
  by (simp_all add: suggestion_linked_def expire_suggestion_def reject_suggestion_def scrub_suggestion_content_def split: option.split)

lemma decided_ids [simp]:
  "ms_id (expire_suggestion now s) = ms_id s" "ms_id (reject_suggestion now s) = ms_id s"
  "ms_id (confirm_suggestion now i s) = ms_id s" "ms_id (scrub_suggestion_content reason s) = ms_id s"
  "ms_user_id (expire_suggestion now s) = ms_user_id s" "ms_user_id (reject_suggestion now s) = ms_user_id s"
  "ms_user_id (confirm_suggestion now i s) = ms_user_id s" "ms_user_id (scrub_suggestion_content reason s) = ms_user_id s"
  by (simp_all add: expire_suggestion_def reject_suggestion_def confirm_suggestion_def scrub_suggestion_content_def)

lemma sound_expire: "memory_sound db \<Longrightarrow> memory_sound (snd (expire_pending_suggestions user_id now db))"
  unfolding expire_pending_suggestions_def snd_conv
  by (rule soundI_suggestions) (auto simp: memory_sound_def suggestion_due_def decided_row_ok decided_links)

lemma sound_sweep: "memory_sound db \<Longrightarrow> memory_sound (expire_user_pending_suggestions u now db)"
  unfolding expire_user_pending_suggestions_def by (rule sound_expire)

lemma sweep_frame [simp]:
  "user_memories (expire_user_pending_suggestions u now db) = user_memories db"
  "memory_settings (expire_user_pending_suggestions u now db) = memory_settings db"
  "fresh_suggestion i (expire_user_pending_suggestions u now db) = fresh_suggestion i db"
  "fresh_memory fresh (expire_user_pending_suggestions u now db) = fresh_memory fresh db"
  "fresh_settings i (expire_user_pending_suggestions u now db) = fresh_settings i db"
  by (simp_all add: expire_user_pending_suggestions_def expire_pending_suggestions_def fresh_suggestion_def
      fresh_memory_def fresh_settings_def image_update_where)

lemma allowed_is_acceptable:
  assumes "pr_decision (evaluate_memory_write body c mode d) = ALLOW"
  shows "detect_memory_sensitivity body = NON_SENSITIVE" and "pr_sensitivity (evaluate_memory_write body c mode d) = NON_SENSITIVE"
    and "pr_category (evaluate_memory_write body c mode d) = c"
proof -
  show *: "detect_memory_sensitivity body = NON_SENSITIVE"
    using assms by (cases "detect_memory_sensitivity body") (simp_all add: evaluate_memory_write_def Let_def)
  show "pr_sensitivity (evaluate_memory_write body c mode d) = NON_SENSITIVE" "pr_category (evaluate_memory_write body c mode d) = c"
    using * by (simp_all add: evaluate_memory_write_def Let_def)
qed

lemma map_of_value_document:
  "map_of (memory_value_document content category provenance sensitivity v_doc source) ''content'' = Some (JString content)"
  by (simp add: memory_value_document_def dict_update_def AList.update_conv')

lemma accepted_new:
  assumes "detect_memory_sensitivity (policy_text content v) = NON_SENSITIVE" and "py_strip content \<noteq> ''''"
  shows "accepted_text (py_strip content) (memory_value_document (py_strip content) category provenance sensitivity v' source)"
  using assms accepted_strip [OF assms(1)] by (simp add: accepted_text_def map_of_value_document)

lemma new_memory_ok:
  assumes "accepted_text content (memory_value_document content (memory_category_value c) (provenance_value p) (sensitivity_value NON_SENSITIVE) v src)"
  shows "memory_row_ok (new_memory fresh now u content c p NON_SENSITIVE v src)"
  using assms by (simp add: memory_row_ok_def new_memory_def)

lemma new_memory_sel [simp]:
  "um_id (new_memory fresh now u content c p sens v src) = mf_id fresh"
  "um_key (new_memory fresh now u content c p sens v src) = mf_key fresh"
  "um_user_id (new_memory fresh now u content c p sens v src) = u"
  by (simp_all add: new_memory_def)

lemma store_after_policy_okE:
  assumes "store_memory_after_policy fresh now u content c p sens v src db = Inr (m, db')"
  obtains "py_strip content \<noteq> ''''" and "memory_enabled u db" and "m = new_memory fresh now u (py_strip content) c p sens v src"
    and "db' = db\<lparr>user_memories := insert_row m (user_memories db)\<rparr>"
  using assms by (auto simp: store_memory_after_policy_def Let_def split: if_splits)

lemma sound_store:
  assumes "memory_sound db" and "fresh_memory fresh db"
    and "detect_memory_sensitivity (policy_text content v) = NON_SENSITIVE"
    and "store_memory_after_policy fresh now u content c p NON_SENSITIVE v' src db = Inr (m, db')"
  shows "memory_sound db'"
  using assms(4)
proof (rule store_after_policy_okE)
  assume blank: "py_strip content \<noteq> ''''" and m: "m = new_memory fresh now u (py_strip content) c p NON_SENSITIVE v' src"
    and db': "db' = db\<lparr>user_memories := insert_row m (user_memories db)\<rparr>"
  show ?thesis unfolding db' m
    using assms(2) by (intro sound_insert_memory assms(1) new_memory_ok accepted_new [OF assms(3) blank])
      (simp_all add: fresh_memory_def)
qed

lemma settings_unique:
  assumes "memory_sound db" and "get_settings u db = None" and "fresh_settings i db"
  shows "memory_sound (db\<lparr>memory_settings := insert_row \<lparr>us_id = i, us_user_id = u, us_enabled = e, us_created_at = t, us_updated_at = t\<rparr>
           (memory_settings db)\<rparr>)"
  using assms by (auto simp: memory_sound_def get_settings_def scalar_None_iff fresh_settings_def)

lemma sound_get_or_create:
  assumes "memory_sound db" and "fresh_settings i db"
  shows "memory_sound (snd (get_or_create_settings i now u db))"
  using settings_unique [OF sound_sweep [OF assms(1)]] sound_sweep [OF assms(1)] assms(2)
  by (auto simp: get_or_create_settings_def Let_def split: option.split)

lemma sound_set_enabled:
  assumes "memory_sound db" and "fresh_settings i db"
  shows "memory_sound (snd (set_enabled i now u enabled db))"
proof -
  obtain s db' where c: "get_or_create_settings i now u (expire_user_pending_suggestions u now db) = (s, db')"
    by (rule prod.exhaust)
  have "memory_sound db'"
    using sound_get_or_create [OF sound_sweep [OF assms(1)], of i u now now u] assms(2) c by simp
  then show ?thesis
    by (simp add: set_enabled_def Let_def c memory_sound_def unique_on_update_where)
qed

lemma after_sweepI:
  assumes "P db" and "\<And>v db'. r = Inr (v, db') \<Longrightarrow> P db'"
  shows "P (snd (after_sweep r db))" and "P (snd (after_sweep (map_sum id (apfst f) r) db))"
  using assms by (cases r; auto simp: after_sweep_def)+

lemma sound_stored:
  assumes "memory_sound db" and "fresh_memory fresh db"
    and "pr_decision (evaluate_memory_write (policy_text content v) c mode d) = ALLOW"
  shows "memory_sound (snd (after_sweep (store_memory_after_policy fresh now u content c' p
           (pr_sensitivity (evaluate_memory_write (policy_text content v) c mode d)) v src db) db))"
    and "memory_sound (snd (after_sweep (map_sum id (apfst Some) (store_memory_after_policy fresh now u content c' p
           (pr_sensitivity (evaluate_memory_write (policy_text content v) c mode d)) v src db)) db))"
  using sound_store [OF assms(1,2) allowed_is_acceptable(1) [OF assms(3)]] assms(1)
  by (auto simp: allowed_is_acceptable(2) [OF assms(3)] intro: after_sweepI [where P = memory_sound])

lemma sound_store_explicit:
  assumes "memory_sound db" and "fresh_memory fresh db"
  shows "memory_sound (snd (store_explicit_memory fresh now u content category v src db))"
proof -
  let ?db = "expire_user_pending_suggestions u now db"
  have db: "memory_sound ?db" "fresh_memory fresh ?db" using assms sound_sweep by simp_all
  show ?thesis
  proof (cases "parse_memory_category category")
    case (Some c)
    define policy where "policy = evaluate_memory_write (policy_text content v) c EXPLICIT_WRITE (src_document_id src)"
    show ?thesis
    proof (cases "pr_decision policy = ALLOW")
      case True
      show ?thesis
        using db(1) True Some sound_stored [OF db True [unfolded policy_def], folded policy_def]
        by (simp add: store_explicit_memory_def Let_def policy_def [symmetric])
    qed (use db Some in \<open>simp add: store_explicit_memory_def Let_def policy_def\<close>)
  qed (use db in \<open>simp add: store_explicit_memory_def Let_def\<close>)
qed

lemma sound_auto_store:
  assumes "memory_sound db" and "fresh_memory fresh db"
  shows "memory_sound (snd (auto_store_memory fresh now u content category v src db))"
proof -
  let ?db = "expire_user_pending_suggestions u now db"
  have db: "memory_sound ?db" "fresh_memory fresh ?db" using assms sound_sweep by simp_all
  show ?thesis
  proof (cases "parse_memory_category category")
    case (Some c)
    define policy where "policy = evaluate_memory_write (policy_text content v) c AUTO_STORE (src_document_id src)"
    show ?thesis
    proof (cases "pr_decision policy = ALLOW")
      case True
      show ?thesis
        using db(1) True Some sound_stored [OF db True [unfolded policy_def], folded policy_def]
        by (simp add: auto_store_memory_def Let_def policy_def [symmetric])
    qed (use db Some in \<open>simp add: auto_store_memory_def Let_def policy_def\<close>)
  qed (use db in \<open>simp add: auto_store_memory_def Let_def\<close>)
qed

lemma new_suggestion_ok:
  assumes "accepted_text content (memory_value_document content (memory_category_value (pr_category policy))
      (provenance_value ASSISTANT_SUGGESTED) (sensitivity_value (pr_sensitivity policy)) v src)"
    and "pr_sensitivity policy = NON_SENSITIVE"
  shows "suggestion_row_ok (new_suggestion i now u content policy v src expires_at)"
  using assms by (simp add: suggestion_row_ok_def new_suggestion_def)

lemma sound_create_suggestion:
  assumes "memory_sound db" and "fresh_suggestion i db"
  shows "memory_sound (snd (create_memory_suggestion i now u content category v src expires_at db))"
proof -
  let ?db = "expire_user_pending_suggestions u now db"
  have db: "memory_sound ?db" "fresh_suggestion i ?db" using assms sound_sweep by simp_all
  show ?thesis
  proof (cases "parse_memory_category category")
    case (Some c)
    define policy where "policy = evaluate_memory_write (policy_text content v) c SUGGEST_CONFIRM (src_document_id src)"
    show ?thesis
    proof (cases "pr_decision policy = ALLOW \<and> py_strip content \<noteq> ''''")
      case True
      then have allow: "pr_decision policy = ALLOW" by simp
      note ok = allowed_is_acceptable [OF allow [unfolded policy_def], folded policy_def]
      have "suggestion_row_ok (new_suggestion i now u (py_strip content) policy v src expires_at)"
        using True by (intro new_suggestion_ok accepted_new [OF ok(1)] ok(2)) simp
      then have "memory_sound (?db\<lparr>memory_suggestions := insert_row (new_suggestion i now u (py_strip content) policy v src expires_at)
          (memory_suggestions ?db)\<rparr>)"
        using db by (intro sound_insert_suggestion) (simp_all add: new_suggestion_def)
      then show ?thesis using db True Some by (simp add: create_memory_suggestion_def Let_def policy_def)
    qed (use db Some in \<open>auto simp: create_memory_suggestion_def Let_def policy_def\<close>)
  qed (use db in \<open>simp add: create_memory_suggestion_def Let_def\<close>)
qed

lemma pending_suggestionE:
  assumes "pending_suggestion_for_user u i db = Inr s"
  obtains "s \<in> set (memory_suggestions db)" and "ms_id s = i" and "ms_user_id s = u" and "ms_status s = PENDING"
  using assms by (auto simp: pending_suggestion_for_user_def dest: get_row_SomeD split: option.splits if_splits)

lemma sound_write_suggestion:
  assumes "memory_sound db" and "s \<in> set (memory_suggestions db)"
    and "ms_id (f s) = ms_id s" and "suggestion_row_ok (f s)" and "suggestion_linked (user_memories db) (f s)"
  shows "memory_sound (write_suggestion (ms_id s) f db)"
proof -
  have "t = s" if "t \<in> set (memory_suggestions db)" "ms_id t = ms_id s" for t
    using that assms(1,2) by (auto simp: memory_sound_def intro: unique_onD)
  then show ?thesis unfolding write_suggestion_def using assms by (intro soundI_suggestions) auto
qed

lemma sound_reject:
  assumes "memory_sound db"
  shows "memory_sound (snd (reject_memory_suggestion now u i db))"
proof (cases "pending_suggestion_for_user u i db")
  case (Inr s)
  then show ?thesis
  proof (rule pending_suggestionE)
    assume s: "s \<in> set (memory_suggestions db)" "ms_id s = i" "ms_status s = PENDING"
    then have "suggestion_row_ok s" "suggestion_linked (user_memories db) s" using assms by (auto simp: memory_sound_def)
    then show ?thesis
      using sound_write_suggestion [OF assms s(1)] s Inr
      by (auto simp: reject_memory_suggestion_def decided_row_ok decided_links)
  qed
qed (use assms in \<open>simp add: reject_memory_suggestion_def\<close>)

lemma store_after_policy_frame:
  assumes "store_memory_after_policy fresh now u content c p sens v src db = Inr (m, db')"
  shows "memory_suggestions db' = memory_suggestions db" and "memory_settings db' = memory_settings db"
    and "m \<in> set (user_memories db')" and "um_user_id m = u"
  using assms by (auto elim!: store_after_policy_okE)

lemma sound_confirm:
  assumes sound: "memory_sound db" and "fresh_memory fresh db"
  shows "memory_sound (snd (confirm_memory_suggestion fresh now u i db))"
proof (cases "pending_suggestion_for_user u i db")
  case (Inr s)
  then show ?thesis
  proof (rule pending_suggestionE)
    assume s: "s \<in> set (memory_suggestions db)" "ms_id s = i" "ms_user_id s = u" "ms_status s = PENDING"
    then have ok: "suggestion_row_ok s" "suggestion_linked (user_memories db) s" using sound by (auto simp: memory_sound_def)
    then have body: "detect_memory_sensitivity (policy_text (ms_content s) None) = NON_SENSITIVE" "ms_sensitivity s = NON_SENSITIVE"
      using s(4) by (auto simp: suggestion_row_ok_def accepted_text_def policy_text_def)
    let ?store = "store_memory_after_policy fresh now u (ms_content s) (ms_category s) ASSISTANT_SUGGESTED
                    (ms_sensitivity s) (Some (ms_value s)) (ms_source s) db"
    have expired: "memory_sound (write_suggestion i (expire_suggestion now) db)"
      using sound_write_suggestion [OF sound s(1)] s ok by (auto simp: decided_row_ok decided_links)
    have stored: "memory_sound (write_suggestion i (confirm_suggestion now (um_id m)) db1)" if r: "?store = Inr (m, db1)" for m db1
    proof -
      note frame = store_after_policy_frame [OF r]
      have db1: "memory_sound db1" by (rule sound_store [OF assms body(1) r [unfolded body(2)]])
      have "suggestion_linked (user_memories db1) (confirm_suggestion now (um_id m) s)"
        using frame(3,4) s(3) by (auto simp: suggestion_linked_def confirm_suggestion_def scrub_suggestion_content_def)
      then show ?thesis
        using sound_write_suggestion [OF db1, of s] s frame(1) by (simp add: decided_row_ok [OF ok(1) s(4)])
    qed
    show ?thesis using Inr sound expired stored by (auto simp: confirm_memory_suggestion_def split: sum.split)
  qed
qed (use assms in \<open>simp add: confirm_memory_suggestion_def\<close>)

lemma memory_for_userE:
  assumes "memory_for_user u i db = Inr m"
  obtains "m \<in> set (user_memories db)" and "um_id m = i" and "um_user_id m = u"
  using assms by (auto simp: memory_for_user_def dest: get_row_SomeD split: option.splits if_splits)

lemma sound_write_memory:
  assumes "memory_sound db" and "m \<in> set (user_memories db)"
    and "um_id (f m) = um_id m" and "um_key (f m) = um_key m" and "um_user_id (f m) = um_user_id m" and "memory_row_ok (f m)"
  shows "memory_sound (write_memory (um_id m) f db)"
proof -
  have "n = m" if "n \<in> set (user_memories db)" "um_id n = um_id m" for n
    using that assms(1,2) by (auto simp: memory_sound_def intro: unique_onD)
  then show ?thesis unfolding write_memory_def using assms by (intro soundI_memories) auto
qed

lemma ended_row_sel [simp]:
  "um_id (deactivate_row now m) = um_id m" "um_key (deactivate_row now m) = um_key m" "um_user_id (deactivate_row now m) = um_user_id m"
  "um_id (delete_row fmt now m) = um_id m" "um_key (delete_row fmt now m) = um_key m" "um_user_id (delete_row fmt now m) = um_user_id m"
  "um_id (stale_row now r m) = um_id m" "um_key (stale_row now r m) = um_key m" "um_user_id (stale_row now r m) = um_user_id m"
  by (simp_all add: deactivate_row_def delete_row_def stale_row_def)

lemma ended_row_ok:
  "memory_row_ok m \<Longrightarrow> um_status m \<noteq> DELETED \<Longrightarrow> memory_row_ok (deactivate_row now m)"
  "memory_row_ok m \<Longrightarrow> memory_row_ok (delete_row fmt now m)"
  "memory_row_ok m \<Longrightarrow> memory_row_ok (stale_row now r m)"
proof -
  show "memory_row_ok m \<Longrightarrow> um_status m \<noteq> DELETED \<Longrightarrow> memory_row_ok (deactivate_row now m)"
    by (simp add: memory_row_ok_def deactivate_row_def)
  have "deleted_document t (delete_row fmt now m) = deleted_document t m" for t
    by (simp add: deleted_document_def delete_row_def)
  then show "memory_row_ok m \<Longrightarrow> memory_row_ok (delete_row fmt now m)"
    by (auto simp: memory_row_ok_def delete_row_def)
  have "deleted_document t (stale_row now r m) = deleted_document t m" for t
    by (simp add: deleted_document_def stale_row_def)
  then show "memory_row_ok m \<Longrightarrow> memory_row_ok (stale_row now r m)"
    by (auto simp: memory_row_ok_def stale_row_def)
qed

lemma sound_deactivate:
  assumes "memory_sound db"
  shows "memory_sound (snd (deactivate_memory now u i db))"
proof -
  let ?db = "expire_user_pending_suggestions u now db"
  have db: "memory_sound ?db" using assms by (rule sound_sweep)
  have "memory_sound (write_memory i (deactivate_row now) ?db)" if "memory_for_user u i ?db = Inr m" "um_status m \<noteq> DELETED" for m
    using that(1)
  proof (rule memory_for_userE)
    assume m: "m \<in> set (user_memories ?db)" "um_id m = i"
    then have "memory_row_ok m" using db by (auto simp: memory_sound_def)
    then show ?thesis using sound_write_memory [OF db m(1)] m(2) that(2) by (auto simp: ended_row_ok)
  qed
  then show ?thesis using db by (auto simp: deactivate_memory_def Let_def split: sum.split)
qed

lemma scrub_linked:
  assumes "suggestion_row_ok s \<and> suggestion_linked ms s" and "ms_memory_id s = Some j"
  shows "ms_id (scrub_suggestion_content r (s\<lparr>ms_updated_at := now\<rparr>)) = ms_id s
    \<and> suggestion_row_ok (scrub_suggestion_content r (s\<lparr>ms_updated_at := now\<rparr>))
    \<and> suggestion_linked ms (scrub_suggestion_content r (s\<lparr>ms_updated_at := now\<rparr>))"
  using assms by (auto simp: suggestion_row_ok_def suggestion_linked_def scrub_suggestion_content_def)

lemma sound_delete:
  assumes "memory_sound db"
  shows "memory_sound (snd (delete_memory fmt now u i db))"
proof -
  let ?db = "expire_user_pending_suggestions u now db"
  have db: "memory_sound ?db" using assms by (rule sound_sweep)
  have "memory_sound ((write_memory i (delete_row fmt now) ?db)\<lparr>memory_suggestions := update_where (\<lambda>s. ms_memory_id s = Some i)
      (\<lambda>s. scrub_suggestion_content ''memory_deleted'' (s\<lparr>ms_updated_at := now\<rparr>)) (memory_suggestions ?db)\<rparr>)"
    if "memory_for_user u i ?db = Inr m" for m
    using that
  proof (rule memory_for_userE)
    assume m: "m \<in> set (user_memories ?db)" "um_id m = i"
    then have "memory_row_ok m" using db by (auto simp: memory_sound_def)
    then have written: "memory_sound (write_memory i (delete_row fmt now) ?db)"
      using sound_write_memory [OF db m(1), of "delete_row fmt now"] m(2) by (auto simp: ended_row_ok)
    have "suggestion_row_ok s \<and> suggestion_linked (user_memories (write_memory i (delete_row fmt now) ?db)) s"
      if "s \<in> set (memory_suggestions (write_memory i (delete_row fmt now) ?db))" for s
      using written that by (simp add: memory_sound_def)
    then have "memory_sound ((write_memory i (delete_row fmt now) ?db)\<lparr>memory_suggestions := update_where (\<lambda>s. ms_memory_id s = Some i)
        (\<lambda>s. scrub_suggestion_content ''memory_deleted'' (s\<lparr>ms_updated_at := now\<rparr>))
        (memory_suggestions (write_memory i (delete_row fmt now) ?db))\<rparr>)"
      by (intro soundI_suggestions [OF written] scrub_linked)
    then show ?thesis by (simp add: write_memory_def)
  qed
  moreover have "um_id m = i" if "memory_for_user u i ?db = Inr m" for m using that by (rule memory_for_userE)
  ultimately show ?thesis using db by (auto simp: delete_memory_def Let_def split: sum.split)
qed

lemma sound_mark_stale:
  assumes "memory_sound db"
  shows "memory_sound (snd (mark_stale now reason derived db))"
  unfolding mark_stale_def Let_def snd_conv
  using assms by (intro soundI_memories) (auto simp: memory_sound_def ended_row_ok)

lemmas sound_operations = sound_get_or_create sound_set_enabled sound_store_explicit sound_auto_store sound_create_suggestion
  sound_confirm sound_reject sound_deactivate sound_delete sound_expire sound_sweep sound_mark_stale

lemma search_db:
  "snd (memory_search store now u query categories limit db) = db
   \<or> snd (memory_search store now u query categories limit db) = expire_user_pending_suggestions u now db"
  by (simp add: memory_search_def active_memories_for_context_def Let_def split: option.split)

lemma sound_user_step: "user_step u db db' \<Longrightarrow> memory_sound db \<Longrightarrow> memory_sound db'"
proof (induction rule: user_step.induct)
  case (recall db store now query categories limit)
  then show ?case using search_db [of store now u query categories limit db] by (auto simp: sound_operations)
qed (simp_all add: sound_operations list_memory_suggestions_def list_memories_def Let_def)

lemma sound_memory_step: "memory_step db db' \<Longrightarrow> memory_sound db \<Longrightarrow> memory_sound db'"
  by (induction rule: memory_step.induct)
    (auto simp: sound_operations mark_document_memories_stale_def mark_transcript_memories_stale_def Let_def intro: sound_user_step)

lemma sound_empty: "empty_memory db \<Longrightarrow> memory_sound db"
  by (simp add: empty_memory_def memory_sound_def unique_on_def)

interpretation long_term: invariant_system empty_memory memory_step memory_sound
  by unfold_locales (auto intro: sound_empty sound_memory_step)

lemma user_step_reachable:
  "reachable empty_memory memory_step db \<Longrightarrow> user_step u db db' \<Longrightarrow> reachable empty_memory memory_step db'"
  by (blast intro: reachable.next_state memory_step.user)

end
