(* ===== verification/Memory_Governance.thy ===== *)
theory Memory_Governance
  imports Memory_Service
begin

text \<open>
  What the memory operations guarantee together: a user's calls leave every other user's rows alone,
  what reaches the provider is governed by the tables and not by the search index, and what the
  policy reads of a value document.
\<close>

section \<open>What a user's calls leave of another user's rows\<close>

definition rows_of_user :: "ident \<Rightarrow> memory_db \<Rightarrow> UserMemorySettingsModel list \<times> UserMemoryModel list \<times> MemorySuggestionModel list" where
  "rows_of_user v db = (filter (\<lambda>s. us_user_id s = v) (memory_settings db), filter (\<lambda>m. um_user_id m = v) (user_memories db),
     filter (\<lambda>s. ms_user_id s = v) (memory_suggestions db))"

lemma filter_update_other:
  assumes "\<And>r. r \<in> set rs \<Longrightarrow> p r \<Longrightarrow> \<not> q r \<and> \<not> q (f r)"
  shows "filter q (update_where p f rs) = filter q rs"
  using assms by (induction rs) (auto simp: update_where_def)

lemma filter_insert_other: "\<not> q r \<Longrightarrow> filter q (insert_row r rs) = filter q rs"
  by (simp add: insert_row_def)

lemma rows_sweep: "v \<noteq> u \<Longrightarrow> rows_of_user v (expire_user_pending_suggestions u now db) = rows_of_user v db"
  by (auto simp: rows_of_user_def expire_user_pending_suggestions_def expire_pending_suggestions_def suggestion_due_def
      intro!: filter_update_other)

lemma rows_get_or_create: "v \<noteq> u \<Longrightarrow> rows_of_user v (snd (get_or_create_settings i now u db)) = rows_of_user v db"
  using rows_sweep [of v u now db]
  by (auto simp: get_or_create_settings_def Let_def rows_of_user_def filter_insert_other split: option.split)

lemma get_or_create_row:
  assumes "get_or_create_settings i now u db = (s, db')"
  shows "s \<in> set (memory_settings db') \<and> us_user_id s = u"
  using assms by (auto simp: get_or_create_settings_def Let_def get_settings_def split: option.splits dest!: scalar_SomeD)

lemma rows_set_enabled:
  assumes "memory_sound db" and "fresh_settings i db" and "v \<noteq> u"
  shows "rows_of_user v (snd (set_enabled i now u enabled db)) = rows_of_user v db"
proof -
  obtain s db' where c: "get_or_create_settings i now u (expire_user_pending_suggestions u now db) = (s, db')"
    by (rule prod.exhaust)
  have sound: "memory_sound db'"
    using sound_get_or_create [OF sound_sweep [OF assms(1)], of i u now now u] assms(2) c by simp
  have rows: "rows_of_user v db' = rows_of_user v db"
    using rows_get_or_create [OF assms(3), of i now "expire_user_pending_suggestions u now db"] rows_sweep [OF assms(3)] c by simp
  have "us_user_id t = u" if "t \<in> set (memory_settings db')" "us_id t = us_id s" for t
    using that get_or_create_row [OF c] sound by (metis memory_sound_def unique_onD)
  then have "filter (\<lambda>t. us_user_id t = v) (update_where (\<lambda>t. us_id t = us_id s) (\<lambda>t. t\<lparr>us_enabled := enabled, us_updated_at := now\<rparr>)
      (memory_settings db')) = filter (\<lambda>t. us_user_id t = v) (memory_settings db')"
    using assms(3) by (intro filter_update_other) auto
  then show ?thesis using rows by (simp add: set_enabled_def Let_def c rows_of_user_def)
qed

lemma rows_store:
  assumes "store_memory_after_policy fresh now u content c p sens v' src db = Inr (m, db')" and "v \<noteq> u"
  shows "rows_of_user v db' = rows_of_user v db"
  using assms(1) by (rule store_after_policy_okE) (use assms(2) in \<open>simp add: rows_of_user_def filter_insert_other\<close>)

lemma rows_swept_store:
  assumes "v \<noteq> u"
  shows "rows_of_user v (snd (after_sweep (store_memory_after_policy fresh now u content c p sens v' src
           (expire_user_pending_suggestions u now db)) (expire_user_pending_suggestions u now db))) = rows_of_user v db"
    and "rows_of_user v (snd (after_sweep (map_sum id (apfst Some) (store_memory_after_policy fresh now u content c p sens v' src
           (expire_user_pending_suggestions u now db))) (expire_user_pending_suggestions u now db))) = rows_of_user v db"
  using rows_sweep [OF assms, of now db] rows_store [OF _ assms]
  by (auto intro!: after_sweepI [where P = "\<lambda>d. rows_of_user v d = rows_of_user v db"])

lemma rows_store_explicit: "v \<noteq> u \<Longrightarrow> rows_of_user v (snd (store_explicit_memory fresh now u content category v' src db)) = rows_of_user v db"
  by (simp add: store_explicit_memory_def Let_def rows_sweep rows_swept_store split: option.split)

lemma rows_auto_store: "v \<noteq> u \<Longrightarrow> rows_of_user v (snd (auto_store_memory fresh now u content category v' src db)) = rows_of_user v db"
  by (simp add: auto_store_memory_def Let_def rows_sweep rows_swept_store split: option.split)

lemma rows_create_suggestion:
  assumes "v \<noteq> u"
  shows "rows_of_user v (snd (create_memory_suggestion i now u content category v' src expires_at db)) = rows_of_user v db"
proof -
  let ?db = "expire_user_pending_suggestions u now db"
  have "rows_of_user v (?db\<lparr>memory_suggestions := insert_row (new_suggestion i now u content policy v' src expires_at) (memory_suggestions ?db)\<rparr>)
      = rows_of_user v ?db" for content policy
    using assms by (simp add: rows_of_user_def filter_insert_other new_suggestion_def)
  then show ?thesis using rows_sweep [OF assms] by (simp add: create_memory_suggestion_def Let_def split: option.split)
qed

lemma rows_write_suggestion:
  assumes "memory_sound db" and "s \<in> set (memory_suggestions db)" and "ms_user_id s \<noteq> v" and "\<And>t. ms_user_id (f t) = ms_user_id t"
  shows "rows_of_user v (write_suggestion (ms_id s) f db) = rows_of_user v db"
proof -
  have "ms_user_id t \<noteq> v" if "t \<in> set (memory_suggestions db)" "ms_id t = ms_id s" for t
    using that assms(1-3) by (metis memory_sound_def unique_onD)
  then have "filter (\<lambda>t. ms_user_id t = v) (update_where (\<lambda>t. ms_id t = ms_id s) f (memory_suggestions db))
      = filter (\<lambda>t. ms_user_id t = v) (memory_suggestions db)"
    by (intro filter_update_other) (simp add: assms(4))
  then show ?thesis by (simp add: rows_of_user_def write_suggestion_def)
qed

lemma rows_reject:
  assumes "memory_sound db" and "v \<noteq> u"
  shows "rows_of_user v (snd (reject_memory_suggestion now u i db)) = rows_of_user v db"
proof (cases "pending_suggestion_for_user u i db")
  case (Inr s)
  then show ?thesis
  proof (rule pending_suggestionE)
    assume s: "s \<in> set (memory_suggestions db)" "ms_id s = i" "ms_user_id s = u"
    then show ?thesis
      using rows_write_suggestion [OF assms(1) s(1), of v] assms(2) Inr by (auto simp: reject_memory_suggestion_def)
  qed
qed (simp add: reject_memory_suggestion_def)

lemma rows_confirm:
  assumes "memory_sound db" and "fresh_memory fresh db" and "v \<noteq> u"
  shows "rows_of_user v (snd (confirm_memory_suggestion fresh now u i db)) = rows_of_user v db"
proof (cases "pending_suggestion_for_user u i db")
  case (Inr s)
  then show ?thesis
  proof (rule pending_suggestionE)
    assume s: "s \<in> set (memory_suggestions db)" "ms_id s = i" "ms_user_id s = u" "ms_status s = PENDING"
    have "rows_of_user v (write_suggestion i (confirm_suggestion now j) db1) = rows_of_user v db"
      if r: "store_memory_after_policy fresh now u (ms_content s) (ms_category s) ASSISTANT_SUGGESTED
                    (ms_sensitivity s) (Some (ms_value s)) (ms_source s) db = Inr (m, db1)" for m db1 j
    proof -
      have ok: "suggestion_row_ok s" using s assms(1) by (auto simp: memory_sound_def)
      then have body: "detect_memory_sensitivity (policy_text (ms_content s) None) = NON_SENSITIVE" "ms_sensitivity s = NON_SENSITIVE"
        using s(4) by (auto simp: suggestion_row_ok_def accepted_text_def policy_text_def)
      have "memory_sound db1" by (rule sound_store [OF assms(1,2) body(1) r [unfolded body(2)]])
      then show ?thesis
        using rows_write_suggestion [of db1 s v] rows_store [OF r assms(3)] store_after_policy_frame(1) [OF r] s assms(3) by auto
    qed
    then show ?thesis
      using rows_write_suggestion [OF assms(1) s(1), of v] s(2,3) assms(3) Inr
      by (auto simp: confirm_memory_suggestion_def split: sum.split)
  qed
qed (simp add: confirm_memory_suggestion_def)

lemma rows_write_memory:
  assumes "memory_sound db" and "m \<in> set (user_memories db)" and "um_user_id m \<noteq> v" and "\<And>n. um_user_id (f n) = um_user_id n"
  shows "rows_of_user v (write_memory (um_id m) f db) = rows_of_user v db"
proof -
  have "um_user_id n \<noteq> v" if "n \<in> set (user_memories db)" "um_id n = um_id m" for n
    using that assms(1-3) by (metis memory_sound_def unique_onD)
  then have "filter (\<lambda>n. um_user_id n = v) (update_where (\<lambda>n. um_id n = um_id m) f (user_memories db))
      = filter (\<lambda>n. um_user_id n = v) (user_memories db)"
    by (intro filter_update_other) (simp add: assms(4))
  then show ?thesis by (simp add: rows_of_user_def write_memory_def)
qed

lemma rows_deactivate:
  assumes "memory_sound db" and "v \<noteq> u"
  shows "rows_of_user v (snd (deactivate_memory now u i db)) = rows_of_user v db"
proof (cases "memory_for_user u i (expire_user_pending_suggestions u now db)")
  case (Inr m)
  then show ?thesis
  proof (rule memory_for_userE)
    assume m: "m \<in> set (user_memories (expire_user_pending_suggestions u now db))" "um_id m = i" "um_user_id m = u"
    then show ?thesis
      using rows_write_memory [OF sound_sweep [OF assms(1)] m(1), of v] rows_sweep [OF assms(2)] assms(2) Inr
      by (auto simp: deactivate_memory_def Let_def)
  qed
qed (simp add: deactivate_memory_def Let_def rows_sweep assms)

text \<open>Deleting scrubs the suggestions linked to the memory: the link stays within the user.\<close>

lemma rows_scrub_linked:
  assumes "memory_sound db" and "m \<in> set (user_memories db)" and "um_user_id m \<noteq> v" and "\<And>s. ms_user_id (f s) = ms_user_id s"
  shows "rows_of_user v (db\<lparr>memory_suggestions := update_where (\<lambda>s. ms_memory_id s = Some (um_id m)) f (memory_suggestions db)\<rparr>)
    = rows_of_user v db"
proof -
  have "ms_user_id s \<noteq> v" if s: "s \<in> set (memory_suggestions db)" "ms_memory_id s = Some (um_id m)" for s
  proof -
    have "suggestion_linked (user_memories db) s" using s(1) assms(1) by (simp add: memory_sound_def)
    then obtain n where n: "n \<in> set (user_memories db)" "um_id n = um_id m" "um_user_id n = ms_user_id s"
      using s(2) by (auto simp: suggestion_linked_def)
    then have "n = m" using assms(1,2) by (metis memory_sound_def unique_onD)
    then show ?thesis using n(3) assms(3) by simp
  qed
  then have "filter (\<lambda>s. ms_user_id s = v) (update_where (\<lambda>s. ms_memory_id s = Some (um_id m)) f (memory_suggestions db))
      = filter (\<lambda>s. ms_user_id s = v) (memory_suggestions db)"
    by (intro filter_update_other) (simp add: assms(4))
  then show ?thesis by (simp add: rows_of_user_def)
qed

lemma rows_delete:
  assumes "memory_sound db" and "v \<noteq> u"
  shows "rows_of_user v (snd (delete_memory fmt now u i db)) = rows_of_user v db"
proof (cases "memory_for_user u i (expire_user_pending_suggestions u now db)")
  case (Inr m)
  let ?db = "expire_user_pending_suggestions u now db"
  have sound: "memory_sound ?db" using assms(1) by (rule sound_sweep)
  from Inr show ?thesis
  proof (rule memory_for_userE)
    assume m: "m \<in> set (user_memories ?db)" "um_id m = i" "um_user_id m = u"
    then have "memory_row_ok m" using sound by (auto simp: memory_sound_def)
    then have written: "memory_sound (write_memory (um_id m) (delete_row fmt now) ?db)"
      using sound_write_memory [OF sound m(1), of "delete_row fmt now"] by (simp add: ended_row_ok)
    have mem: "delete_row fmt now m \<in> set (user_memories (write_memory (um_id m) (delete_row fmt now) ?db))"
      using update_where_mem [OF m(1), of "\<lambda>n. um_id n = um_id m" "delete_row fmt now"] by (simp add: write_memory_def)
    have "rows_of_user v ((write_memory (um_id m) (delete_row fmt now) ?db)\<lparr>memory_suggestions :=
        update_where (\<lambda>s. ms_memory_id s = Some (um_id m)) (\<lambda>s. scrub_suggestion_content ''memory_deleted'' (s\<lparr>ms_updated_at := now\<rparr>))
        (memory_suggestions (write_memory (um_id m) (delete_row fmt now) ?db))\<rparr>) = rows_of_user v db"
      using rows_scrub_linked [OF written mem, of v "\<lambda>s. scrub_suggestion_content ''memory_deleted'' (s\<lparr>ms_updated_at := now\<rparr>)"]
        rows_write_memory [OF sound m(1), of v "delete_row fmt now"] rows_sweep [OF assms(2), of now db] m(3) assms(2)
      by simp
    then show ?thesis using Inr m(2) rows_sweep [OF assms(2)] by (simp add: delete_memory_def Let_def write_memory_def)
  qed
qed (simp add: delete_memory_def Let_def rows_sweep assms)

lemma rows_user_step:
  assumes "user_step u db db'" and "memory_sound db" and "v \<noteq> u"
  shows "rows_of_user v db' = rows_of_user v db"
  using assms(1,2)
proof (induction rule: user_step.induct)
  case (recall db store now query categories limit)
  then show ?case using search_db [of store now u query categories limit db] rows_sweep [OF assms(3)] by auto
qed (simp_all add: assms(3) rows_sweep rows_get_or_create rows_set_enabled rows_store_explicit rows_auto_store rows_create_suggestion
    rows_confirm rows_reject rows_deactivate rows_delete list_memory_suggestions_def list_memories_def Let_def)

section \<open>Properties\<close>


definition no_source :: memory_source where
  "no_source = \<lparr>src_conversation_id = None, src_message_id = None, src_run_id = None, src_document_id = None\<rparr>"

definition first_user_memory :: memory_db where
  "first_user_memory = snd (store_explicit_memory \<lparr>mf_id = ''m1'', mf_key = ''k1''\<rparr> 2 ''u'' ''my tea is green'' ''personal_fact'' None
      no_source (snd (set_enabled ''s1'' 1 ''u'' True \<lparr>memory_settings = [], user_memories = [], memory_suggestions = []\<rparr>)))"


lemma first_memory_reachable: "reachable empty_memory memory_step first_user_memory"
  unfolding first_user_memory_def
  by (intro user_step_reachable [OF _ user_step.store_explicit] user_step_reachable [OF _ user_step.patch_settings] reachable.start)
    (simp_all add: empty_memory_def fresh_settings_def fresh_memory_def set_enabled_def get_or_create_settings_def
      expire_user_pending_suggestions_def expire_pending_suggestions_def get_settings_def scalar_def update_where_def Let_def)


text \<open>
  C7. A call of one user leaves the settings, memories and suggestions of every other user as they
  were, also when it names their rows, and also when deleting a memory scrubs suggestions by the
  memory's identifier alone.
\<close>

theorem memories_of_others_untouched:
  assumes "reachable empty_memory memory_step db" and "user_step u db db'" and "v \<noteq> u"
  shows "rows_of_user v db' = rows_of_user v db"
  using rows_user_step [OF assms(2) long_term.reachable_inv [OF assms(1)] assms(3)] .

theorem memories_of_others_untouched_witness:
  "rows_of_user ''u'' (snd (delete_memory (\<lambda>_. ''t'') 3 ''x'' ''m1'' first_user_memory)) = rows_of_user ''u'' first_user_memory"
  by (rule memories_of_others_untouched [OF first_memory_reachable user_step.delete]) simp

definition governed_memories :: "ident \<Rightarrow> memory_db \<Rightarrow> UserMemoryModel set" where
  "governed_memories u db = {m. m \<in> set (user_memories db) \<and> um_user_id m = u \<and> provider_row m \<and> memory_enabled u db}"

lemma enabled_sweep [simp]: "memory_enabled u (expire_user_pending_suggestions u now db) = memory_enabled u db"
  by (simp add: memory_enabled_def get_settings_def)

lemma in_map_filterD: "x \<in> set (List.map_filter f xs) \<Longrightarrow> \<exists>y \<in> set xs. f y = Some x"
  by (auto simp: map_filter_def)

lemma by_ids_governed: "set (active_memories_by_ids_for_context u ids db) \<subseteq> governed_memories u db"
  by (auto simp: active_memories_by_ids_for_context_def governed_memories_def Let_def dest!: in_map_filterD get_row_SomeD)

lemma context_governed: "set (fst (active_memories_for_context now u categories query limit db)) \<subseteq> governed_memories u db"
  by (auto simp: active_memories_for_context_def governed_memories_def Let_def dest!: in_set_takeD)

lemma search_governed: "set (fst (memory_search store now u query categories limit db)) \<subseteq> memory_runtime_item_from_model ` governed_memories u db"
proof (cases store)
  case None
  then show ?thesis using context_governed [of now u categories query limit db] by (auto simp: memory_search_def)
next
  case (Some found)
  then show ?thesis
    using by_ids_governed [of u _ db] by (auto simp: memory_search_def Let_def dest!: in_set_takeD)
qed

lemma search_limit: "length (fst (memory_search store now u query categories limit db)) \<le> limit"
  by (simp add: memory_search_def active_memories_for_context_def Let_def split: option.split)

lemma stale_rows_left:
  "m \<in> set (user_memories (snd (mark_stale now reason derived db))) \<Longrightarrow> provider_row m \<Longrightarrow> \<not> derived (um_source m)"
  by (auto simp: mark_stale_def Let_def set_update_where provider_row_def stale_row_def split: if_splits)

lemma search_after_document:
  "set (fst (memory_search store now u query categories limit (snd (mark_document_memories_stale t d reason db))))
     \<subseteq> {i. src_document_id (mi_source i) \<noteq> Some d}"
proof -
  let ?db = "snd (mark_document_memories_stale t d reason db)"
  have "src_document_id (mi_source (memory_runtime_item_from_model m)) \<noteq> Some d" if "m \<in> governed_memories u ?db" for m
    using that stale_rows_left [of m t reason "\<lambda>src. src_document_id src = Some d" db]
    by (simp add: governed_memories_def mark_document_memories_stale_def memory_runtime_item_from_model_def)
  then show ?thesis using search_governed [of store now u query categories limit ?db] by blast
qed

text \<open>
  C6. Whatever the search index returns, the assistant is given at most \<open>limit\<close> memories, each one a
  row of the asking user that is active, not sensitive and not stale, and none at all while the user
  has memory switched off; and right after a document is invalidated it is given no memory derived
  from that document.
\<close>

theorem recall_is_governed:
  "length (fst (memory_search store now u query categories limit db)) \<le> limit
   \<and> set (fst (memory_search store now u query categories limit db))
       \<subseteq> memory_runtime_item_from_model ` {m. m \<in> set (user_memories db) \<and> um_user_id m = u \<and> um_status m = ACTIVE
            \<and> um_sensitivity m = NON_SENSITIVE \<and> um_stale_at m = None \<and> memory_enabled u db}
   \<and> set (fst (memory_search store now u query categories limit (snd (mark_document_memories_stale t d reason db))))
       \<subseteq> {i. src_document_id (mi_source i) \<noteq> Some d}"
  using search_limit search_governed [unfolded governed_memories_def provider_row_def] search_after_document by simp

section \<open>Two limits of the policy\<close>

text \<open>
  The policy reads the value document as \<open>json.dumps\<close> renders it: a line break before a word becomes
  the letter of its escape, the word loses its boundary, and a value that is sensitive by itself is
  stored.
\<close>

definition hidden_password :: string where
  "hidden_password = CHR 0x0A # ''password x''"

lemma escape_hides_sensitive_value:
  "detect_memory_sensitivity hidden_password = SENSITIVE
   \<and> pr_decision (evaluate_memory_write (policy_text ''tea'' (Some [(''note'', JString hidden_password)])) PERSONAL_FACT EXPLICIT_WRITE None) = ALLOW"
  by code_simp

text \<open>
  A suggestion drawn from a document outlives the invalidation of the document: confirming it
  afterwards makes an active memory that the assistant recalls.
\<close>

definition suggested_from_document :: memory_db where
  "suggested_from_document = snd (create_memory_suggestion ''g1'' 2 ''u'' ''my tea is green'' ''document_derived_fact'' None
      (no_source\<lparr>src_document_id := Some ''d''\<rparr>) None
      (snd (set_enabled ''s1'' 1 ''u'' True \<lparr>memory_settings = [], user_memories = [], memory_suggestions = []\<rparr>)))"

lemma suggestion_outlives_document:
  "map mi_source (fst (memory_search (Some (\<lambda>_ _ _. [[(''memory_id'', JString ''m1'')]])) 5 ''u'' '''' [] 8
      (snd (confirm_memory_suggestion \<lparr>mf_id = ''m1'', mf_key = ''k1''\<rparr> 4 ''u'' ''g1''
        (snd (mark_document_memories_stale 3 ''d'' ''gone'' suggested_from_document))))))
   = [no_source\<lparr>src_document_id := Some ''d''\<rparr>]"
  by code_simp

end
