(* ===== verification/Spec2Isabelle.thy ===== *)
theory Spec2Isabelle
  imports
    Auth_Abuse Auth_Service Registration_Notifications Guest_Access
    Group_Typing Knowledge_Auth Durable_Runtime Storage_Lifecycle Context_Retrieval Document_Chunking Document_Reading Query_Planning
    Memory_Governance
begin

text \<open>
  Verification of the backend under \<open>src/my_agents\<close>.
\<close>

end
